(* ===== verification/Gateway_Prelude.thy ===== *)
theory Gateway_Prelude
  imports Main "HOL-Library.Word" "HOL-Library.Sublist"
begin

text \<open>
  Shared vocabulary of the development.  It holds the collections of simplification rules, the
  shape of Go results (an \<^verbatim>\<open>error\<close> return is an option, a pair of a value and an error is a
  sum with the error on the left), the range loop that returns at its first error, and two
  interfaces the components use again and again: a loop whose body establishes a goal for its
  element, and a transition system with an invariant.
\<close>

named_theorems gw_defs \<open>definitions of the model that proofs unfold\<close>

type_synonym u8 = "8 word"
type_synonym u16 = "16 word"
type_synonym u32 = "32 word"
type_synonym u64 = "64 word"

text \<open>
  Durations and clock readings are kept in nanoseconds, as \<^verbatim>\<open>time.Duration\<close> is.
\<close>

type_synonym duration = int

subsection \<open>The range loop with an early return\<close>

text \<open>
  \<^verbatim>\<open>for _, x := range xs { if err := f(x); err != nil { return err } }; return nil\<close>
\<close>

fun for_each :: "('a \<Rightarrow> 's \<Rightarrow> 'e option \<times> 's) \<Rightarrow> 'a list \<Rightarrow> 's \<Rightarrow> 'e option \<times> 's" where
  "for_each f [] s = (None, s)"
| "for_each f (x # xs) s =
     (case f x s of (Some e, s') \<Rightarrow> (Some e, s') | (None, s') \<Rightarrow> for_each f xs s')"

lemma for_each_append:
  "for_each f (xs @ ys) s =
     (case for_each f xs s of (Some e, s') \<Rightarrow> (Some e, s') | (None, s') \<Rightarrow> for_each f ys s')"
  by (induction xs arbitrary: s) (auto split: prod.splits option.splits)

lemma for_each_stops:
  assumes "for_each f xs s = (Some e, s')"
  shows "\<exists>ys x zs s1. xs = ys @ x # zs \<and> for_each f ys s = (None, s1) \<and> f x s1 = (Some e, s')"
  using assms
proof (induction xs arbitrary: s)
  case Nil
  then show ?case by simp
next
  case (Cons a xs)
  obtain r s0 where a: "f a s = (r, s0)" by fastforce
  show ?case
  proof (cases r)
    case (Some e0)
    with a Cons.prems show ?thesis
      by (intro exI [of _ "[]"] exI [of _ a] exI [of _ xs] exI [of _ s]) simp
  next
    case None
    with a Cons.prems have "for_each f xs s0 = (Some e, s')" by simp
    from Cons.IH [OF this] obtain ys x zs s1
      where "xs = ys @ x # zs" "for_each f ys s0 = (None, s1)" "f x s1 = (Some e, s')" by blast
    with a None show ?thesis
      by (intro exI [of _ "a # ys"] exI [of _ x] exI [of _ zs] exI [of _ s1]) simp
  qed
qed

lemma for_each_skips:
  assumes "\<And>x. x \<in> set xs \<Longrightarrow> f x s = (None, s)"
  shows "for_each f xs s = (None, s)"
  using assms by (induction xs) auto

lemma for_each_preserves:
  assumes "P s" and "\<And>x s. x \<in> set xs \<Longrightarrow> P s \<Longrightarrow> P (snd (f x s))"
  shows "P (snd (for_each f xs s))"
  using assms
proof (induction xs arbitrary: s)
  case Nil
  then show ?case by simp
next
  case (Cons x xs)
  obtain r s1 where x: "f x s = (r, s1)" by fastforce
  have "P s1" using Cons.prems(2) [of x s] Cons.prems(1) x by simp
  with Cons.IH [of s1] Cons.prems(2) x show ?case by (cases r) auto
qed

lemma for_each_succeeds:
  assumes "P s" and "\<And>x s. x \<in> set xs \<Longrightarrow> P s \<Longrightarrow> fst (f x s) = None \<and> P (snd (f x s))"
  shows "fst (for_each f xs s) = None"
  using assms
proof (induction xs arbitrary: s)
  case Nil
  then show ?case by simp
next
  case (Cons x xs)
  obtain r s1 where x: "f x s = (r, s1)" by fastforce
  have "r = None" "P s1" using Cons.prems(2) [of x s] Cons.prems(1) x by simp_all
  with Cons.IH [of s1] Cons.prems(2) x show ?case by simp
qed

lemma for_each_cong_on:
  assumes "P s" and "\<And>x s. x \<in> set xs \<Longrightarrow> P s \<Longrightarrow> f x s = g x s \<and> P (snd (f x s))"
  shows "for_each f xs s = for_each g xs s"
  using assms
proof (induction xs arbitrary: s)
  case Nil
  then show ?case by simp
next
  case (Cons x xs)
  obtain r s1 where x: "f x s = (r, s1)" by fastforce
  have g: "g x s = (r, s1)" and P: "P s1" using Cons.prems(2) [of x s] Cons.prems(1) x by simp_all
  have "for_each f xs s1 = for_each g xs s1"
    by (rule Cons.IH [OF P]) (rule Cons.prems(2), simp_all)
  with x g show ?case by (cases r) auto
qed

text \<open>Two nested loops run over the pairs in order.\<close>

lemma for_each_nested:
  "for_each (\<lambda>x. for_each (f x) ys) xs s = for_each (\<lambda>(x, y). f x y) (List.product xs ys) s"
proof (induction xs arbitrary: s)
  case Nil
  then show ?case by simp
next
  case (Cons x xs)
  have "for_each (f x) ys s = for_each (\<lambda>(x, y). f x y) (map (Pair x) ys) s"
    by (induction ys arbitrary: s) (auto split: prod.splits option.splits)
  with Cons show ?case by (auto simp: for_each_append split: prod.splits option.splits)
qed

text \<open>
  The contract of a loop body: it keeps an invariant, a successful run reaches the goal of its
  element, and no run undoes the goal of another element.
\<close>

locale range_loop =
  fixes body :: "'a \<Rightarrow> 's \<Rightarrow> 'e option \<times> 's"
    and invar :: "'s \<Rightarrow> bool"
    and reached :: "'a \<Rightarrow> 's \<Rightarrow> bool"
  assumes body_inv: "invar s \<Longrightarrow> invar (snd (body x s))"
    and body_reached: "invar s \<Longrightarrow> body x s = (None, s') \<Longrightarrow> reached x s'"
    and body_stable: "invar s \<Longrightarrow> reached y s \<Longrightarrow> reached y (snd (body x s))"
begin

lemma loop_inv: "invar s \<Longrightarrow> invar (snd (for_each body xs s))"
proof (induction xs arbitrary: s)
  case Nil
  then show ?case by simp
next
  case (Cons x xs)
  then show ?case using body_inv [of s x] by (auto split: prod.splits option.splits)
qed

lemma loop_stable: "invar s \<Longrightarrow> reached y s \<Longrightarrow> reached y (snd (for_each body xs s))"
proof (induction xs arbitrary: s)
  case Nil
  then show ?case by simp
next
  case (Cons x xs)
  then show ?case
    using body_inv [of s x] body_stable [of s y x] by (auto split: prod.splits option.splits)
qed

lemma loop_reached:
  "invar s \<Longrightarrow> for_each body xs s = (None, s') \<Longrightarrow> x \<in> set xs \<Longrightarrow> reached x s'"
proof (induction xs arbitrary: s)
  case Nil
  then show ?case by simp
next
  case (Cons a xs)
  from Cons.prems(2) obtain s1 where a: "body a s = (None, s1)" and r: "for_each body xs s1 = (None, s')"
    by (auto split: prod.splits option.splits)
  have i: "invar s1" using body_inv [OF Cons.prems(1), of a] a by simp
  show ?case
  proof (cases "x = a")
    case True
    with body_reached [OF Cons.prems(1) a] loop_stable [OF i, of x xs] r show ?thesis by simp
  next
    case False
    with Cons.prems(3) Cons.IH [OF i r] show ?thesis by simp
  qed
qed

text \<open>After an error the elements before the failing one have reached their goals.\<close>

lemma loop_error_prefix:
  assumes "invar s" and "for_each body xs s = (Some e, s')"
  shows "\<exists>ys x zs s1. xs = ys @ x # zs \<and> body x s1 = (Some e, s') \<and> invar s1
           \<and> for_each body ys s = (None, s1) \<and> (\<forall>y \<in> set ys. reached y s')"
proof -
  from for_each_stops [OF assms(2)] obtain ys x zs s1
    where *: "xs = ys @ x # zs" "for_each body ys s = (None, s1)" "body x s1 = (Some e, s')" by blast
  have i: "invar s1" using loop_inv [OF assms(1), of ys] *(2) by simp
  have "\<forall>y \<in> set ys. reached y s'"
    using loop_reached [OF assms(1) *(2)] body_stable [OF i, of _ x] *(3) by auto
  with * i show ?thesis by blast
qed

end

subsection \<open>Transition systems with an invariant\<close>

primrec run :: "('s \<Rightarrow> 'o \<Rightarrow> 's) \<Rightarrow> 's \<Rightarrow> 'o list \<Rightarrow> 's" where
  "run step s [] = s"
| "run step s (x # xs) = run step (step s x) xs"

lemma run_append: "run step s (xs @ ys) = run step (run step s xs) ys"
  by (induction xs arbitrary: s) auto

locale invariant_system =
  fixes step :: "'s \<Rightarrow> 'o \<Rightarrow> 's"
    and good :: "'s \<Rightarrow> bool"
  assumes step_good: "good s \<Longrightarrow> good (step s x)"
begin

lemma run_good: "good s \<Longrightarrow> good (run step s xs)"
  by (induction xs arbitrary: s) (auto intro: step_good)

end

text \<open>
  A system whose steps alternate with steps of its environment: what the system keeps, and the environment
  is relied upon to keep, holds along every such run.
\<close>

locale open_system =
  fixes sys_step :: "'s \<Rightarrow> 's \<Rightarrow> bool"
    and env_step :: "'s \<Rightarrow> 's \<Rightarrow> bool"
    and good :: "'s \<Rightarrow> bool"
  assumes sys_good: "good s \<Longrightarrow> sys_step s t \<Longrightarrow> good t"
    and env_good: "good s \<Longrightarrow> env_step s t \<Longrightarrow> good t"
begin

lemma open_run_good: "(\<lambda>s t. sys_step s t \<or> env_step s t)\<^sup>*\<^sup>* s t \<Longrightarrow> good s \<Longrightarrow> good t"
  by (induction rule: rtranclp_induct) (auto intro: sys_good env_good)

end

subsection \<open>Labelled steps\<close>

text \<open>A run of a system whose steps carry labels, as the list of its labels.\<close>

primrec trace :: "('s \<Rightarrow> 'e \<Rightarrow> 's \<Rightarrow> bool) \<Rightarrow> 's \<Rightarrow> 'e list \<Rightarrow> 's \<Rightarrow> bool" where
  "trace step s [] t \<longleftrightarrow> t = s"
| "trace step s (e # es) t \<longleftrightarrow> (\<exists>m. step s e m \<and> trace step m es t)"

lemma trace_append: "trace step s (es @ fs) t \<longleftrightarrow> (\<exists>m. trace step s es m \<and> trace step m fs t)"
  by (induction es arbitrary: s) auto

text \<open>What the steps with the allowed labels keep; and a bound that they respect and that one of them lowers.\<close>

locale labelled_system =
  fixes step :: "'s \<Rightarrow> 'e \<Rightarrow> 's \<Rightarrow> bool"
    and allowed :: "'e \<Rightarrow> bool"
    and good :: "'s \<Rightarrow> bool"
  assumes step_good: "good s \<Longrightarrow> allowed e \<Longrightarrow> step s e t \<Longrightarrow> good t"
begin

lemma trace_good: "trace step s es t \<Longrightarrow> list_all allowed es \<Longrightarrow> good s \<Longrightarrow> good t"
  by (induction es arbitrary: s) (auto intro: step_good)

end

locale fueled_system = labelled_system step allowed good
  for step :: "'s \<Rightarrow> 'e \<Rightarrow> 's \<Rightarrow> bool" and allowed good +
  fixes tick :: 'e and fuel :: "'s \<Rightarrow> nat"
  assumes step_fuel: "good s \<Longrightarrow> allowed e \<Longrightarrow> step s e t \<Longrightarrow> fuel t \<le> fuel s - (if e = tick then 1 else 0)"
begin

lemma trace_fuel:
  "trace step s es t \<Longrightarrow> list_all allowed es \<Longrightarrow> good s \<Longrightarrow> fuel t \<le> fuel s - count_list es tick"
proof (induction es arbitrary: s)
  case Nil
  then show ?case by simp
next
  case (Cons e es)
  then obtain m where m: "step s e m" "trace step m es t" by auto
  with Cons.prems step_good have "good m" by auto
  with Cons.IH [OF m(2)] Cons.prems have "fuel t \<le> fuel m - count_list es tick" by simp
  moreover have "fuel m \<le> fuel s - (if e = tick then 1 else 0)" using Cons.prems m(1) step_fuel by auto
  ultimately show ?case by (auto split: if_splits)
qed

end

text \<open>A deterministic step function, a number of times.\<close>

lemma funpow_fixed: "f s = s \<Longrightarrow> (f ^^ n) s = s"
  by (induction n) auto

subsection \<open>Generic facts\<close>

lemma list_all_filter_id: "list_all P xs \<Longrightarrow> filter P xs = xs"
  by (induction xs) auto

end
