(* ===== verification/Go_Strings.thy ===== *)
theory Go_Strings
  imports Gateway_Prelude
begin

text \<open>
  The parts of Go's \<^verbatim>\<open>strings\<close>, \<^verbatim>\<open>strconv\<close> and \<^verbatim>\<open>unicode\<close> packages that the gateway calls.
  A Go string is a sequence of bytes, and so is an Isabelle \<open>string\<close>.
  \<open>Split\<close> and \<open>Join\<close> work on a one-character separator; \<open>TrimSpace\<close> removes every leading and
  trailing UTF-8 encoding of a code point with the White\_Space property, as \<^verbatim>\<open>unicode.IsSpace\<close>
  decides it.  \<open>dec\<close> is the \<^verbatim>\<open>%d\<close> verb on non-negative numbers and \<open>hex\<close> the \<^verbatim>\<open>%x\<close> verb.
  The interface \<open>csv_list\<close> is the contract that the comma-separated lists of the command line
  share.
\<close>

subsection \<open>Splitting and joining\<close>

fun Split :: "string \<Rightarrow> char \<Rightarrow> string list" where
  "Split [] sep = [[]]"
| "Split (x # xs) sep =
     (if x = sep then [] # Split xs sep
      else (case Split xs sep of [] \<Rightarrow> [[x]] | y # ys \<Rightarrow> (x # y) # ys))"

fun Join :: "string list \<Rightarrow> char \<Rightarrow> string" where
  "Join [] sep = []"
| "Join [x] sep = x"
| "Join (x # xs) sep = x @ sep # Join xs sep"

lemma Split_not_Nil [simp]: "Split s sep \<noteq> []"
  by (induction s) (auto split: list.splits)

lemma Split_no_sep: "sep \<notin> set s \<Longrightarrow> Split s sep = [s]"
  by (induction s) auto

lemma Split_append_sep: "Split (s @ sep # t) sep = Split s sep @ Split t sep"
  by (induction s) (auto split: list.splits)

lemma Split_elem: "x \<in> set (Split s sep) \<Longrightarrow> sep \<notin> set x"
proof (induction s arbitrary: x)
  case Nil
  then show ?case by simp
next
  case (Cons c s)
  then show ?case by (cases "Split s sep") (auto split: if_splits)
qed

lemma Join_Split [simp]: "Join (Split s sep) sep = s"
proof (induction s)
  case Nil
  then show ?case by simp
next
  case (Cons c s)
  obtain y ys where "Split s sep = y # ys" by (cases "Split s sep") auto
  with Cons show ?case by (cases ys) auto
qed

lemma Split_Join: "xs \<noteq> [] \<Longrightarrow> list_all (\<lambda>x. sep \<notin> set x) xs \<Longrightarrow> Split (Join xs sep) sep = xs"
  by (induction xs sep rule: Join.induct) (auto simp: Split_no_sep Split_append_sep)

subsection \<open>Trimming white space\<close>

definition space_seqs :: "string list" where
  "space_seqs =
     [[CHR 0x09], [CHR 0x0A], [CHR 0x0B], [CHR 0x0C], [CHR 0x0D], [CHR 0x20],
      [CHR 0xC2, CHR 0x85], [CHR 0xC2, CHR 0xA0], [CHR 0xE1, CHR 0x9A, CHR 0x80],
      [CHR 0xE2, CHR 0x80, CHR 0x80], [CHR 0xE2, CHR 0x80, CHR 0x81],
      [CHR 0xE2, CHR 0x80, CHR 0x82], [CHR 0xE2, CHR 0x80, CHR 0x83],
      [CHR 0xE2, CHR 0x80, CHR 0x84], [CHR 0xE2, CHR 0x80, CHR 0x85],
      [CHR 0xE2, CHR 0x80, CHR 0x86], [CHR 0xE2, CHR 0x80, CHR 0x87],
      [CHR 0xE2, CHR 0x80, CHR 0x88], [CHR 0xE2, CHR 0x80, CHR 0x89],
      [CHR 0xE2, CHR 0x80, CHR 0x8A], [CHR 0xE2, CHR 0x80, CHR 0xA8],
      [CHR 0xE2, CHR 0x80, CHR 0xA9], [CHR 0xE2, CHR 0x80, CHR 0xAF],
      [CHR 0xE2, CHR 0x81, CHR 0x9F], [CHR 0xE3, CHR 0x80, CHR 0x80]]"

function trim_with :: "string list \<Rightarrow> string \<Rightarrow> string" where
  "trim_with seqs s =
     (case find (\<lambda>p. p \<noteq> [] \<and> prefix p s) seqs of
        None \<Rightarrow> s
      | Some p \<Rightarrow> trim_with seqs (drop (length p) s))"
  by pat_completeness auto
termination
  by (relation "measure (\<lambda>(seqs, s). length s)") (auto simp: find_Some_iff prefix_def)

declare trim_with.simps [simp del]

definition TrimLeftSpace :: "string \<Rightarrow> string" where
  "TrimLeftSpace s = trim_with space_seqs s"

definition TrimRightSpace :: "string \<Rightarrow> string" where
  "TrimRightSpace s = rev (trim_with (map rev space_seqs) (rev s))"

definition TrimSpace :: "string \<Rightarrow> string" where
  "TrimSpace s = TrimRightSpace (TrimLeftSpace s)"

definition graphic :: "char \<Rightarrow> bool" where
  "graphic c \<longleftrightarrow> 33 \<le> (of_char c :: nat) \<and> (of_char c :: nat) \<le> 126"

definition trimmed :: "string \<Rightarrow> bool" where
  "trimmed s \<longleftrightarrow> (\<forall>p \<in> set space_seqs. \<not> prefix p s \<and> \<not> suffix p s)"

lemma space_seqs_not_Nil: "p \<in> set space_seqs \<Longrightarrow> p \<noteq> []"
  by (auto simp: space_seqs_def)

lemma trim_with_suffix: "suffix (trim_with seqs s) s"
proof (induction seqs s rule: trim_with.induct)
  case (1 seqs s)
  show ?case
  proof (cases "find (\<lambda>p. p \<noteq> [] \<and> prefix p s) seqs")
    case None
    then show ?thesis by (simp add: trim_with.simps [of seqs s])
  next
    case (Some p)
    with 1 show ?thesis
      by (simp add: trim_with.simps [of seqs s]) (meson suffix_drop suffix_order.trans)
  qed
qed

lemma trim_with_no_prefix:
  "p \<in> set seqs \<Longrightarrow> p \<noteq> [] \<Longrightarrow> \<not> prefix p (trim_with seqs s)"
proof (induction seqs s rule: trim_with.induct)
  case (1 seqs s)
  show ?case
  proof (cases "find (\<lambda>p. p \<noteq> [] \<and> prefix p s) seqs")
    case None
    then have "\<not> prefix p s" using 1(2,3) by (auto simp: find_None_iff)
    with None show ?thesis by (simp add: trim_with.simps [of seqs s])
  next
    case (Some q)
    with 1 show ?thesis by (simp add: trim_with.simps [of seqs s])
  qed
qed

lemma trim_with_fixed: "(\<And>p. p \<in> set seqs \<Longrightarrow> \<not> prefix p s) \<Longrightarrow> trim_with seqs s = s"
  by (subst trim_with.simps) (auto simp: find_Some_iff split: option.splits)

lemma TrimRightSpace_prefix: "prefix (TrimRightSpace s) s"
  using trim_with_suffix [of "map rev space_seqs" "rev s"]
  by (simp add: TrimRightSpace_def suffix_to_prefix)

lemma TrimRightSpace_no_suffix: "p \<in> set space_seqs \<Longrightarrow> \<not> suffix p (TrimRightSpace s)"
  using trim_with_no_prefix [of "rev p" "map rev space_seqs" "rev s"]
  by (simp add: TrimRightSpace_def suffix_to_prefix space_seqs_not_Nil)

lemma TrimSpace_trimmed: "trimmed (TrimSpace s)"
proof -
  have "\<not> prefix p (TrimSpace s)" if p: "p \<in> set space_seqs" for p
  proof -
    have "\<not> prefix p (TrimLeftSpace s)"
      using trim_with_no_prefix [OF p space_seqs_not_Nil [OF p]] by (simp add: TrimLeftSpace_def)
    then show ?thesis
      unfolding TrimSpace_def by (meson TrimRightSpace_prefix prefix_order.trans)
  qed
  then show ?thesis by (auto simp: trimmed_def TrimSpace_def TrimRightSpace_no_suffix)
qed

lemma TrimSpace_fixed: "trimmed s \<Longrightarrow> TrimSpace s = s"
proof -
  assume t: "trimmed s"
  then have "TrimLeftSpace s = s"
    by (auto simp: TrimLeftSpace_def trimmed_def intro: trim_with_fixed)
  moreover have "trim_with (map rev space_seqs) (rev s) = rev s"
    using t by (intro trim_with_fixed) (auto simp: trimmed_def suffix_to_prefix)
  ultimately show ?thesis by (simp add: TrimSpace_def TrimRightSpace_def)
qed

lemma set_TrimSpace: "set (TrimSpace s) \<subseteq> set s"
proof -
  have "set (TrimSpace s) \<subseteq> set (TrimLeftSpace s)"
    unfolding TrimSpace_def by (rule set_mono_prefix [OF TrimRightSpace_prefix])
  also have "\<dots> \<subseteq> set s"
    unfolding TrimLeftSpace_def by (rule set_mono_suffix [OF trim_with_suffix])
  finally show ?thesis .
qed

text \<open>
  No white space sequence is a proper prefix of another, so the trimmed text is what remains of a
  string between two runs of white space.
\<close>

lemma space_seqs_free:
  "list_all (\<lambda>p. list_all (\<lambda>q. prefix p q \<longrightarrow> p = q) space_seqs) space_seqs"
  "list_all (\<lambda>p. list_all (\<lambda>q. prefix (rev p) (rev q) \<longrightarrow> p = q) space_seqs) space_seqs"
  by (simp_all add: space_seqs_def)

lemma space_seqs_prefix_free:
  "p \<in> set space_seqs \<Longrightarrow> q \<in> set space_seqs \<Longrightarrow> prefix p q \<Longrightarrow> p = q"
  using space_seqs_free(1) by (simp add: list_all_iff)

lemma space_seqs_suffix_free:
  "p \<in> set space_seqs \<Longrightarrow> q \<in> set space_seqs \<Longrightarrow> suffix p q \<Longrightarrow> p = q"
  using space_seqs_free(2) by (simp add: list_all_iff suffix_to_prefix)

lemma trim_with_step:
  assumes "p \<in> set seqs" "p \<noteq> []"
    and free: "\<And>q. q \<in> set seqs \<Longrightarrow> prefix p q \<or> prefix q p \<Longrightarrow> q = p"
  shows "trim_with seqs (p @ s) = trim_with seqs s"
proof -
  have "find (\<lambda>q. q \<noteq> [] \<and> prefix q (p @ s)) seqs = Some p"
  proof (cases "find (\<lambda>q. q \<noteq> [] \<and> prefix q (p @ s)) seqs")
    case None
    with assms(1,2) show ?thesis by (auto simp: find_None_iff)
  next
    case (Some q)
    then have "q \<in> set seqs" "prefix q (p @ s)" by (auto simp: find_Some_iff)
    moreover from this(2) have "prefix p q \<or> prefix q p"
      using prefix_same_cases [of q "p @ s" p] by auto
    ultimately show ?thesis using free Some by simp
  qed
  then show ?thesis by (subst trim_with.simps) simp
qed

lemma TrimLeftSpace_pad: "set ps \<subseteq> set space_seqs \<Longrightarrow> TrimLeftSpace (concat ps @ s) = TrimLeftSpace s"
proof (induction ps)
  case Nil
  then show ?case by simp
next
  case (Cons p ps)
  have "trim_with space_seqs (p @ concat ps @ s) = trim_with space_seqs (concat ps @ s)"
    using Cons.prems by (intro trim_with_step) (auto dest: space_seqs_prefix_free space_seqs_not_Nil)
  with Cons show ?case by (simp add: TrimLeftSpace_def)
qed

lemma TrimRightSpace_pad: "set ps \<subseteq> set space_seqs \<Longrightarrow> TrimRightSpace (s @ concat ps) = TrimRightSpace s"
proof (induction ps rule: rev_induct)
  case Nil
  then show ?case by simp
next
  case (snoc p ps)
  have "trim_with (map rev space_seqs) (rev p @ rev (s @ concat ps)) = trim_with (map rev space_seqs) (rev (s @ concat ps))"
    using snoc.prems
    by (intro trim_with_step)
       (auto dest: space_seqs_suffix_free space_seqs_not_Nil simp: suffix_to_prefix [symmetric])
  with snoc show ?case by (simp add: TrimRightSpace_def)
qed

lemma trim_with_strips: "\<exists>ps. set ps \<subseteq> set seqs \<and> s = concat ps @ trim_with seqs s"
proof (induction seqs s rule: trim_with.induct)
  case (1 seqs s)
  show ?case
  proof (cases "find (\<lambda>p. p \<noteq> [] \<and> prefix p s) seqs")
    case None
    then show ?thesis by (intro exI [of _ "[]"]) (simp add: trim_with.simps [of seqs s])
  next
    case (Some p)
    then have p: "p \<in> set seqs" "s = p @ drop (length p) s" by (auto simp: find_Some_iff prefix_def)
    from 1 [OF Some] obtain ps where "set ps \<subseteq> set seqs"
      "drop (length p) s = concat ps @ trim_with seqs (drop (length p) s)" by blast
    with p Some show ?thesis
      by (intro exI [of _ "p # ps"]) (simp add: trim_with.simps [of seqs s])
  qed
qed

lemma TrimSpace_pad:
  assumes "set ps \<subseteq> set space_seqs" "set qs \<subseteq> set space_seqs" "trimmed x" "x \<noteq> []"
    and "graphic (hd x)"
  shows "TrimSpace (concat ps @ x @ concat qs) = x"
proof -
  have hd: "\<not> graphic (hd p)" if "p \<in> set space_seqs" for p
    using that by (auto simp: space_seqs_def graphic_def)
  have "\<not> prefix p (x @ concat qs)" if "p \<in> set space_seqs" for p
    using hd [OF that] space_seqs_not_Nil [OF that] assms(4,5) by (auto simp: prefix_def dest: arg_cong [where f = hd])
  then have "TrimLeftSpace (x @ concat qs) = x @ concat qs"
    unfolding TrimLeftSpace_def by (rule trim_with_fixed)
  then have "TrimSpace (concat ps @ x @ concat qs) = TrimRightSpace x"
    using assms(1,2) by (simp add: TrimSpace_def TrimLeftSpace_pad TrimRightSpace_pad)
  also have "\<dots> = x" using TrimSpace_fixed [OF assms(3)] assms(3)
    by (auto simp: TrimSpace_def TrimLeftSpace_def trimmed_def trim_with_fixed)
  finally show ?thesis .
qed

lemma TrimSpace_strips:
  "\<exists>ps qs. set ps \<subseteq> set space_seqs \<and> set qs \<subseteq> set space_seqs \<and> s = concat ps @ TrimSpace s @ concat qs"
proof -
  obtain ps where p: "set ps \<subseteq> set space_seqs" "s = concat ps @ TrimLeftSpace s"
    using trim_with_strips [of space_seqs s] unfolding TrimLeftSpace_def by blast
  let ?t = "TrimLeftSpace s"
  obtain rs where r: "set rs \<subseteq> set (map rev space_seqs)" "rev ?t = concat rs @ trim_with (map rev space_seqs) (rev ?t)"
    using trim_with_strips [of "map rev space_seqs" "rev ?t"] by blast
  then have "?t = TrimRightSpace ?t @ concat (rev (map rev rs))"
    by (simp add: TrimRightSpace_def rev_concat rev_map) (metis rev_append rev_rev_ident rev_concat rev_map)
  moreover have "set (rev (map rev rs)) \<subseteq> set space_seqs" using r(1) by auto
  ultimately show ?thesis using p unfolding TrimSpace_def by metis
qed

text \<open>A string with printable ASCII ends is trimmed already.\<close>

lemma space_seq_ends: "p \<in> set space_seqs \<Longrightarrow> \<not> graphic (hd p) \<and> \<not> graphic (last p)"
  by (auto simp: space_seqs_def graphic_def)

lemma trimmed_graphic:
  assumes "s \<noteq> []" "graphic (hd s)" "graphic (last s)"
  shows "trimmed s"
  unfolding trimmed_def
proof (intro ballI conjI notI)
  fix p assume p: "p \<in> set space_seqs"
  { assume "prefix p s"
    then have "hd p = hd s" using space_seqs_not_Nil [OF p] by (auto simp: prefix_def)
    with space_seq_ends [OF p] assms(2) show False by simp }
  { assume "suffix p s"
    then have "last p = last s" using space_seqs_not_Nil [OF p] by (auto simp: suffix_def)
    with space_seq_ends [OF p] assms(3) show False by simp }
qed

subsection \<open>Comma-separated lists\<close>

definition entry_ok :: "string \<Rightarrow> bool" where
  "entry_ok x \<longleftrightarrow> x \<noteq> [] \<and> CHR '','' \<notin> set x \<and> trimmed x"

text \<open>The body that both list parsers of the command line share: trim, and keep what is not empty.\<close>

definition keep_trimmed :: "string list \<Rightarrow> string \<Rightarrow> string list" where
  "keep_trimmed acc c = (let t = TrimSpace c in if t \<noteq> [] then acc @ [t] else acc)"

lemma foldl_keep_trimmed:
  "foldl keep_trimmed acc xs = acc @ filter (\<lambda>t. t \<noteq> []) (map TrimSpace xs)"
  by (induction xs arbitrary: acc) (auto simp: keep_trimmed_def Let_def)

lemma map_TrimSpace_ok: "list_all entry_ok xs \<Longrightarrow> filter (\<lambda>t. t \<noteq> []) (map TrimSpace xs) = xs"
  by (induction xs) (auto simp: entry_ok_def TrimSpace_fixed)

lemma TrimSpace_Nil [simp]: "TrimSpace [] = []"
  using set_TrimSpace [of "[]"] by simp

locale csv_list =
  fixes parse :: "string \<Rightarrow> string list"
  assumes parse_entry: "x \<in> set (parse s) \<Longrightarrow> entry_ok x"
    and parse_sep: "parse (s @ CHR '','' # t) = parse s @ parse t"
    and parse_single: "CHR '','' \<notin> set s \<Longrightarrow> parse s = (if TrimSpace s = [] then [] else [TrimSpace s])"
begin

lemma parse_Join: "list_all entry_ok xs \<Longrightarrow> parse (Join xs CHR '','') = xs"
proof (induction xs "CHR '',''" rule: Join.induct)
  case 1
  then show ?case using parse_single [of "[]"] by simp
next
  case (2 x)
  then show ?case using parse_single [of x] by (simp add: entry_ok_def TrimSpace_fixed)
next
  case (3 x v va)
  then have "parse x = [x]" using parse_single [of x] by (simp add: entry_ok_def TrimSpace_fixed)
  with 3 show ?case by (simp add: parse_sep)
qed

text \<open>Printing the parsed list and parsing it again changes nothing.\<close>

lemma parse_normal: "parse (Join (parse s) CHR '','') = parse s"
  by (rule parse_Join) (simp add: list_all_iff parse_entry)

lemma parse_blank: "parse (s @ CHR '','' # t) = [] \<longleftrightarrow> parse s = [] \<and> parse t = []"
  by (simp add: parse_sep)

end

lemma split_trim_csv: "csv_list (\<lambda>s. foldl keep_trimmed [] (Split s CHR '',''))"
proof
  fix x s t
  show "x \<in> set (foldl keep_trimmed [] (Split s CHR '','')) \<Longrightarrow> entry_ok x"
    using set_TrimSpace Split_elem [of _ s "CHR '',''"]
    by (auto simp: foldl_keep_trimmed entry_ok_def TrimSpace_trimmed)
  show "foldl keep_trimmed [] (Split (s @ CHR '','' # t) CHR '','')
      = foldl keep_trimmed [] (Split s CHR '','') @ foldl keep_trimmed [] (Split t CHR '','')"
    by (simp add: foldl_keep_trimmed Split_append_sep)
  show "CHR '','' \<notin> set s \<Longrightarrow>
      foldl keep_trimmed [] (Split s CHR '','') = (if TrimSpace s = [] then [] else [TrimSpace s])"
    by (simp add: Split_no_sep keep_trimmed_def)
qed

subsection \<open>Printing numbers\<close>

definition dig_char :: "nat \<Rightarrow> char" where
  "dig_char k = ''0123456789abcdef'' ! k"

fun dec :: "nat \<Rightarrow> string" where
  "dec n = (if n < 10 then [dig_char n] else dec (n div 10) @ [dig_char (n mod 10)])"

fun hex_digits :: "nat \<Rightarrow> string" where
  "hex_digits n =
     (if n < 16 then [dig_char n]
      else hex_digits (n div 16) @ [dig_char (n mod 16)])"

declare dec.simps [simp del] hex_digits.simps [simp del]

definition dec_value :: "string \<Rightarrow> nat" where
  "dec_value s = foldl (\<lambda>a c. a * 10 + (of_char c - 48)) 0 s"

lemma less_10_cases: "(n :: nat) < 10 \<longleftrightarrow> n \<in> {0, 1, 2, 3, 4, 5, 6, 7, 8, 9}"
  by auto

lemma of_char_digit: "n < 10 \<Longrightarrow> of_char (dig_char n) = 48 + n"
  by (auto simp: less_10_cases dig_char_def)

lemma dec_value_dec: "dec_value (dec n) = n"
proof (induction n rule: dec.induct)
  case (1 n)
  show ?case
  proof (cases "n < 10")
    case True
    then show ?thesis by (subst dec.simps) (simp add: dec_value_def of_char_digit)
  next
    case False
    with 1 have "dec_value (dec (n div 10)) = n div 10" by simp
    with False show ?thesis
      by (subst dec.simps) (simp add: dec_value_def of_char_digit)
  qed
qed

lemma dec_inject [simp]: "dec m = dec n \<longleftrightarrow> m = n"
  by (metis dec_value_dec)

lemma dec_not_Nil [simp]: "dec n \<noteq> []"
  by (subst dec.simps) simp

end
