(* ===== verification/Go_Net.thy ===== *)
theory Go_Net
  imports Go_Strings
begin

unbundle bit_operations_syntax

text \<open>
  The parts of Go's \<^verbatim>\<open>net\<close> and \<^verbatim>\<open>net/netip\<close> packages that the gateway calls: parsing and printing
  of IPv4 and IPv6 addresses, CIDR blocks, masks and hardware addresses.  A \<^verbatim>\<open>net.IP\<close>, a
  \<^verbatim>\<open>net.IPMask\<close> and a \<^verbatim>\<open>net.HardwareAddr\<close> are byte slices, so they are lists of bytes here; a nil
  result is \<open>None\<close>.  \<open>ParseIP\<close> always yields the 16-byte form, in which an IPv4 address has the
  prefix \<open>v4InV6Prefix\<close>.
\<close>

type_synonym IP = "u8 list"
type_synonym IPMask = "u8 list"
type_synonym HardwareAddr = "u8 list"

record IPNet =
  net_IP :: IP
  net_Mask :: IPMask

subsection \<open>Character classes\<close>

definition is_dig :: "char \<Rightarrow> bool" where
  "is_dig c \<longleftrightarrow> 48 \<le> (of_char c :: nat) \<and> (of_char c :: nat) \<le> 57"

definition dig_val :: "char \<Rightarrow> nat" where
  "dig_val c = of_char c - 48"

definition is_hex :: "char \<Rightarrow> bool" where
  "is_hex c \<longleftrightarrow> is_dig c \<or> (97 \<le> (of_char c :: nat) \<and> (of_char c :: nat) \<le> 102)
                  \<or> (65 \<le> (of_char c :: nat) \<and> (of_char c :: nat) \<le> 70)"

definition hex_val :: "char \<Rightarrow> nat" where
  "hex_val c = (if is_dig c then of_char c - 48
                else if 97 \<le> (of_char c :: nat) then of_char c - 87 else of_char c - 55)"

subsection \<open>Addresses: \<^verbatim>\<open>netip.ParseAddr\<close>\<close>

datatype Addr = Addr4 "u8 list" | Addr6 "u8 list" string

fun parseIPv4Fields :: "nat \<Rightarrow> nat \<Rightarrow> u8 list \<Rightarrow> string \<Rightarrow> u8 list option" where
  "parseIPv4Fields val digLen fs [] =
     (if length fs < 3 then None else Some (fs @ [of_nat val]))"
| "parseIPv4Fields val digLen fs (c # cs) =
     (if is_dig c then
        (if digLen = 1 \<and> val = 0 then None
         else let v = val * 10 + dig_val c
              in if 255 < v then None else parseIPv4Fields v (Suc digLen) fs cs)
      else if c = CHR ''.'' then
        (if digLen = 0 \<or> cs = [] then None
         else if length fs = 3 then None
         else parseIPv4Fields 0 0 (fs @ [of_nat val]) cs)
      else None)"

text \<open>
  One turn of the IPv6 loop reads a group of hexadecimal digits.  The state is the unread input,
  the bytes stored so far and the position of the ellipsis; the loop runs while fewer than 16
  bytes are stored.
\<close>

function parseIPv6Loop ::
  "string \<Rightarrow> u8 list \<Rightarrow> nat option \<Rightarrow> (string \<times> u8 list \<times> nat option) option" where
  "parseIPv6Loop s ip ellipsis =
     (if 16 \<le> length ip then Some (s, ip, ellipsis)
      else
        let ds = takeWhile is_hex s;
            acc = foldl (\<lambda>a c. a * 16 + hex_val c) 0 ds;
            rest = drop (length ds) s
        in if 4 < length ds \<or> ds = [] then None
           else if rest \<noteq> [] \<and> hd rest = CHR ''.'' then
             (if ellipsis = None \<and> length ip \<noteq> 12 then None
              else if 16 < length ip + 4 then None
              else (case parseIPv4Fields 0 0 [] s of
                      None \<Rightarrow> None
                    | Some bs \<Rightarrow> Some ([], ip @ bs, ellipsis)))
           else
             let ip' = ip @ [of_nat (acc div 256), of_nat (acc mod 256)]
             in if rest = [] then Some ([], ip', ellipsis)
                else if hd rest \<noteq> CHR '':'' \<or> tl rest = [] then None
                else
                  let s' = tl rest
                  in if hd s' = CHR '':'' then
                       (if ellipsis \<noteq> None then None
                        else if tl s' = [] then Some ([], ip', Some (length ip'))
                        else parseIPv6Loop (tl s') ip' (Some (length ip')))
                     else parseIPv6Loop s' ip' ellipsis)"
  by pat_completeness auto
termination
  by (relation "measure (\<lambda>(s, ip, e). 16 - length ip)") auto

declare parseIPv6Loop.simps [simp del]

definition parseIPv6 :: "string \<Rightarrow> Addr option" where
  "parseIPv6 input =
     (let s = takeWhile (\<lambda>c. c \<noteq> CHR ''%'') input;
          after = drop (length s) input;
          zone = tl after
      in if after \<noteq> [] \<and> zone = [] then None
         else
           let lead = (take 2 s = ''::'');
               s1 = (if lead then drop 2 s else s);
               e0 = (if lead then Some 0 else None)
           in if lead \<and> s1 = [] then Some (Addr6 (replicate 16 0) zone)
              else case parseIPv6Loop s1 [] e0 of
                     None \<Rightarrow> None
                   | Some (rest, ip, ellipsis) \<Rightarrow>
                       if rest \<noteq> [] then None
                       else if length ip < 16 then
                         (case ellipsis of
                            None \<Rightarrow> None
                          | Some e \<Rightarrow>
                              Some (Addr6 (take e ip @ replicate (16 - length ip) 0 @ drop e ip) zone))
                       else if ellipsis \<noteq> None then None
                       else Some (Addr6 ip zone))"

definition ParseAddr :: "string \<Rightarrow> Addr option" where
  "ParseAddr s =
     (case find (\<lambda>c. c = CHR ''.'' \<or> c = CHR '':'' \<or> c = CHR ''%'') s of
        None \<Rightarrow> None
      | Some c \<Rightarrow>
          if c = CHR ''.'' then map_option Addr4 (parseIPv4Fields 0 0 [] s)
          else if c = CHR '':'' then parseIPv6 s
          else None)"

definition v4InV6Prefix :: "u8 list" where
  "v4InV6Prefix = replicate 10 0 @ [0xFF, 0xFF]"

fun As16 :: "Addr \<Rightarrow> IP" where
  "As16 (Addr4 bs) = v4InV6Prefix @ bs"
| "As16 (Addr6 bs _) = bs"

fun BitLen :: "Addr \<Rightarrow> nat" where
  "BitLen (Addr4 _) = 32"
| "BitLen (Addr6 _ _) = 128"

fun Zone :: "Addr \<Rightarrow> string" where
  "Zone (Addr4 _) = []"
| "Zone (Addr6 _ z) = z"

definition ParseIP :: "string \<Rightarrow> IP option" where
  "ParseIP s = (case ParseAddr s of
                  None \<Rightarrow> None
                | Some a \<Rightarrow> if Zone a \<noteq> [] then None else Some (As16 a))"

definition To4 :: "IP \<Rightarrow> IP option" where
  "To4 ip = (if length ip = 4 then Some ip
             else if length ip = 16 \<and> take 12 ip = v4InV6Prefix then Some (drop 12 ip)
             else None)"

definition IP_Equal :: "IP \<Rightarrow> IP \<Rightarrow> bool" where
  "IP_Equal ip x =
     (if length ip = length x then ip = x
      else if length ip = 4 \<and> length x = 16 then take 12 x = v4InV6Prefix \<and> ip = drop 12 x
      else if length ip = 16 \<and> length x = 4 then take 12 ip = v4InV6Prefix \<and> drop 12 ip = x
      else False)"

subsection \<open>CIDR blocks\<close>

fun CIDRMask_loop :: "nat \<Rightarrow> nat \<Rightarrow> IPMask" where
  "CIDRMask_loop n 0 = []"
| "CIDRMask_loop n (Suc l) =
     (if 8 \<le> n then 0xFF # CIDRMask_loop (n - 8) l
      else NOT (drop_bit n 0xFF) # CIDRMask_loop 0 l)"

definition CIDRMask :: "nat \<Rightarrow> nat \<Rightarrow> IPMask" where
  "CIDRMask ones bits = CIDRMask_loop ones (bits div 8)"

definition IP_Mask :: "IP \<Rightarrow> IPMask \<Rightarrow> IP" where
  "IP_Mask ip m =
     (let m' = (if length m = 16 \<and> length ip = 4 \<and> take 12 m = replicate 12 0xFF
                then drop 12 m else m);
          ip' = (if length m' = 4 \<and> length ip = 16 \<and> take 12 ip = v4InV6Prefix
                 then drop 12 ip else ip)
      in if length ip' \<noteq> length m' then [] else map2 (AND) ip' m')"

fun dtoi_loop :: "nat \<Rightarrow> string \<Rightarrow> (nat \<times> string) option" where
  "dtoi_loop n [] = Some (n, [])"
| "dtoi_loop n (c # cs) =
     (if is_dig c then
        let m = n * 10 + dig_val c in if 0xFFFFFF \<le> m then None else dtoi_loop m cs
      else Some (n, c # cs))"

definition dtoi :: "string \<Rightarrow> (nat \<times> string) option" where
  "dtoi s = (if s = [] \<or> \<not> is_dig (hd s) then None else dtoi_loop 0 s)"

lemma CIDRMask_loop_numeral [simp]:
  "CIDRMask_loop n (numeral k) =
     (if 8 \<le> n then 0xFF # CIDRMask_loop (n - 8) (pred_numeral k)
      else NOT (drop_bit n 0xFF) # CIDRMask_loop 0 (pred_numeral k))"
  by (simp add: numeral_eq_Suc)

text \<open>\<^verbatim>\<open>net.ParseCIDR\<close>; only the block is kept, as both callers drop the address.\<close>

definition ParseCIDR :: "string \<Rightarrow> IPNet option" where
  "ParseCIDR s =
     (let addr = takeWhile (\<lambda>c. c \<noteq> CHR ''/'') s;
          rest = drop (length addr) s
      in if rest = [] then None
         else case ParseAddr addr of
                None \<Rightarrow> None
              | Some a \<Rightarrow>
                  if Zone a \<noteq> [] then None
                  else case dtoi (tl rest) of
                         None \<Rightarrow> None
                       | Some (n, left) \<Rightarrow>
                           if left \<noteq> [] \<or> BitLen a < n then None
                           else let m = CIDRMask n (BitLen a)
                                in Some \<lparr>net_IP = IP_Mask (As16 a) m, net_Mask = m\<rparr>)"

subsection \<open>Printing\<close>

definition hex2 :: "u8 \<Rightarrow> string" where
  "hex2 b = hex_digits (unat b div 16) @ hex_digits (unat b mod 16)"

definition HardwareAddr_String :: "HardwareAddr \<Rightarrow> string" where
  "HardwareAddr_String a = Join (map hex2 a) CHR '':''"

definition IPv4_String :: "u8 list \<Rightarrow> string" where
  "IPv4_String bs = Join (map (\<lambda>b. dec (unat b)) bs) CHR ''.''"

definition v6_groups :: "IP \<Rightarrow> nat list" where
  "v6_groups ip = map (\<lambda>i. unat (ip ! (2 * i)) * 256 + unat (ip ! (2 * i + 1))) [0..<8]"

definition zero_run :: "nat list \<Rightarrow> nat \<times> nat" where
  "zero_run gs =
     foldl (\<lambda>(zs, ze) i. let l = length (takeWhile (\<lambda>g. g = 0) (drop i gs))
                        in if 2 \<le> l \<and> ze - zs < l then (i, i + l) else (zs, ze))
           (255, 255) [0..<8]"

fun appendTo6 :: "nat \<Rightarrow> nat list \<Rightarrow> nat \<Rightarrow> nat \<Rightarrow> nat \<Rightarrow> string" where
  "appendTo6 0 gs zs ze i = []"
| "appendTo6 (Suc turns) gs zs ze i =
     (if 8 \<le> i then []
      else if i = zs then
        ''::'' @ (if 8 \<le> ze then [] else hex_digits (gs ! ze) @ appendTo6 turns gs zs ze (Suc ze))
      else (if 0 < i then '':'' else []) @ hex_digits (gs ! i) @ appendTo6 turns gs zs ze (Suc i))"

definition IPv6_String :: "IP \<Rightarrow> string" where
  "IPv6_String ip = (let gs = v6_groups ip; (zs, ze) = zero_run gs in appendTo6 8 gs zs ze 0)"

definition IP_String :: "IP \<Rightarrow> string" where
  "IP_String ip =
     (if ip = [] then ''<nil>''
      else if length ip \<noteq> 4 \<and> length ip \<noteq> 16 then ''?'' @ concat (map hex2 ip)
      else case To4 ip of Some p4 \<Rightarrow> IPv4_String p4 | None \<Rightarrow> IPv6_String ip)"

subsection \<open>What the parsers yield\<close>

lemma parseIPv4Fields_length:
  "parseIPv4Fields val digLen fs s = Some bs \<Longrightarrow> length fs \<le> 3 \<Longrightarrow> length bs = 4"
proof (induction val digLen fs s rule: parseIPv4Fields.induct)
  case (1 val digLen fs)
  then show ?case by (auto split: if_splits)
next
  case (2 val digLen fs c cs)
  from 2(3) show ?case
    using 2(1)[of "val * 10 + dig_val c"] 2(2) 2(4) by (auto simp: Let_def split: if_splits)
qed

lemma parseIPv6Loop_bounds:
  "parseIPv6Loop s ip e = Some (r, bs, e') \<Longrightarrow> length ip \<le> 16 \<Longrightarrow> even (length ip)
     \<Longrightarrow> (\<forall>k. e = Some k \<longrightarrow> k \<le> length ip)
     \<Longrightarrow> length bs \<le> 16 \<and> (\<forall>k. e' = Some k \<longrightarrow> k \<le> length bs)"
proof (induction s ip e rule: parseIPv6Loop.induct)
  case (1 s ip e)
  let ?ds = "takeWhile is_hex s"
  let ?rest = "drop (length ?ds) s"
  let ?acc = "foldl (\<lambda>a c. a * 16 + hex_val c) 0 ?ds"
  let ?ip' = "ip @ [of_nat (?acc div 256), of_nat (?acc mod 256)]"
  show ?case
  proof (cases "16 \<le> length ip")
    case True
    with 1(3-) show ?thesis by (auto simp: parseIPv6Loop.simps [of s ip e])
  next
    case False
    with \<open>even (length ip)\<close> have l14: "length ip \<le> 14" by presburger
    note unf = parseIPv6Loop.simps [of s ip e]
    note ih = 1(1) [OF False refl refl refl] 1(2) [OF False refl refl refl]
    show ?thesis
    proof (cases "?rest \<noteq> [] \<and> hd ?rest = CHR ''.''")
      case True
      with False 1(3,6) show ?thesis
        by (auto simp: unf Let_def split: if_splits option.splits dest!: parseIPv4Fields_length)
    next
      case nodot: False
      show ?thesis
      proof (cases "hd (tl ?rest) = CHR '':''")
        case True
        with False nodot 1(3,5,6) l14 ih(1) show ?thesis
          by (auto simp: unf Let_def split: if_splits)
      next
        case no: False
        have "\<forall>k. e = Some k \<longrightarrow> k \<le> Suc (Suc (length ip))" using 1(6) by auto
        with no False nodot 1(3,5,6) l14 ih(2) show ?thesis
          by (auto simp: unf Let_def split: if_splits)
      qed
    qed
  qed
qed

lemma parseIPv6_length: "parseIPv6 s = Some a \<Longrightarrow> length (As16 a) = 16"
  by (auto simp: parseIPv6_def Let_def split: if_splits option.splits prod.splits
      dest!: parseIPv6Loop_bounds)

lemma ParseAddr_length: "ParseAddr s = Some a \<Longrightarrow> length (As16 a) = 16"
  by (auto simp: ParseAddr_def v4InV6Prefix_def split: option.splits if_splits
      dest: parseIPv4Fields_length parseIPv6_length)

lemma ParseIP_length: "ParseIP s = Some ip \<Longrightarrow> length ip = 16"
  by (auto simp: ParseIP_def split: option.splits if_splits dest: ParseAddr_length)

lemma ParseAddr_Nil [simp]: "ParseAddr [] = None"
  by (simp add: ParseAddr_def)

lemma ParseIP_Nil [simp]: "ParseIP [] = None"
  by (simp add: ParseIP_def)

lemma To4_length: "To4 ip = Some b \<Longrightarrow> length b = 4"
  by (auto simp: To4_def split: if_splits)

lemma To4_v4 [simp]: "length b = 4 \<Longrightarrow> To4 (v4InV6Prefix @ b) = Some b"
  by (simp add: To4_def v4InV6Prefix_def)

lemma To4_inject_16:
  assumes "To4 ip = Some b" "To4 ip' = Some b" "length ip = 16" "length ip' = 16"
  shows "ip = ip'"
proof -
  from assms have "take 12 ip = take 12 ip'" "drop 12 ip = drop 12 ip'"
    by (auto simp: To4_def split: if_splits)
  then show ?thesis by (metis append_take_drop_id)
qed

subsection \<open>Printing an IPv4 address and parsing it again\<close>

lemma digit_char: "k < 10 \<Longrightarrow> is_dig (dig_char k)" "k < 10 \<Longrightarrow> dig_val (dig_char k) = k"
  using of_char_digit [of k] by (simp_all add: is_dig_def dig_val_def)

lemma dec_1: "n < 10 \<Longrightarrow> dec n = [dig_char n]"
  by (simp add: dec.simps)

lemma dec_2: "10 \<le> n \<Longrightarrow> n < 100 \<Longrightarrow> dec n = [dig_char (n div 10), dig_char (n mod 10)]"
  by (subst dec.simps) (simp add: dec_1 less_mult_imp_div_less)

lemma dec_3:
  "100 \<le> n \<Longrightarrow> n < 1000 \<Longrightarrow>
     dec n = [dig_char (n div 100), dig_char (n div 10 mod 10), dig_char (n mod 10)]"
  by (subst dec.simps) (simp add: dec_2 less_mult_imp_div_less div_mult2_eq [symmetric])

lemma parseIPv4Fields_dec:
  assumes "n < 256"
  shows "parseIPv4Fields 0 0 fs (dec n @ rest) = parseIPv4Fields n (length (dec n)) fs rest"
proof -
  consider "n < 10" | "10 \<le> n" "n < 100" | "100 \<le> n" by linarith
  then show ?thesis
  proof cases
    case 1
    then show ?thesis by (simp add: dec_1 digit_char)
  next
    case 2
    then have "n div 10 < 10" "0 < n div 10" "n div 10 * 10 + n mod 10 = n" "\<not> 255 < n div 10" by auto
    with 2 assms show ?thesis by (simp add: dec_2 digit_char Let_def)
  next
    case 3
    have "n div 100 = n div 10 div 10" by (simp add: div_mult2_eq [symmetric])
    then have b: "n div 100 * 10 + n div 10 mod 10 = n div 10" by simp
    from 3 have a: "n div 100 < 10" "0 < n div 100" "n div 10 * 10 + n mod 10 = n"
      "\<not> 255 < n div 10" "\<not> 255 < n div 100" using assms by auto
    from 3 assms have "dec n = [dig_char (n div 100), dig_char (n div 10 mod 10), dig_char (n mod 10)]"
      by (simp add: dec_3)
    with a b assms show ?thesis by (simp add: digit_char Let_def)
  qed
qed

lemma parseIPv4_print: "parseIPv4Fields 0 0 [] (IPv4_String [a, b, c, d]) = Some [a, b, c, d]"
proof -
  have u: "unat (x :: u8) < 256" for x using unsigned_less [of x] by simp
  have [simp]: "\<not> is_dig CHR ''.''" by (simp add: is_dig_def)
  show ?thesis
    by (simp add: IPv4_String_def parseIPv4Fields_dec [OF u] parseIPv4Fields_dec [OF u, where rest = "[]", simplified])
qed

lemma dec_digits: "c \<in> set (dec n) \<Longrightarrow> is_dig c"
proof (induction n rule: dec.induct)
  case (1 n)
  then show ?case by (cases "n < 10") (auto simp: dec.simps [of n] digit_char)
qed

lemma find_append_none: "(\<And>x. x \<in> set xs \<Longrightarrow> \<not> P x) \<Longrightarrow> find P (xs @ ys) = find P ys"
  by (induction xs) auto

lemma find_dot_dec:
  "find (\<lambda>c. c = CHR ''.'' \<or> c = CHR '':'' \<or> c = CHR ''%'') (dec n @ CHR ''.'' # s) = Some CHR ''.''"
  by (subst find_append_none) (auto dest!: dec_digits simp: is_dig_def)

lemma ParseIP_print_v4: "ParseIP (IP_String (v4InV6Prefix @ [a, b, c, d])) = Some (v4InV6Prefix @ [a, b, c, d])"
proof -
  have s: "IP_String (v4InV6Prefix @ [a, b, c, d]) = IPv4_String [a, b, c, d]"
    by (simp add: IP_String_def v4InV6Prefix_def To4_def)
  have "find (\<lambda>c. c = CHR ''.'' \<or> c = CHR '':'' \<or> c = CHR ''%'') (IPv4_String [a, b, c, d]) = Some CHR ''.''"
    by (simp add: IPv4_String_def find_dot_dec)
  then show ?thesis unfolding s by (simp add: ParseIP_def ParseAddr_def parseIPv4_print)
qed

end
