(* ===== verification/Go_Time.thy ===== *)
theory Go_Time
  imports Go_Net
begin

text \<open>
  Numbers of the standard library: the conversion of integers and quotients to \<^verbatim>\<open>float64\<close>, and
  \<^verbatim>\<open>time.ParseDuration\<close>, which reads the durations of the command line.  Unsigned 64-bit arithmetic is
  written out modulo \<open>2 ^ 64\<close> where a sum can exceed the width.
\<close>

subsection \<open>Conversion to float64\<close>

text \<open>\<open>float64\<close>: a number of at most 53 bits is kept; a longer one is rounded to its 53 leading bits, ties to even.\<close>

fun bit_length :: "nat \<Rightarrow> nat" where
  "bit_length n = (if n = 0 then 0 else Suc (bit_length (n div 2)))"

declare bit_length.simps [simp del]

definition round_even :: "nat \<Rightarrow> nat \<Rightarrow> nat" where
  "round_even n d =
     (let q = n div d; r = n mod d
      in if d < 2 * r \<or> (d = 2 * r \<and> odd q) then q + 1 else q)"

definition float64 :: "nat \<Rightarrow> nat" where
  "float64 n = (let e = bit_length n - 53 in round_even n (2 ^ e) * 2 ^ e)"

text \<open>
  The float64 nearest to the positive quotient \<open>n / d\<close>, as a fraction.  The exponent \<open>e\<close> is the one that
  leaves 53 bits before the point; \<open>2 ^ nat e\<close> and \<open>2 ^ nat (- e)\<close> are its two signs.
\<close>

definition float64_quot :: "nat \<Rightarrow> nat \<Rightarrow> nat \<times> nat" where
  "float64_quot n d =
     (let e0 = int (bit_length n) - int (bit_length d) - 53;
          e = (if 2 ^ 53 * d * 2 ^ nat e0 \<le> n * 2 ^ nat (- e0) then e0 + 1 else e0);
          m = round_even (n * 2 ^ nat (- e)) (d * 2 ^ nat e)
      in (m * 2 ^ nat e, 2 ^ nat (- e)))"

text \<open>\<^verbatim>\<open>uint64(float64(f) * (float64(unit) / scale))\<close>\<close>

definition fraction_of_unit :: "nat \<Rightarrow> nat \<Rightarrow> nat \<Rightarrow> nat" where
  "fraction_of_unit f unit scale =
     (let (qn, qd) = float64_quot (float64 unit) scale;
          (pn, pd) = float64_quot (float64 f * qn) qd
      in pn div pd)"

lemma bit_length_0 [simp]: "bit_length 0 = 0"
  by (simp add: bit_length.simps)

lemma bit_length_bounds: "0 < n \<Longrightarrow> 2 ^ (bit_length n - 1) \<le> n \<and> n < 2 ^ bit_length n"
proof (induction n rule: bit_length.induct)
  case (1 n)
  show ?case
  proof (cases "n div 2 = 0")
    case True
    with 1(2) have "n = 1" by auto
    then show ?thesis by (simp add: bit_length.simps)
  next
    case False
    with 1 have ih: "2 ^ (bit_length (n div 2) - 1) \<le> n div 2" "n div 2 < 2 ^ bit_length (n div 2)" by auto
    have "0 < bit_length (n div 2)" using False by (subst bit_length.simps) simp
    then have e: "(2 :: nat) ^ bit_length (n div 2) = 2 * 2 ^ (bit_length (n div 2) - 1)"
      by (cases "bit_length (n div 2)") simp_all
    from 1(2) have "bit_length n = Suc (bit_length (n div 2))" by (subst bit_length.simps) simp
    moreover have "2 * (n div 2) \<le> n" "n < 2 * (n div 2) + 2" by simp_all
    ultimately show ?thesis using ih e by (simp; linarith)
  qed
qed

lemma bit_length_le: "n < 2 ^ k \<Longrightarrow> bit_length n \<le> k"
proof (cases "n = 0")
  case True
  then show ?thesis by simp
next
  case False
  assume "n < 2 ^ k"
  with bit_length_bounds [of n] False have "(2 :: nat) ^ (bit_length n - 1) < 2 ^ k" by linarith
  then have "bit_length n - 1 < k" by simp
  then show ?thesis by simp
qed

lemma round_even_1 [simp]: "round_even n (Suc 0) = n"
  by (simp add: round_even_def)

lemma round_even_error:
  assumes m: "0 < m"
  shows "2 * (round_even n m * m) \<le> 2 * n + m \<and> 2 * n \<le> 2 * (round_even n m * m) + m"
proof -
  define q r where qr: "q = n div m" "r = n mod m"
  have n: "n = q * m + r" "r < m" using qr m by auto
  have "round_even n m = (if m < 2 * r \<or> (m = 2 * r \<and> odd q) then q + 1 else q)"
    by (simp add: round_even_def qr Let_def)
  with n show ?thesis by (auto simp: algebra_simps split: if_splits)
qed

text \<open>The conversion of a counter to float64 is exact below $2^{53}$, and for larger values its relative error is
  at most $2^{-53}$.\<close>

theorem float64_accuracy:
  "(n < 2 ^ 53 \<longrightarrow> float64 n = n)
   \<and> float64 n * 2 ^ 53 \<le> n * 2 ^ 53 + n \<and> n * 2 ^ 53 \<le> float64 n * 2 ^ 53 + n"
proof -
  define e where "e = bit_length n - 53"
  have f: "float64 n = round_even n (2 ^ e) * 2 ^ e" by (simp add: float64_def e_def Let_def)
  have exact: "float64 n = n" if "e = 0" using that f by simp
  moreover have "e = 0" if "n < 2 ^ 53" using bit_length_le [OF that] by (simp add: e_def)
  moreover have "float64 n * 2 ^ 53 \<le> n * 2 ^ 53 + n \<and> n * 2 ^ 53 \<le> float64 n * 2 ^ 53 + n" if e: "0 < e"
  proof -
    have b: "2 * float64 n \<le> 2 * n + 2 ^ e \<and> 2 * n \<le> 2 * float64 n + 2 ^ e"
      unfolding f by (rule round_even_error) simp
    have "0 < n" using e by (intro Nat.gr0I) (auto simp: e_def)
    with bit_length_bounds [of n] have "2 ^ (bit_length n - 1) \<le> n" by simp
    moreover have "bit_length n - 1 = e + 52" using e by (simp add: e_def)
    ultimately have "2 ^ e * 2 ^ 52 \<le> n" by (simp add: power_add)
    with b show ?thesis by simp
  qed
  ultimately show ?thesis by (cases "e = 0") auto
qed

subsection \<open>\<^verbatim>\<open>time.ParseDuration\<close>\<close>

datatype duration_error =
    InvalidDuration string
  | MissingUnit string
  | UnknownUnit string string

text \<open>The units; the micro sign and the Greek letter mu are the byte sequences of U+00B5 and U+03BC.\<close>

definition unitMap :: "string \<rightharpoonup> nat" where
  "unitMap = map_of
     [(''ns'', 1), (''us'', 1000), ([CHR 0xC2, CHR 0xB5, CHR ''s''], 1000), ([CHR 0xCE, CHR 0xBC, CHR ''s''], 1000),
      (''ms'', 1000000), (''s'', 1000000000), (''m'', 60 * 1000000000), (''h'', 3600 * 1000000000)]"

fun leadingInt :: "nat \<Rightarrow> string \<Rightarrow> (nat \<times> string) option" where
  "leadingInt x [] = Some (x, [])"
| "leadingInt x (c # cs) =
     (if \<not> is_dig c then Some (x, c # cs)
      else if 2 ^ 63 div 10 < x then None
      else if 2 ^ 63 < x * 10 + dig_val c then None
      else leadingInt (x * 10 + dig_val c) cs)"

fun leadingFraction :: "nat \<Rightarrow> nat \<Rightarrow> bool \<Rightarrow> string \<Rightarrow> nat \<times> nat \<times> string" where
  "leadingFraction x scale overflow [] = (x, scale, [])"
| "leadingFraction x scale overflow (c # cs) =
     (if \<not> is_dig c then (x, scale, c # cs)
      else if overflow then leadingFraction x scale True cs
      else if (2 ^ 63 - 1) div 10 < x then leadingFraction x scale True cs
      else if 2 ^ 63 < x * 10 + dig_val c then leadingFraction x scale True cs
      else leadingFraction (x * 10 + dig_val c) (scale * 10) False cs)"

text \<open>One turn of the loop: a number with an optional fraction and its unit, in nanoseconds, and the unread rest.\<close>

definition duration_term :: "string \<Rightarrow> string \<Rightarrow> duration_error + nat \<times> string" where
  "duration_term orig s =
     (if \<not> (hd s = CHR ''.'' \<or> is_dig (hd s)) then Inl (InvalidDuration orig)
      else case leadingInt 0 s of
        None \<Rightarrow> Inl (InvalidDuration orig)
      | Some (v, s1) \<Rightarrow>
     (let pre = (length s \<noteq> length s1);
          (f, scale, s2) = (if s1 \<noteq> [] \<and> hd s1 = CHR ''.'' then leadingFraction 0 1 False (tl s1) else (0, 1, s1));
          post = (s1 \<noteq> [] \<and> hd s1 = CHR ''.'' \<and> length (tl s1) \<noteq> length s2)
      in if \<not> pre \<and> \<not> post then Inl (InvalidDuration orig)
         else
           let u = takeWhile (\<lambda>c. \<not> (c = CHR ''.'' \<or> is_dig c)) s2;
               s3 = drop (length u) s2
           in if u = [] then Inl (MissingUnit orig)
              else case unitMap u of
                None \<Rightarrow> Inl (UnknownUnit u orig)
              | Some unit \<Rightarrow>
                  if 2 ^ 63 div unit < v then Inl (InvalidDuration orig)
                  else
                    let v1 = v * unit;
                        v2 = (if 0 < f then (v1 + fraction_of_unit f unit scale) mod 2 ^ 64 else v1)
                    in if 0 < f \<and> 2 ^ 63 < v2 then Inl (InvalidDuration orig) else Inr (v2, s3)))"

lemma leadingInt_rest: "leadingInt x s = Some (v, s') \<Longrightarrow> suffix s' s"
  by (induction x s rule: leadingInt.induct) (auto split: if_splits intro: suffix_ConsI)

lemma leadingFraction_rest: "leadingFraction x sc ov s = (f, sc', s') \<Longrightarrow> suffix s' s"
  by (induction x sc ov s rule: leadingFraction.induct) (auto split: if_splits intro: suffix_ConsI)

text \<open>Every turn reads at least one character, the unit: this is why the loop ends.\<close>

lemma duration_term_shorter:
  assumes "duration_term orig s = Inr (v, s')"
  shows "length s' < length s"
proof -
  from assms obtain v1 s1 f sc s2 where
    s1: "leadingInt 0 s = Some (v1, s1)" and
    s2: "(if s1 \<noteq> [] \<and> hd s1 = CHR ''.'' then leadingFraction 0 1 False (tl s1) else (0, 1, s1)) = (f, sc, s2)" and
    u: "takeWhile (\<lambda>c. \<not> (c = CHR ''.'' \<or> is_dig c)) s2 \<noteq> []"
       "s' = drop (length (takeWhile (\<lambda>c. \<not> (c = CHR ''.'' \<or> is_dig c)) s2)) s2"
    by (auto simp: duration_term_def Let_def split: if_splits option.splits prod.splits)
  have "length s1 \<le> length s" using leadingInt_rest [OF s1] by (rule suffix_length_le)
  moreover have "length s2 \<le> length s1"
    using s2 by (auto split: if_splits dest!: leadingFraction_rest suffix_length_le)
  moreover have "length s' < length s2" using u by (cases s2) auto
  ultimately show ?thesis by simp
qed

function duration_loop :: "string \<Rightarrow> nat \<Rightarrow> string \<Rightarrow> duration_error + nat" where
  "duration_loop orig d s =
     (if s = [] then Inr d
      else case duration_term orig s of
        Inl err \<Rightarrow> Inl err
      | Inr (v, s') \<Rightarrow>
          let d' = (d + v) mod 2 ^ 64
          in if 2 ^ 63 < d' then Inl (InvalidDuration orig) else duration_loop orig d' s')"
  by pat_completeness auto
termination
  by (relation "measure (\<lambda>(orig, d, s). length s)") (auto simp: duration_term_shorter)

declare duration_loop.simps [simp del]

definition ParseDuration :: "string \<Rightarrow> duration_error + duration" where
  "ParseDuration orig =
     (let neg = (orig \<noteq> [] \<and> hd orig = CHR ''-'');
          s = (if orig \<noteq> [] \<and> (hd orig = CHR ''-'' \<or> hd orig = CHR ''+'') then tl orig else orig)
      in if s = ''0'' then Inr 0
         else if s = [] then Inl (InvalidDuration orig)
         else case duration_loop orig 0 s of
           Inl err \<Rightarrow> Inl err
         | Inr d \<Rightarrow>
             if neg then Inr (- int d)
             else if 2 ^ 63 - 1 < d then Inl (InvalidDuration orig)
             else Inr (int d))"

definition int64_ok :: "int \<Rightarrow> bool" where
  "int64_ok d \<longleftrightarrow> - (2 ^ 63) \<le> d \<and> d < 2 ^ 63"

lemma duration_loop_bound: "d \<le> 2 ^ 63 \<Longrightarrow> duration_loop orig d s = Inr r \<Longrightarrow> r \<le> 2 ^ 63"
proof (induction orig d s rule: duration_loop.induct)
  case (1 orig d s)
  then show ?case
    by (subst (asm) (2) duration_loop.simps) (auto simp: Let_def split: if_splits sum.splits prod.splits)
qed

lemma ParseDuration_int64: "ParseDuration s = Inr d \<Longrightarrow> int64_ok d"
  by (auto simp: ParseDuration_def Let_def int64_ok_def split: if_splits sum.splits dest!: duration_loop_bound [rotated])

subsection \<open>Durations written in nanoseconds are read back\<close>

definition show_duration :: "duration \<Rightarrow> string" where
  "show_duration d = (if d < 0 then CHR ''-'' # dec (nat (- d)) else dec (nat d)) @ ''ns''"

lemma leadingInt_digits:
  assumes "list_all is_dig ds" and "foldl (\<lambda>a c. a * 10 + dig_val c) x ds \<le> 2 ^ 63" and "rest = [] \<or> \<not> is_dig (hd rest)"
  shows "leadingInt x (ds @ rest) = Some (foldl (\<lambda>a c. a * 10 + dig_val c) x ds, rest)"
  using assms(1,2)
proof (induction ds arbitrary: x)
  case Nil
  with assms(3) show ?case by (cases rest) auto
next
  case (Cons c ds)
  have grow: "y \<le> foldl (\<lambda>a c. a * 10 + dig_val c) y ds" for y
  proof (induction ds arbitrary: y)
    case Nil
    then show ?case by simp
  next
    case (Cons a ds)
    show ?case using Cons.IH [of "y * 10 + dig_val a"] by simp
  qed
  have "x * 10 + dig_val c \<le> 2 ^ 63" using grow [of "x * 10 + dig_val c"] Cons.prems(2) by simp
  then have "\<not> 2 ^ 63 div 10 < x" "\<not> 2 ^ 63 < x * 10 + dig_val c" by simp_all
  with Cons show ?case by simp
qed

lemma leadingInt_dec: "n \<le> 2 ^ 63 \<Longrightarrow> rest = [] \<or> \<not> is_dig (hd rest) \<Longrightarrow> leadingInt 0 (dec n @ rest) = Some (n, rest)"
  using leadingInt_digits [of "dec n" 0 rest] dec_digits dec_value_dec [of n]
  by (simp add: list_all_iff dec_value_def dig_val_def)

lemma is_dig_hd_dec: "is_dig (hd (dec n))"
  using dec_digits [of "hd (dec n)" n] by simp

lemma duration_loop_ns: "n \<le> 2 ^ 63 \<Longrightarrow> duration_loop orig 0 (dec n @ ''ns'') = Inr n"
proof -
  assume n: "n \<le> 2 ^ 63"
  have "leadingInt 0 (dec n @ ''ns'') = Some (n, ''ns'')"
    using n by (intro leadingInt_dec) (simp_all add: is_dig_def)
  moreover have "hd (dec n @ ''ns'') = hd (dec n)" by simp
  ultimately have "duration_term orig (dec n @ ''ns'') = Inr (n, [])"
    using n is_dig_hd_dec [of n] by (simp add: duration_term_def unitMap_def is_dig_def Let_def)
  with n show ?thesis by (subst duration_loop.simps) (simp add: duration_loop.simps)
qed

lemma dec_ns_not_zero: "dec n @ ''ns'' \<noteq> ''0''"
  by (metis append_eq_Cons_conv dec_not_Nil list.distinct(1) append_is_Nil_conv)

lemma ParseDuration_show: "int64_ok d \<Longrightarrow> ParseDuration (show_duration d) = Inr d"
proof -
  assume d: "int64_ok d"
  show ?thesis
  proof (cases "d < 0")
    case True
    with d have "duration_loop (show_duration d) 0 (dec (nat (- d)) @ ''ns'') = Inr (nat (- d))"
      by (intro duration_loop_ns) (simp add: int64_ok_def)
    with True show ?thesis by (simp add: ParseDuration_def show_duration_def dec_ns_not_zero)
  next
    case False
    with d have "duration_loop (show_duration d) 0 (dec (nat d) @ ''ns'') = Inr (nat d)"
      by (intro duration_loop_ns) (simp add: int64_ok_def)
    moreover have "hd (dec (nat d)) \<noteq> CHR ''-''" "hd (dec (nat d)) \<noteq> CHR ''+''"
      using is_dig_hd_dec [of "nat d"] by (auto simp: is_dig_def)
    ultimately show ?thesis
      using False d by (simp add: ParseDuration_def show_duration_def dec_ns_not_zero int64_ok_def nat_less_iff)
  qed
qed

end
