(* ===== verification/Go_Flag.thy ===== *)
theory Go_Flag
  imports Go_Time
begin

text \<open>
  Package \<^verbatim>\<open>flag\<close> of the standard library with the error handling of the default flag set, \<^verbatim>\<open>ExitOnError\<close>.
  A flag set is a map from names to definitions; the variables that the flags write are a state of any
  type.  The interface \<open>flag_codec\<close> says what it takes for a group of flags to carry the variables without loss.
\<close>

record 'v flag_def =
  IsBoolFlag :: bool
  Set :: "string \<Rightarrow> 'v \<Rightarrow> 'v option"

datatype flag_error =
    BadSyntax string
  | ErrHelp
  | NotDefined string
  | InvalidBool string string
  | NeedsArgument string
  | InvalidValue string string

subsection \<open>Kinds of flags\<close>

definition ParseBool :: "string \<Rightarrow> bool option" where
  "ParseBool s =
     (if s \<in> {''1'', ''t'', ''T'', ''true'', ''TRUE'', ''True''} then Some True
      else if s \<in> {''0'', ''f'', ''F'', ''false'', ''FALSE'', ''False''} then Some False
      else None)"

definition StringVar :: "(string \<Rightarrow> 'v \<Rightarrow> 'v) \<Rightarrow> 'v flag_def" where
  "StringVar put = \<lparr>IsBoolFlag = False, Set = (\<lambda>s v. Some (put s v))\<rparr>"

definition BoolVar :: "(bool \<Rightarrow> 'v \<Rightarrow> 'v) \<Rightarrow> 'v flag_def" where
  "BoolVar put = \<lparr>IsBoolFlag = True, Set = (\<lambda>s v. map_option (\<lambda>b. put b v) (ParseBool s))\<rparr>"

definition DurationVar :: "(duration \<Rightarrow> 'v \<Rightarrow> 'v) \<Rightarrow> 'v flag_def" where
  "DurationVar put =
     \<lparr>IsBoolFlag = False,
      Set = (\<lambda>s v. case ParseDuration s of Inl _ \<Rightarrow> None | Inr d \<Rightarrow> Some (put d v))\<rparr>"

subsection \<open>Parsing\<close>

text \<open>
  \<open>split_flag\<close> reads the dashes and cuts the name at the first \<^verbatim>\<open>=\<close> that is not its first character.
  \<open>parseOne\<close> returns whether a flag was seen, the remaining arguments and the variables.
\<close>

datatype flag_token = NoFlag | Terminator | BadFlag | Flag string "string option"

definition split_flag :: "string \<Rightarrow> flag_token" where
  "split_flag s =
     (if length s < 2 \<or> hd s \<noteq> CHR ''-'' then NoFlag
      else if s = ''--'' then Terminator
      else
        let name = (if s ! 1 = CHR ''-'' then drop 2 s else drop 1 s)
        in if name = [] \<or> hd name = CHR ''-'' \<or> hd name = CHR ''='' then BadFlag
           else
             let k = takeWhile (\<lambda>c. c \<noteq> CHR ''='') name
             in Flag k (if CHR ''='' \<in> set name then Some (drop (Suc (length k)) name) else None))"

definition set_flag ::
  "(string \<rightharpoonup> 'v flag_def) \<Rightarrow> string \<Rightarrow> string option \<Rightarrow> string list \<Rightarrow> 'v \<Rightarrow> flag_error + bool \<times> string list \<times> 'v" where
  "set_flag formal name val args v =
     (case formal name of
        None \<Rightarrow> Inl (if name = ''help'' \<or> name = ''h'' then ErrHelp else NotDefined name)
      | Some fd \<Rightarrow>
          if IsBoolFlag fd then
            (let x = (case val of Some x \<Rightarrow> x | None \<Rightarrow> ''true'')
             in case Set fd x v of
               None \<Rightarrow> Inl (InvalidBool x name)
             | Some v' \<Rightarrow> Inr (True, args, v'))
          else
            (case (case val of Some x \<Rightarrow> Some (x, args)
                   | None \<Rightarrow> (case args of [] \<Rightarrow> None | x # rest \<Rightarrow> Some (x, rest))) of
               None \<Rightarrow> Inl (NeedsArgument name)
             | Some (x, rest) \<Rightarrow>
                 (case Set fd x v of
                    None \<Rightarrow> Inl (InvalidValue x name)
                  | Some v' \<Rightarrow> Inr (True, rest, v'))))"

fun parseOne :: "(string \<rightharpoonup> 'v flag_def) \<Rightarrow> string list \<Rightarrow> 'v \<Rightarrow> flag_error + bool \<times> string list \<times> 'v" where
  "parseOne formal [] v = Inr (False, [], v)"
| "parseOne formal (s # args) v =
     (case split_flag s of
        NoFlag \<Rightarrow> Inr (False, s # args, v)
      | Terminator \<Rightarrow> Inr (False, args, v)
      | BadFlag \<Rightarrow> Inl (BadSyntax s)
      | Flag name val \<Rightarrow> set_flag formal name val args v)"

text \<open>A flag that was seen has used at least one argument: this is why \<open>Parse\<close> ends.\<close>

lemma set_flag_suffix: "set_flag formal name val args v = Inr (b, args', v') \<Longrightarrow> suffix args' args \<and> b"
  by (auto simp: set_flag_def Let_def split: option.splits if_splits list.splits intro: suffix_ConsI)

lemma parseOne_shorter: "parseOne formal args v = Inr (True, args', v') \<Longrightarrow> length args' < length args"
  by (cases args) (auto split: flag_token.splits dest!: set_flag_suffix suffix_length_le)

function FlagSet_Parse :: "(string \<rightharpoonup> 'v flag_def) \<Rightarrow> string list \<Rightarrow> 'v \<Rightarrow> flag_error + string list \<times> 'v" where
  "FlagSet_Parse formal args v =
     (case parseOne formal args v of
        Inl err \<Rightarrow> Inl err
      | Inr (seen, args', v') \<Rightarrow>
          if seen then FlagSet_Parse formal args' v' else Inr (args', v'))"
  by pat_completeness auto
termination
  by (relation "measure (\<lambda>(formal, args, v). length args)") (auto simp: parseOne_shorter)

declare FlagSet_Parse.simps [simp del]

text \<open>With \<^verbatim>\<open>ExitOnError\<close> a request for help ends the process with status 0, an error with status 2.\<close>

definition flag_exit_code :: "flag_error \<Rightarrow> nat" where
  "flag_exit_code err = (if err = ErrHelp then 0 else 2)"

lemma Parse_Nil [simp]: "FlagSet_Parse formal [] v = Inr ([], v)"
  by (simp add: FlagSet_Parse.simps)

lemma Parse_Cons:
  "FlagSet_Parse formal (s # args) v =
     (case split_flag s of
        NoFlag \<Rightarrow> Inr (s # args, v)
      | Terminator \<Rightarrow> Inr (args, v)
      | BadFlag \<Rightarrow> Inl (BadSyntax s)
      | Flag name val \<Rightarrow>
          (case set_flag formal name val args v of
             Inl err \<Rightarrow> Inl err
           | Inr (_, args', v') \<Rightarrow> FlagSet_Parse formal args' v'))"
  by (subst FlagSet_Parse.simps) (auto split: flag_token.splits sum.splits prod.splits dest: set_flag_suffix)

subsection \<open>Flag sets on disjoint variables\<close>

text \<open>One flag set may collect the flags of several packages, each writing variables of its own.\<close>

definition own_flag :: "'v flag_def \<Rightarrow> ('v \<times> 'p) flag_def" where
  "own_flag fd = \<lparr>IsBoolFlag = IsBoolFlag fd, Set = (\<lambda>x (v, p). map_option (\<lambda>v'. (v', p)) (Set fd x v))\<rparr>"

definition other_flag :: "'p flag_def \<Rightarrow> ('v \<times> 'p) flag_def" where
  "other_flag fd = \<lparr>IsBoolFlag = IsBoolFlag fd, Set = (\<lambda>x (v, p). map_option (\<lambda>p'. (v, p')) (Set fd x p))\<rparr>"

lemma set_flag_own:
  assumes "set_flag formal name val args v = Inr (b, rest, v')"
    and own: "\<And>n fd. formal n = Some fd \<Longrightarrow> formal' n = Some (own_flag fd)"
  shows "set_flag formal' name val args (v, p) = Inr (b, rest, v', p)"
proof -
  obtain fd where fd: "formal name = Some fd"
    using assms(1) by (cases "formal name") (auto simp: set_flag_def)
  from assms(1) show ?thesis
    by (cases "IsBoolFlag fd")
       (auto simp: set_flag_def fd own [OF fd] own_flag_def Let_def split: option.splits list.splits)
qed

lemma Parse_own:
  assumes "FlagSet_Parse formal args v = Inr (rest, v')"
    and own: "\<And>n fd. formal n = Some fd \<Longrightarrow> formal' n = Some (own_flag fd)"
  shows "FlagSet_Parse formal' args (v, p) = Inr (rest, v', p)"
  using assms(1)
proof (induction args arbitrary: v rule: length_induct)
  case (1 args)
  show ?case
  proof (cases args)
    case Nil
    with 1(2) show ?thesis by simp
  next
    case (Cons s as)
    show ?thesis
    proof (cases "split_flag s")
      case (Flag name val)
      with 1(2) Cons obtain b rest1 v1 where
        o: "set_flag formal name val as v = Inr (b, rest1, v1)" "FlagSet_Parse formal rest1 v1 = Inr (rest, v')"
        by (auto simp: Parse_Cons split: sum.splits)
      have "length rest1 < length args" using set_flag_suffix [OF o(1)] Cons by (auto dest: suffix_length_le)
      with 1(1) o(2) have "FlagSet_Parse formal' rest1 (v1, p) = Inr (rest, v', p)" by blast
      with Cons Flag set_flag_own [where formal' = formal' and p = p, OF o(1) own] show ?thesis
        by (simp add: Parse_Cons)
    qed (use 1(2) Cons in \<open>auto simp: Parse_Cons\<close>)
  qed
qed

subsection \<open>The spellings of a flag\<close>

definition flag_name_ok :: "string \<Rightarrow> bool" where
  "flag_name_ok n \<longleftrightarrow> n \<noteq> [] \<and> hd n \<noteq> CHR ''-'' \<and> CHR ''='' \<notin> set n"

lemma takeWhile_name: "CHR ''='' \<notin> set n \<Longrightarrow> takeWhile (\<lambda>c. c \<noteq> CHR ''='') n = n"
  by (simp add: takeWhile_eq_all_conv) metis

lemma split_flag_name:
  assumes "flag_name_ok n"
  shows "split_flag (CHR ''-'' # n) = Flag n None" "split_flag (CHR ''-'' # CHR ''-'' # n) = Flag n None"
    "split_flag (CHR ''-'' # n @ CHR ''='' # x) = Flag n (Some x)"
    "split_flag (CHR ''-'' # CHR ''-'' # n @ CHR ''='' # x) = Flag n (Some x)"
proof -
  obtain c cs where n: "n = c # cs" "c \<noteq> CHR ''-''" "c \<noteq> CHR ''=''" "CHR ''='' \<notin> set cs"
    using assms by (cases n) (auto simp: flag_name_ok_def)
  then have "takeWhile (\<lambda>c. c \<noteq> CHR ''='') cs = cs" by (simp add: takeWhile_name)
  moreover have "takeWhile (\<lambda>c. c \<noteq> CHR ''='') (cs @ CHR ''='' # x) = cs"
    using n(4) by (subst takeWhile_append2) auto
  ultimately show "split_flag (CHR ''-'' # n) = Flag n None" "split_flag (CHR ''-'' # CHR ''-'' # n) = Flag n None"
    "split_flag (CHR ''-'' # n @ CHR ''='' # x) = Flag n (Some x)"
    "split_flag (CHR ''-'' # CHR ''-'' # n @ CHR ''='' # x) = Flag n (Some x)"
    using n by (auto simp: split_flag_def)
qed

definition spellings :: "string \<Rightarrow> string \<Rightarrow> string list list" where
  "spellings n x =
     [[''-'' @ n @ ''='' @ x], [''--'' @ n @ ''='' @ x], [''-'' @ n, x], [''--'' @ n, x]]"

lemma Parse_spelling:
  assumes "flag_name_ok n" and "formal n = Some fd" and "\<not> IsBoolFlag fd" and "a \<in> set (spellings n x)"
  shows "FlagSet_Parse formal (a @ args) v =
     (case Set fd x v of None \<Rightarrow> Inl (InvalidValue x n) | Some v' \<Rightarrow> FlagSet_Parse formal args v')"
  using assms by (auto simp: spellings_def Parse_Cons split_flag_name set_flag_def split: option.splits)

lemma Parse_equals:
  assumes "flag_name_ok n" and "formal n = Some fd" and "Set fd x v = Some v'"
  shows "FlagSet_Parse formal ((''--'' @ n @ ''='' @ x) # args) v = FlagSet_Parse formal args v'"
  using assms by (simp add: Parse_Cons split_flag_name set_flag_def)

subsection \<open>Flags that carry their variables without loss\<close>

definition show_flag :: "(string \<Rightarrow> 'v \<Rightarrow> string) \<Rightarrow> 'v \<Rightarrow> string \<Rightarrow> string" where
  "show_flag show_value v n = ''--'' @ n @ ''='' @ show_value n v"

locale flag_codec =
  fixes formal :: "string \<rightharpoonup> 'v flag_def"
    and names :: "string list"
    and show_value :: "string \<Rightarrow> 'v \<Rightarrow> string"
    and agree :: "string \<Rightarrow> 'v \<Rightarrow> 'v \<Rightarrow> bool"
    and fits :: "'v \<Rightarrow> bool"
  assumes name_ok: "n \<in> set names \<Longrightarrow> flag_name_ok n"
    and defined: "n \<in> set names \<Longrightarrow> \<exists>fd. formal n = Some fd"
    and set_shown: "n \<in> set names \<Longrightarrow> formal n = Some fd \<Longrightarrow> fits v \<Longrightarrow>
      \<exists>w'. Set fd (show_value n v) w = Some w' \<and> agree n v w'
        \<and> (\<forall>m \<in> set names. agree m v w \<longrightarrow> agree m v w')"
    and agree_all: "\<forall>n \<in> set names. agree n v w \<Longrightarrow> v = w"
begin

lemma Parse_shown:
  assumes "fits v" and "set ns \<subseteq> set names"
  shows "\<exists>w'. FlagSet_Parse formal (map (show_flag show_value v) ns @ rest) w = FlagSet_Parse formal rest w'
           \<and> (\<forall>m \<in> set names. m \<in> set ns \<or> agree m v w \<longrightarrow> agree m v w')"
  using assms(2)
proof (induction ns arbitrary: w)
  case Nil
  then show ?case by auto
next
  case (Cons n ns)
  then have n: "n \<in> set names" "set ns \<subseteq> set names" by simp_all
  obtain fd where fd: "formal n = Some fd" using defined [OF n(1)] by blast
  from set_shown [OF n(1) fd assms(1), of w] obtain w1 where
    w1: "Set fd (show_value n v) w = Some w1" "agree n v w1" "\<forall>m \<in> set names. agree m v w \<longrightarrow> agree m v w1"
    by blast
  from Cons.IH [OF n(2), of w1] obtain w' where
    w': "FlagSet_Parse formal (map (show_flag show_value v) ns @ rest) w1 = FlagSet_Parse formal rest w'"
      "\<forall>m \<in> set names. m \<in> set ns \<or> agree m v w1 \<longrightarrow> agree m v w'" by blast
  have "FlagSet_Parse formal (map (show_flag show_value v) (n # ns) @ rest) w = FlagSet_Parse formal rest w'"
    using Parse_equals [of n formal fd "show_value n v" w w1] name_ok [OF n(1)] fd w1(1) w'(1) by (simp add: show_flag_def)
  moreover have "\<forall>m \<in> set names. m \<in> set (n # ns) \<or> agree m v w \<longrightarrow> agree m v w'"
    using w1(2,3) w'(2) by auto
  ultimately show ?case by blast
qed

text \<open>All flags written out, in any order and whatever the variables were before, give the variables back.\<close>

lemma Parse_round_trip:
  assumes "fits v" and "set ns = set names" and "rest = [] \<or> split_flag (hd rest) = NoFlag"
  shows "FlagSet_Parse formal (map (show_flag show_value v) ns @ rest) w = Inr (rest, v)"
proof -
  obtain w' where w': "FlagSet_Parse formal (map (show_flag show_value v) ns @ rest) w = FlagSet_Parse formal rest w'"
    "\<forall>m \<in> set names. agree m v w'"
    using Parse_shown [of v ns rest w] assms(1,2) by auto
  have "FlagSet_Parse formal rest w' = Inr (rest, w')"
    using assms(3) by (cases rest) (auto simp: Parse_Cons)
  with w' agree_all [of v w'] show ?thesis by simp
qed

end

end
