(* ===== verification/Gateway_Flags.thy ===== *)
theory Gateway_Flags
  imports Go_Flag
begin

text \<open>
  \<^verbatim>\<open>cmd/gateway/main.go\<close>: the command line.  \<open>Flags\<close> are the variables that the flags write, \<open>flag_defaults\<close> their values
  before parsing, some of them from the environment, and \<open>gateway_flags\<close> the flags themselves.  Packages that the
  program imports may have registered flags of their own (controller-runtime registers \<^verbatim>\<open>kubeconfig\<close>): these are
  the parameter \<open>others\<close>, a flag set on a state of its own.
\<close>

subsection \<open>Variables and defaults\<close>

record Flags =
  metricsAddr :: string
  probeAddr :: string
  fl_nodeIP :: string
  fl_vpcCIDR :: string
  fl_podCIDRs :: string
  debug :: bool
  leaderElectionID :: string
  fl_routeTableIDs :: string
  awsRegion :: string
  awsInstanceID :: string
  leaseDuration :: duration
  renewDeadline :: duration
  retryPeriod :: duration

definition getEnvOrDefault :: "(string \<Rightarrow> string) \<Rightarrow> string \<Rightarrow> string \<Rightarrow> string" where
  "getEnvOrDefault getenv key defaultValue =
     (let value = getenv key in if value \<noteq> [] then value else defaultValue)"

definition parseCIDRs :: "string \<Rightarrow> string list" where
  "parseCIDRs s = foldl keep_trimmed [] (Split s CHR '','')"

definition flag_defaults :: "(string \<Rightarrow> string) \<Rightarrow> Flags" where
  "flag_defaults getenv =
     \<lparr>metricsAddr = '':10080'', probeAddr = '':8088'', fl_nodeIP = getenv ''NODE_IP'',
      fl_vpcCIDR = getenv ''VPC_CIDR'', fl_podCIDRs = getenv ''POD_CIDRS'', debug = (getenv ''DEBUG'' = ''true''),
      leaderElectionID = getEnvOrDefault getenv ''LEADER_ELECTION_ID'' ''hybrid-gateway-leader'',
      fl_routeTableIDs = getenv ''ROUTE_TABLE_IDS'', awsRegion = getenv ''AWS_REGION'',
      awsInstanceID = getenv ''AWS_INSTANCE_ID'', leaseDuration = 3 * 1000000000,
      renewDeadline = 2 * 1000000000, retryPeriod = 1 * 1000000000\<rparr>"

subsection \<open>Lists in flags\<close>

interpretation cidr_list: csv_list parseCIDRs
  unfolding parseCIDRs_def by (rule split_trim_csv)

lemma parseCIDRs_not_empty: "[] \<notin> set (parseCIDRs str)"
  using cidr_list.parse_entry [of "[]" str] by (auto simp: entry_ok_def)

subsection \<open>The flags\<close>

definition gateway_flags :: "(string \<times> Flags flag_def) list" where
  "gateway_flags =
     [(''metrics-bind-address'', StringVar (\<lambda>x fl. fl\<lparr>metricsAddr := x\<rparr>)),
      (''health-probe-bind-address'', StringVar (\<lambda>x fl. fl\<lparr>probeAddr := x\<rparr>)),
      (''node-ip'', StringVar (\<lambda>x fl. fl\<lparr>fl_nodeIP := x\<rparr>)),
      (''vpc-cidr'', StringVar (\<lambda>x fl. fl\<lparr>fl_vpcCIDR := x\<rparr>)),
      (''pod-cidrs'', StringVar (\<lambda>x fl. fl\<lparr>fl_podCIDRs := x\<rparr>)),
      (''debug'', BoolVar (\<lambda>x fl. fl\<lparr>debug := x\<rparr>)),
      (''leader-election-id'', StringVar (\<lambda>x fl. fl\<lparr>leaderElectionID := x\<rparr>)),
      (''route-table-ids'', StringVar (\<lambda>x fl. fl\<lparr>fl_routeTableIDs := x\<rparr>)),
      (''aws-region'', StringVar (\<lambda>x fl. fl\<lparr>awsRegion := x\<rparr>)),
      (''aws-instance-id'', StringVar (\<lambda>x fl. fl\<lparr>awsInstanceID := x\<rparr>)),
      (''leader-election-lease-duration'', DurationVar (\<lambda>x fl. fl\<lparr>leaseDuration := x\<rparr>)),
      (''leader-election-renew-deadline'', DurationVar (\<lambda>x fl. fl\<lparr>renewDeadline := x\<rparr>)),
      (''leader-election-retry-period'', DurationVar (\<lambda>x fl. fl\<lparr>retryPeriod := x\<rparr>))]"

definition flag_names :: "string list" where
  "flag_names = map fst gateway_flags"

text \<open>Defining a flag whose name is taken panics.\<close>

definition command_line_flags :: "(string \<rightharpoonup> 'p flag_def) \<Rightarrow> string \<rightharpoonup> (Flags \<times> 'p) flag_def" where
  "command_line_flags others n =
     (case map_of gateway_flags n of
        Some fd \<Rightarrow> Some (own_flag fd)
      | None \<Rightarrow> map_option other_flag (others n))"

datatype flag_abort = FlagRedefined string | FlagError flag_error

definition parse_command_line ::
  "(string \<Rightarrow> string) \<Rightarrow> (string \<rightharpoonup> 'p flag_def) \<Rightarrow> string list \<Rightarrow> 'p \<Rightarrow> flag_abort + string list \<times> Flags \<times> 'p" where
  "parse_command_line getenv others args p =
     (case find (\<lambda>n. others n \<noteq> None) flag_names of
        Some n \<Rightarrow> Inl (FlagRedefined n)
      | None \<Rightarrow>
          (case FlagSet_Parse (command_line_flags others) args (flag_defaults getenv, p) of
             Inl err \<Rightarrow> Inl (FlagError err)
           | Inr r \<Rightarrow> Inr r))"

subsection \<open>Parsing with the flags of other packages\<close>

lemma Parse_own_flags:
  "FlagSet_Parse (map_of gateway_flags) args fl = Inr (rest, fl')
   \<Longrightarrow> FlagSet_Parse (command_line_flags others) args (fl, p) = Inr (rest, fl', p)"
  by (rule Parse_own, assumption) (simp only: command_line_flags_def option.case)

subsection \<open>Values written out are read back\<close>

datatype flag_value = StringValue string | BoolValue bool | DurationValue duration

fun show_flag_value :: "flag_value \<Rightarrow> string" where
  "show_flag_value (StringValue x) = x"
| "show_flag_value (BoolValue b) = (if b then ''true'' else ''false'')"
| "show_flag_value (DurationValue d) = show_duration d"

definition flag_values :: "Flags \<Rightarrow> flag_value list" where
  "flag_values fl =
     [StringValue (metricsAddr fl), StringValue (probeAddr fl), StringValue (fl_nodeIP fl), StringValue (fl_vpcCIDR fl),
      StringValue (fl_podCIDRs fl), BoolValue (debug fl), StringValue (leaderElectionID fl),
      StringValue (fl_routeTableIDs fl), StringValue (awsRegion fl), StringValue (awsInstanceID fl),
      DurationValue (leaseDuration fl), DurationValue (renewDeadline fl), DurationValue (retryPeriod fl)]"

definition flag_text :: "string \<Rightarrow> Flags \<Rightarrow> string" where
  "flag_text n fl = show_flag_value (the (map_of (zip flag_names (flag_values fl)) n))"

definition flags_fit :: "Flags \<Rightarrow> bool" where
  "flags_fit fl \<longleftrightarrow> int64_ok (leaseDuration fl) \<and> int64_ok (renewDeadline fl) \<and> int64_ok (retryPeriod fl)"

lemma flag_names_eq:
  "flag_names =
     [''metrics-bind-address'', ''health-probe-bind-address'', ''node-ip'', ''vpc-cidr'', ''pod-cidrs'', ''debug'',
      ''leader-election-id'', ''route-table-ids'', ''aws-region'', ''aws-instance-id'', ''leader-election-lease-duration'',
      ''leader-election-renew-deadline'', ''leader-election-retry-period'']"
  by (simp only: flag_names_def gateway_flags_def list.map fst_conv)

lemma flag_names_length [simp]: "length flag_names = 13" "length gateway_flags = 13" "length (flag_values fl) = 13"
  by (simp_all add: flag_names_eq gateway_flags_def flag_values_def)

lemma flag_names_all_ok: "list_all flag_name_ok flag_names"
  unfolding flag_names_eq by code_simp

lemma flag_names_distinct: "distinct flag_names"
  unfolding flag_names_eq by code_simp

lemma gateway_flag_nth: "i < 13 \<Longrightarrow> map_of gateway_flags (flag_names ! i) = Some (snd (gateway_flags ! i))"
  using flag_names_distinct by (simp add: flag_names_def nth_mem)

lemma flag_text_nth: "i < 13 \<Longrightarrow> flag_text (flag_names ! i) fl = show_flag_value (flag_values fl ! i)"
  using flag_names_distinct by (simp add: flag_text_def map_of_zip_nth)

lemma flag_values_inject: "flag_values v = flag_values w \<longleftrightarrow> v = w"
  by (auto simp: flag_values_def)

lemma less_13_cases: "(i :: nat) < 13 \<longleftrightarrow> i \<in> {0, 1, 2, 3, 4, 5, 6, 7, 8, 9, 10, 11, 12}"
  unfolding insert_iff empty_iff by presburger

text \<open>Each flag writes its own variable only.\<close>

lemma flag_set_shown:
  assumes "i < 13" and "flags_fit v"
  shows "\<exists>w'. Set (snd (gateway_flags ! i)) (show_flag_value (flag_values v ! i)) w = Some w'
           \<and> flag_values w' = (flag_values w)[i := flag_values v ! i]"
  using assms
  by (auto simp: less_13_cases gateway_flags_def flag_values_def flags_fit_def StringVar_def BoolVar_def DurationVar_def
      ParseDuration_show ParseBool_def simp del: map_option_eq_Some)

definition flag_agree :: "string \<Rightarrow> Flags \<Rightarrow> Flags \<Rightarrow> bool" where
  "flag_agree n v w \<longleftrightarrow> (\<forall>i < 13. flag_names ! i = n \<longrightarrow> flag_values v ! i = flag_values w ! i)"

interpretation gateway_codec: flag_codec "map_of gateway_flags" flag_names flag_text flag_agree flags_fit
proof
  fix n fd v w
  show "n \<in> set flag_names \<Longrightarrow> flag_name_ok n" using flag_names_all_ok by (simp add: list_all_iff)
  show "n \<in> set flag_names \<Longrightarrow> \<exists>fd. map_of gateway_flags n = Some fd"
    by (auto simp: in_set_conv_nth gateway_flag_nth)
  show "\<exists>w'. Set fd (flag_text n v) w = Some w' \<and> flag_agree n v w'
        \<and> (\<forall>m \<in> set flag_names. flag_agree m v w \<longrightarrow> flag_agree m v w')"
    if "n \<in> set flag_names" "map_of gateway_flags n = Some fd" "flags_fit v"
  proof -
    from that(1) obtain i where i: "i < 13" "n = flag_names ! i" by (auto simp: in_set_conv_nth)
    with that(2) have fd: "fd = snd (gateway_flags ! i)" by (simp add: gateway_flag_nth)
    from flag_set_shown [OF i(1) that(3), of w] obtain w' where
      w': "Set fd (flag_text n v) w = Some w'" "flag_values w' = (flag_values w)[i := flag_values v ! i]"
      by (auto simp: fd i flag_text_nth)
    have "flag_agree n v w'"
      using i w'(2) flag_names_distinct by (auto simp: flag_agree_def nth_eq_iff_index_eq)
    moreover have "flag_agree m v w'" if "flag_agree m v w" for m
      using that i(1) w'(2) by (auto simp: flag_agree_def nth_list_update)
    ultimately show ?thesis using w'(1) by blast
  qed
  show "\<forall>n \<in> set flag_names. flag_agree n v w \<Longrightarrow> v = w"
    by (subst flag_values_inject [symmetric]) (rule nth_equalityI, auto simp: flag_agree_def)
qed

text \<open>C20: The command line carries the gateway's configuration without loss: when each of its thirteen flags is given
  once as \<^verbatim>\<open>--name=value\<close>, in any order, the program runs with exactly these values, durations of the
  full 64-bit range included, whatever the environment holds.\<close>

theorem flags_round_trip:
  assumes "flags_fit fl" and "set ns = set flag_names" and "\<forall>n \<in> set flag_names. others n = None"
  shows "parse_command_line getenv others (map (show_flag flag_text fl) ns) p = Inr ([], fl, p)"
proof -
  have "find (\<lambda>n. others n \<noteq> None) flag_names = None" using assms(3) by (simp add: find_None_iff)
  moreover have "FlagSet_Parse (map_of gateway_flags) (map (show_flag flag_text fl) ns) w = Inr ([], fl)" for w
    using gateway_codec.Parse_round_trip [OF assms(1,2), of "[]" w] by simp
  ultimately show ?thesis
    by (simp add: parse_command_line_def Parse_own_flags)
qed

subsection \<open>Assignments on the command line\<close>

text \<open>
  What the documentation promises, written without the flags of the code: for each option, in the order of the variables, the value
  that it has when it is not given.  An option is read as a value of the kind of its default, and its value is
  the last one given.
\<close>

definition documented :: "(string \<Rightarrow> string) \<Rightarrow> (string \<times> flag_value) list" where
  "documented getenv =
     [(''metrics-bind-address'', StringValue '':10080''),
      (''health-probe-bind-address'', StringValue '':8088''),
      (''node-ip'', StringValue (getenv ''NODE_IP'')),
      (''vpc-cidr'', StringValue (getenv ''VPC_CIDR'')),
      (''pod-cidrs'', StringValue (getenv ''POD_CIDRS'')),
      (''debug'', BoolValue (getenv ''DEBUG'' = ''true'')),
      (''leader-election-id'',
        StringValue (if getenv ''LEADER_ELECTION_ID'' = [] then ''hybrid-gateway-leader'' else getenv ''LEADER_ELECTION_ID'')),
      (''route-table-ids'', StringValue (getenv ''ROUTE_TABLE_IDS'')),
      (''aws-region'', StringValue (getenv ''AWS_REGION'')),
      (''aws-instance-id'', StringValue (getenv ''AWS_INSTANCE_ID'')),
      (''leader-election-lease-duration'', DurationValue 3000000000),
      (''leader-election-renew-deadline'', DurationValue 2000000000),
      (''leader-election-retry-period'', DurationValue 1000000000)]"

fun read_as :: "flag_value \<Rightarrow> string \<Rightarrow> flag_value option" where
  "read_as (StringValue _) x = Some (StringValue x)"
| "read_as (BoolValue _) x = map_option BoolValue (ParseBool x)"
| "read_as (DurationValue _) x = (case ParseDuration x of Inl _ \<Rightarrow> None | Inr d \<Rightarrow> Some (DurationValue d))"

definition configured :: "(string \<times> string) list \<Rightarrow> string \<times> flag_value \<Rightarrow> flag_value option" where
  "configured asg = (\<lambda>(n, v). case map_of (rev asg) n of None \<Rightarrow> Some v | Some x \<Rightarrow> read_as v x)"

definition refused :: "(string \<times> flag_value) list \<Rightarrow> string \<times> string \<Rightarrow> bool" where
  "refused tbl = (\<lambda>(n, x). case map_of tbl n of None \<Rightarrow> True | Some v \<Rightarrow> read_as v x = None)"

text \<open>The ways to give an option: \<^verbatim>\<open>debug\<close> stands for \<^verbatim>\<open>debug=true\<close>, and its value is never an argument of its own.\<close>

definition option_spellings :: "string \<Rightarrow> string \<Rightarrow> string list list" where
  "option_spellings n x =
     (if n = ''debug''
      then (if x = ''true'' then [[''-debug''], [''--debug'']] else []) @ [[''-debug='' @ x], [''--debug='' @ x]]
      else spellings n x)"

lemma read_as_kind: "read_as v x = Some u \<Longrightarrow> read_as u = read_as v"
  by (cases v) (auto split: sum.splits)

lemma configured_Nil [simp]: "configured [] = (\<lambda>(n, v). Some v)"
  by (simp add: configured_def fun_eq_iff)

lemma configured_Cons:
  "read_as v x = Some u \<Longrightarrow> configured ((n, x) # asg) (n, v) = configured asg (n, u)"
  "m \<noteq> n \<Longrightarrow> configured ((n, x) # asg) (m, v) = configured asg (m, v)"
  by (auto simp: configured_def map_add_def read_as_kind split: option.splits)

lemma flag_set_reads:
  assumes "i < 13"
  shows "case read_as (flag_values w ! i) x of
           None \<Rightarrow> Set (snd (gateway_flags ! i)) x w = None
         | Some u \<Rightarrow> \<exists>w'. Set (snd (gateway_flags ! i)) x w = Some w' \<and> flag_values w' = (flag_values w)[i := u]"
  using assms
  by (auto simp: less_13_cases gateway_flags_def flag_values_def StringVar_def BoolVar_def DurationVar_def
      split: option.splits sum.splits)

lemma debug_flag: "map_of gateway_flags ''debug'' = Some (BoolVar (\<lambda>x fl. fl\<lparr>debug := x\<rparr>))"
  using gateway_flag_nth [of 5] by (simp add: flag_names_eq gateway_flags_def)

lemma debug_only_bool:
  assumes "i < 13"
  shows "IsBoolFlag (snd (gateway_flags ! i)) \<longleftrightarrow> flag_names ! i = ''debug''"
  using assms by (auto simp: less_13_cases gateway_flags_def flag_names_eq StringVar_def DurationVar_def BoolVar_def)

definition refusal :: "string \<times> string \<Rightarrow> flag_error" where
  "refusal = (\<lambda>(n, x). if n = ''debug'' then InvalidBool x n else InvalidValue x n)"

lemma Parse_option:
  assumes "i < 13" and "n = flag_names ! i" and "a \<in> set (option_spellings n x)"
  shows "FlagSet_Parse (command_line_flags others) (a @ args) (w, p) =
     (case Set (snd (gateway_flags ! i)) x w of
        None \<Rightarrow> Inl (refusal (n, x))
      | Some w' \<Rightarrow> FlagSet_Parse (command_line_flags others) args (w', p))"
proof -
  let ?fd = "snd (gateway_flags ! i)"
  have own: "command_line_flags others n = Some (own_flag ?fd)"
    using gateway_flag_nth [OF assms(1)] assms(2) by (simp only: command_line_flags_def option.case)
  have ok: "flag_name_ok n" using assms(1,2) flag_names_all_ok by (simp add: list_all_iff)
  show ?thesis
  proof (cases "n = ''debug''")
    case True
    then have b: "IsBoolFlag ?fd" using debug_only_bool [OF assms(1)] assms(2) by simp
    have "split_flag ''-debug'' = Flag n None" "split_flag ''--debug'' = Flag n None"
      "split_flag (''-debug='' @ x) = Flag n (Some x)" "split_flag (''--debug='' @ x) = Flag n (Some x)"
      using split_flag_name [OF ok] True by simp_all
    with True assms(3) own b show ?thesis
      by (auto simp: option_spellings_def Parse_Cons set_flag_def own_flag_def refusal_def split: option.splits if_splits)
  next
    case False
    then have b: "\<not> IsBoolFlag ?fd" using debug_only_bool [OF assms(1)] assms(2) by simp
    with False assms(3) Parse_spelling [of n "command_line_flags others" "own_flag ?fd" a x args "(w, p)"] ok own show ?thesis
      by (auto simp: option_spellings_def own_flag_def refusal_def split: option.splits)
  qed
qed

lemma Parse_configures:
  assumes "list_all2 (\<lambda>(n, x) a. a \<in> set (option_spellings n x)) asg as"
    and "fst ` set asg \<subseteq> set flag_names"
  shows "case find (refused (zip flag_names (flag_values w))) asg of
           Some y \<Rightarrow> FlagSet_Parse (command_line_flags others) (concat as) (w, p) = Inl (refusal y)
         | None \<Rightarrow> \<exists>w'. FlagSet_Parse (command_line_flags others) (concat as) (w, p) = Inr ([], w', p)
             \<and> map Some (flag_values w') = map (configured asg) (zip flag_names (flag_values w))"
  using assms
proof (induction asg as arbitrary: w rule: list_all2_induct)
  case Nil
  have "map Some (flag_values w) = map (configured []) (zip flag_names (flag_values w))"
    by (rule nth_equalityI) simp_all
  then show ?case by simp
next
  case (Cons y asg a as)
  obtain n x where y: "y = (n, x)" by fastforce
  with Cons.prems obtain i where i: "i < 13" "n = flag_names ! i" by (auto simp: in_set_conv_nth)
  let ?v = "flag_values w ! i"
  have v: "map_of (zip flag_names (flag_values w)) n = Some ?v" using i flag_names_distinct by (simp add: map_of_zip_nth)
  have step: "FlagSet_Parse (command_line_flags others) (concat (a # as)) (w, p) =
      (case Set (snd (gateway_flags ! i)) x w of
         None \<Rightarrow> Inl (refusal (n, x)) | Some w' \<Rightarrow> FlagSet_Parse (command_line_flags others) (concat as) (w', p))"
    using Parse_option [OF i, of a x others "concat as" w p] Cons.hyps(1) y by simp
  show ?case
  proof (cases "read_as ?v x")
    case None
    with flag_set_reads [OF i(1), of x w] step show ?thesis by (simp add: refused_def v y)
  next
    case (Some u)
    then obtain w1 where w1: "Set (snd (gateway_flags ! i)) x w = Some w1" "flag_values w1 = (flag_values w)[i := u]"
      using flag_set_reads [OF i(1), of x w] by auto
    have "map_of (zip flag_names (flag_values w1)) m =
        (if m = n then Some u else map_of (zip flag_names (flag_values w)) m)" for m
    proof (cases "m \<in> set flag_names")
      case True
      then obtain j where "j < 13" "m = flag_names ! j" by (auto simp: in_set_conv_nth)
      with i w1(2) flag_names_distinct show ?thesis by (simp add: map_of_zip_nth nth_eq_iff_index_eq nth_list_update)
    next
      case False
      then have "map_of (zip flag_names vs) m = None" for vs :: "flag_value list"
        by (auto simp: map_of_eq_None_iff dest: set_zip_leftD)
      with False i show ?thesis by auto
    qed
    then have same: "refused (zip flag_names (flag_values w1)) = refused (zip flag_names (flag_values w))"
      using v read_as_kind [OF Some] by (auto simp: refused_def fun_eq_iff)
    have "map (configured asg) (zip flag_names (flag_values w1)) = map (configured (y # asg)) (zip flag_names (flag_values w))"
      using i w1(2) Some flag_names_distinct
      by (intro nth_equalityI) (auto simp: y configured_Cons nth_list_update nth_eq_iff_index_eq)
    moreover have "\<not> refused (zip flag_names (flag_values w)) y" using Some by (simp add: refused_def v y)
    ultimately show ?thesis
      using Cons.IH [of w1] Cons.prems step w1(1) by (simp add: same split: option.splits)
  qed
qed

lemma documented_defaults: "documented getenv = zip flag_names (flag_values (flag_defaults getenv))"
  by (simp add: documented_def flag_names_eq flag_values_def flag_defaults_def getEnvOrDefault_def)

text \<open>C22: The options do what the documentation says.  Let the arguments give values to options, each in any of its
  spellings, \<^verbatim>\<open>-n=v\<close>, \<^verbatim>\<open>--n=v\<close>, \<^verbatim>\<open>-n v\<close> or \<^verbatim>\<open>--n v\<close>, and for the option \<^verbatim>\<open>debug\<close> \<^verbatim>\<open>-debug=v\<close> or \<^verbatim>\<open>--debug=v\<close>, or just \<^verbatim>\<open>-debug\<close> or
  \<^verbatim>\<open>--debug\<close> when the value is \<^verbatim>\<open>true\<close>.  If every value can be read as one of the kind of its option, every
  variable of the program has the last value given to its option, and if none is given, the documented default: that of its own environment variable
  or its fixed value.  Otherwise the program ends with an error that names the first value that cannot be read and its option, even if a later
  one would override it.  Packages must not have flags of the same names.\<close>

theorem flags_precedence:
  assumes "list_all2 (\<lambda>(n, x) a. a \<in> set (option_spellings n x)) asg as"
    and "fst ` set asg \<subseteq> fst ` set (documented getenv)" and "\<forall>n \<in> set flag_names. others n = None"
  shows "case find (refused (documented getenv)) asg of
           Some (n, x) \<Rightarrow> parse_command_line getenv others (concat as) p
             = Inl (FlagError (if n = ''debug'' then InvalidBool x n else InvalidValue x n))
         | None \<Rightarrow> \<exists>fl. parse_command_line getenv others (concat as) p = Inr ([], fl, p)
             \<and> map Some (flag_values fl) = map (configured asg) (documented getenv)"
proof -
  have "find (\<lambda>n. others n \<noteq> None) flag_names = None" using assms(3) by (simp add: find_None_iff)
  moreover have "fst ` set (documented getenv) = set flag_names"
    by (simp add: documented_defaults flip: set_map)
  ultimately show ?thesis
    using Parse_configures [OF assms(1), where w = "flag_defaults getenv" and others = others and p = p] assms(2)
    by (auto simp: parse_command_line_def refusal_def documented_defaults split: option.splits)
qed

text \<open>
  The flag \<^verbatim>\<open>debug\<close> takes no separate argument: in \<^verbatim>\<open>--debug false\<close> the second word ends the flags, so debugging is
  switched on and everything that follows is ignored.
\<close>

lemma debug_false_ends_flags:
  assumes "\<forall>n \<in> set flag_names. others n = None"
  shows "parse_command_line getenv others (''--debug'' # ''false'' # args) p
       = Inr (''false'' # args, (flag_defaults getenv)\<lparr>debug := True\<rparr>, p)"
proof -
  have "find (\<lambda>n. others n \<noteq> None) flag_names = None" using assms by (simp add: find_None_iff)
  moreover have "command_line_flags others ''debug'' = Some (own_flag (BoolVar (\<lambda>x fl. fl\<lparr>debug := x\<rparr>)))"
    using debug_flag by (simp only: command_line_flags_def option.case)
  ultimately show ?thesis
    by (simp add: parse_command_line_def Parse_Cons split_flag_def set_flag_def own_flag_def BoolVar_def ParseBool_def)
qed

subsection \<open>Witnesses\<close>

definition no_flags :: "string \<rightharpoonup> unit flag_def" where
  "no_flags n = None"

lemma default_flags_fit: "flags_fit (flag_defaults getenv)"
  by (simp add: flags_fit_def flag_defaults_def int64_ok_def)

theorem flags_round_trip_witness:
  "parse_command_line (\<lambda>_. ''x'') no_flags (map (show_flag flag_text (flag_defaults (\<lambda>_. ''=,y''))) (rev flag_names)) ()
     = Inr ([], flag_defaults (\<lambda>_. ''=,y''), ())"
  by (rule flags_round_trip) (simp_all add: default_flags_fit no_flags_def)

text \<open>An address given twice, a switch, a duration, and for everything else the environment.\<close>

theorem flags_precedence_witness:
  "\<exists>fl. parse_command_line (\<lambda>v. ''env '' @ v) no_flags
      [''-node-ip'', ''10.0.0.1'', ''--debug'', ''--leader-election-retry-period=5ns'', ''--node-ip=10.0.0.2''] () = Inr ([], fl, ())
     \<and> flag_values fl =
        [StringValue '':10080'', StringValue '':8088'', StringValue ''10.0.0.2'', StringValue ''env VPC_CIDR'', StringValue ''env POD_CIDRS'',
         BoolValue True, StringValue ''env LEADER_ELECTION_ID'', StringValue ''env ROUTE_TABLE_IDS'', StringValue ''env AWS_REGION'',
         StringValue ''env AWS_INSTANCE_ID'', DurationValue 3000000000, DurationValue 2000000000, DurationValue 5]"
  (is "\<exists>fl. _ fl \<and> _ fl = ?vs")
proof -
  let ?env = "\<lambda>v. ''env '' @ v"
  let ?asg = "[(''node-ip'', ''10.0.0.1''), (''debug'', ''true''), (''leader-election-retry-period'', ''5ns''), (''node-ip'', ''10.0.0.2'')]"
  let ?as = "[[''-node-ip'', ''10.0.0.1''], [''--debug''], [''--leader-election-retry-period=5ns''], [''--node-ip=10.0.0.2'']]"
  have d: "ParseDuration ''5ns'' = Inr 5"
    using ParseDuration_show [of 5] by (simp add: show_duration_def dec.simps dig_char_def int64_ok_def)
  have b: "ParseBool ''true'' = Some True" by (simp add: ParseBool_def)
  have "list_all2 (\<lambda>(n, x) a. a \<in> set (option_spellings n x)) ?asg ?as"
    by (simp add: option_spellings_def spellings_def)
  moreover have "fst ` set ?asg \<subseteq> fst ` set (documented ?env)" by (simp add: documented_def)
  moreover have "\<forall>n \<in> set flag_names. no_flags n = None" by (simp add: no_flags_def)
  moreover have "find (refused (documented ?env)) ?asg = None" by (simp add: refused_def documented_def d b)
  ultimately have "\<exists>fl. parse_command_line ?env no_flags (concat ?as) () = Inr ([], fl, ())
      \<and> map Some (flag_values fl) = map (configured ?asg) (documented ?env)"
    using flags_precedence [of ?asg ?as ?env no_flags "()"] by (simp only: option.case)
  moreover have "map (configured ?asg) (documented ?env) = map Some ?vs"
    by (simp add: documented_def configured_def d b)
  ultimately show ?thesis by (simp only: concat.simps append.simps inj_map_eq_map inj_Some)
qed

end
