(* ===== verification/Route_Tables.thy ===== *)
theory Route_Tables
  imports Gateway_Prelude Go_Strings
begin

text \<open>
  \<^verbatim>\<open>internal/aws/routetable.go\<close>: the VPC route tables.  The leader points every hybrid pod CIDR of
  every configured table to its own primary network interface.  The EC2 API is a service outside
  the repository: its calls are the fields of the record \<open>ec2\<close>, and \<open>ec2_laws\<close> states its documented
  behaviour over a view of the service as route lists by table.  EC2 stores a destination in
  canonical form, which is the parameter \<open>canon\<close>.  Optional fields of the API's structures are pointers,
  here options; \<open>ToInt32\<close> and \<open>ToString\<close> read the zero value from a nil pointer, as the SDK documents.
\<close>

type_synonym aws_error = string

record ec2_route =
  DestinationCidrBlock :: "string option"
  NetworkInterfaceId :: "string option"
  InstanceId :: "string option"

record RouteTable =
  Routes :: "ec2_route list"

record InstanceNetworkInterface =
  Attachment :: "int option option" \<comment> \<open>the attachment, if any, and its device index, if any\<close>
  ni_NetworkInterfaceId :: "string option"

record ec2_instance =
  NetworkInterfaces :: "InstanceNetworkInterface list"

record RouteInput =
  ri_RouteTableId :: string
  ri_DestinationCidrBlock :: string
  ri_NetworkInterfaceId :: string

record 'w ec2 =
  DescribeInstances :: "string list \<Rightarrow> 'w \<Rightarrow> (aws_error + ec2_instance list list) \<times> 'w"
  DescribeRouteTables :: "string list \<Rightarrow> 'w \<Rightarrow> (aws_error + RouteTable list) \<times> 'w"
  CreateRoute :: "RouteInput \<Rightarrow> 'w \<Rightarrow> aws_error option \<times> 'w"
  ReplaceRoute :: "RouteInput \<Rightarrow> 'w \<Rightarrow> aws_error option \<times> 'w"

record 'w RouteTableManager =
  ec2Client :: "'w ec2"
  routeTableIDs :: "string list"
  instanceID :: string
  primaryENI :: string
  region :: string

datatype rt_error =
    NoRouteTableIDs
  | InstanceIDRequired
  | LoadConfigError aws_error
  | PrimaryENIError string rt_error
  | DescribeInstanceError aws_error
  | InstanceNotFound string
  | NoPrimaryInterface string
  | DescribeTableError aws_error
  | TableNotFound string
  | CreateRouteError aws_error
  | ReplaceRouteError aws_error
  | UpdateRouteError string string rt_error
  | TableAccessError string aws_error

subsection \<open>Constructing a manager\<close>

definition ToInt32 :: "int option \<Rightarrow> int" where
  "ToInt32 p = (case p of None \<Rightarrow> 0 | Some v \<Rightarrow> v)"

definition ToString :: "string option \<Rightarrow> string" where
  "ToString p = (case p of None \<Rightarrow> [] | Some v \<Rightarrow> v)"

fun first_primary :: "InstanceNetworkInterface list \<Rightarrow> string option" where
  "first_primary [] = None"
| "first_primary (eni # enis) =
     (case Attachment eni of
        Some idx \<Rightarrow> if ToInt32 idx = 0 then Some (ToString (ni_NetworkInterfaceId eni)) else first_primary enis
      | None \<Rightarrow> first_primary enis)"

definition getPrimaryENI :: "'w ec2 \<Rightarrow> string \<Rightarrow> 'w \<Rightarrow> (rt_error + string) \<times> 'w" where
  "getPrimaryENI client inst w =
     (case DescribeInstances client [inst] w of
        (Inl err, w1) \<Rightarrow> (Inl (DescribeInstanceError err), w1)
      | (Inr reservations, w1) \<Rightarrow>
          (case reservations of
             [] \<Rightarrow> (Inl (InstanceNotFound inst), w1)
           | instances # _ \<Rightarrow>
               (case instances of
                  [] \<Rightarrow> (Inl (InstanceNotFound inst), w1)
                | i # _ \<Rightarrow>
                    (case first_primary (NetworkInterfaces i) of
                       Some eni \<Rightarrow> (Inr eni, w1)
                     | None \<Rightarrow> (Inl (NoPrimaryInterface inst), w1)))))"

text \<open>
  \<open>newClient\<close> stands for loading the SDK configuration for a region and building an EC2 client
  from it.
\<close>

definition NewRouteTableManager ::
  "(string \<Rightarrow> 'w \<Rightarrow> (aws_error + 'w ec2) \<times> 'w) \<Rightarrow> string list \<Rightarrow> string \<Rightarrow> string \<Rightarrow> 'w \<Rightarrow>
     (rt_error + 'w RouteTableManager) \<times> 'w" where
  "NewRouteTableManager newClient ids inst reg w =
     (if length ids = 0 then (Inl NoRouteTableIDs, w)
      else if inst = [] then (Inl InstanceIDRequired, w)
      else case newClient reg w of
        (Inl err, w1) \<Rightarrow> (Inl (LoadConfigError err), w1)
      | (Inr client, w1) \<Rightarrow>
          (case getPrimaryENI client inst w1 of
             (Inl err, w2) \<Rightarrow> (Inl (PrimaryENIError inst err), w2)
           | (Inr eni, w2) \<Rightarrow>
               (Inr \<lparr>ec2Client = client, routeTableIDs = ids, instanceID = inst, primaryENI = eni, region = reg\<rparr>, w2)))"

subsection \<open>Routes\<close>

definition find_route :: "ec2_route list \<Rightarrow> string \<Rightarrow> ec2_route option" where
  "find_route rs cidr = find (\<lambda>r. DestinationCidrBlock r = Some cidr) rs"

definition getRoute :: "'w RouteTableManager \<Rightarrow> string \<Rightarrow> string \<Rightarrow> 'w \<Rightarrow> (rt_error + ec2_route option) \<times> 'w" where
  "getRoute m routeTableID cidr w =
     (case DescribeRouteTables (ec2Client m) [routeTableID] w of
        (Inl err, w1) \<Rightarrow> (Inl (DescribeTableError err), w1)
      | (Inr tables, w1) \<Rightarrow>
          (case tables of
             [] \<Rightarrow> (Inl (TableNotFound routeTableID), w1)
           | t # _ \<Rightarrow> (Inr (find_route (Routes t) cidr), w1)))"

definition route_input :: "'w RouteTableManager \<Rightarrow> string \<Rightarrow> string \<Rightarrow> RouteInput" where
  "route_input m routeTableID cidr =
     \<lparr>ri_RouteTableId = routeTableID, ri_DestinationCidrBlock = cidr, ri_NetworkInterfaceId = primaryENI m\<rparr>"

definition createRoute :: "'w RouteTableManager \<Rightarrow> string \<Rightarrow> string \<Rightarrow> 'w \<Rightarrow> rt_error option \<times> 'w" where
  "createRoute m routeTableID cidr w =
     (case CreateRoute (ec2Client m) (route_input m routeTableID cidr) w of
        (Some err, w1) \<Rightarrow> (Some (CreateRouteError err), w1)
      | (None, w1) \<Rightarrow> (None, w1))"

definition replaceRoute :: "'w RouteTableManager \<Rightarrow> string \<Rightarrow> string \<Rightarrow> 'w \<Rightarrow> rt_error option \<times> 'w" where
  "replaceRoute m routeTableID cidr w =
     (case ReplaceRoute (ec2Client m) (route_input m routeTableID cidr) w of
        (Some err, w1) \<Rightarrow> (Some (ReplaceRouteError err), w1)
      | (None, w1) \<Rightarrow> (None, w1))"

definition updateRoute :: "'w RouteTableManager \<Rightarrow> string \<Rightarrow> string \<Rightarrow> 'w \<Rightarrow> rt_error option \<times> 'w" where
  "updateRoute m routeTableID cidr w =
     (case getRoute m routeTableID cidr w of
        (Inl err, w1) \<Rightarrow> (Some err, w1)
      | (Inr (Some existing), w1) \<Rightarrow>
          if NetworkInterfaceId existing = Some (primaryENI m) then (None, w1)
          else replaceRoute m routeTableID cidr w1
      | (Inr None, w1) \<Rightarrow> createRoute m routeTableID cidr w1)"

definition update_body :: "'w RouteTableManager \<Rightarrow> string \<Rightarrow> string \<Rightarrow> 'w \<Rightarrow> rt_error option \<times> 'w" where
  "update_body m routeTableID cidr w =
     (case updateRoute m routeTableID cidr w of
        (Some err, w1) \<Rightarrow> (Some (UpdateRouteError cidr routeTableID err), w1)
      | (None, w1) \<Rightarrow> (None, w1))"

definition UpdateRoutes :: "'w RouteTableManager \<Rightarrow> string list \<Rightarrow> 'w \<Rightarrow> rt_error option \<times> 'w" where
  "UpdateRoutes m podCIDRs w =
     for_each (\<lambda>routeTableID. for_each (update_body m routeTableID) podCIDRs) (routeTableIDs m) w"

definition verify_body :: "'w RouteTableManager \<Rightarrow> string \<Rightarrow> 'w \<Rightarrow> rt_error option \<times> 'w" where
  "verify_body m routeTableID w =
     (case DescribeRouteTables (ec2Client m) [routeTableID] w of
        (Inl err, w1) \<Rightarrow> (Some (TableAccessError routeTableID err), w1)
      | (Inr tables, w1) \<Rightarrow>
          if length tables = 0 then (Some (TableNotFound routeTableID), w1) else (None, w1))"

definition VerifyRouteTableAccess :: "'w RouteTableManager \<Rightarrow> 'w \<Rightarrow> rt_error option \<times> 'w" where
  "VerifyRouteTableAccess m w = for_each (verify_body m) (routeTableIDs m) w"

subsection \<open>Route table lists\<close>

definition ParseRouteTableIDs :: "string \<Rightarrow> string list" where
  "ParseRouteTableIDs s = (if s = [] then [] else foldl keep_trimmed [] (Split s CHR '',''))"

lemma ParseRouteTableIDs_eq: "ParseRouteTableIDs = (\<lambda>s. foldl keep_trimmed [] (Split s CHR '',''))"
  by (auto simp: ParseRouteTableIDs_def keep_trimmed_def fun_eq_iff)

interpretation route_table_ids: csv_list ParseRouteTableIDs
  unfolding ParseRouteTableIDs_eq by (rule split_trim_csv)

text \<open>Every route table identifier that ParseRouteTableIDs yields is non-empty, trimmed and free of
  commas, and writing the result out with commas and parsing it again gives the same list.\<close>

theorem ParseRouteTableIDs_normal:
  "list_all entry_ok (ParseRouteTableIDs s)
   \<and> ParseRouteTableIDs (Join (ParseRouteTableIDs s) CHR '','') = ParseRouteTableIDs s"
  by (simp add: list_all_iff route_table_ids.parse_entry route_table_ids.parse_normal)

subsection \<open>What EC2 promises\<close>

text \<open>A read changes no table.\<close>

definition reads_frame :: "'w ec2 \<Rightarrow> ('w \<Rightarrow> string \<rightharpoonup> ec2_route list) \<Rightarrow> bool" where
  "reads_frame c tv \<longleftrightarrow> (\<forall>ids w r w'. DescribeRouteTables c ids w = (r, w') \<longrightarrow> tv w' = tv w)"

text \<open>
  EC2 is eventually consistent, so a read need not show the latest write.  That the reads of a run are up to
  date is therefore no law of the service but a hypothesis of its own, of the theorems that need it.
\<close>

definition fresh_reads :: "'w ec2 \<Rightarrow> ('w \<Rightarrow> string \<rightharpoonup> ec2_route list) \<Rightarrow> bool" where
  "fresh_reads c tv \<longleftrightarrow>
     (\<forall>i w ts w'. DescribeRouteTables c [i] w = (Inr ts, w') \<longrightarrow>
        ts = (case tv w i of None \<Rightarrow> [] | Some rs \<Rightarrow> [\<lparr>Routes = rs\<rparr>]))"

text \<open>
  A successful write sets the one route of the destination, in canonical form, and nothing else.  A call that
  fails may have been applied all the same, when the answer was lost (\<^verbatim>\<open>apiTimeout\<close>).
\<close>

definition routes_set :: "(string \<rightharpoonup> ec2_route list) \<Rightarrow> (string \<rightharpoonup> ec2_route list) \<Rightarrow> string \<Rightarrow> string \<Rightarrow> string \<Rightarrow> bool" where
  "routes_set t t' i c eni \<longleftrightarrow>
     (\<exists>rs rs' r. t i = Some rs \<and> t' = t(i \<mapsto> rs') \<and> find_route rs' c = Some r \<and> NetworkInterfaceId r = Some eni
        \<and> (\<forall>c'. c' \<noteq> c \<longrightarrow> find_route rs' c' = find_route rs c'))"

definition write_laws :: "'w ec2 \<Rightarrow> ('w \<Rightarrow> string \<rightharpoonup> ec2_route list) \<Rightarrow> (string \<Rightarrow> string) \<Rightarrow> bool" where
  "write_laws c tv canon \<longleftrightarrow>
     (\<forall>i w r w'. CreateRoute c i w = (r, w') \<or> ReplaceRoute c i w = (r, w') \<longrightarrow>
        routes_set (tv w) (tv w') (ri_RouteTableId i) (canon (ri_DestinationCidrBlock i)) (ri_NetworkInterfaceId i)
        \<or> r \<noteq> None \<and> tv w' = tv w)"

text \<open>A route that exists cannot be created again (RouteAlreadyExists): the request is refused and changes nothing.\<close>

definition create_rejects :: "'w ec2 \<Rightarrow> ('w \<Rightarrow> string \<rightharpoonup> ec2_route list) \<Rightarrow> (string \<Rightarrow> string) \<Rightarrow> bool" where
  "create_rejects c tv canon \<longleftrightarrow>
     (\<forall>i w rs. tv w (ri_RouteTableId i) = Some rs \<longrightarrow> find_route rs (canon (ri_DestinationCidrBlock i)) \<noteq> None
        \<longrightarrow> (\<exists>e w'. CreateRoute c i w = (Some e, w') \<and> tv w' = tv w))"

definition ec2_laws :: "'w ec2 \<Rightarrow> ('w \<Rightarrow> string \<rightharpoonup> ec2_route list) \<Rightarrow> (string \<Rightarrow> string) \<Rightarrow> bool" where
  "ec2_laws c tv canon \<longleftrightarrow> reads_frame c tv \<and> write_laws c tv canon"

definition route_of :: "(string \<rightharpoonup> ec2_route list) \<Rightarrow> string \<Rightarrow> string \<Rightarrow> ec2_route option" where
  "route_of t i c = (case t i of None \<Rightarrow> None | Some rs \<Rightarrow> find_route rs c)"

definition points_to :: "(string \<rightharpoonup> ec2_route list) \<Rightarrow> string \<Rightarrow> string \<Rightarrow> string \<Rightarrow> bool" where
  "points_to t i c eni \<longleftrightarrow> (\<exists>r. route_of t i c = Some r \<and> NetworkInterfaceId r = Some eni)"

lemma routes_set_points: "routes_set t t' i c eni \<Longrightarrow> points_to t' i c eni"
  by (auto simp: routes_set_def points_to_def route_of_def)

lemma routes_set_frame:
  "routes_set t t' i c eni \<Longrightarrow> i' \<noteq> i \<or> c' \<noteq> c \<Longrightarrow> route_of t' i' c' = route_of t i' c'"
  by (cases "i' = i") (auto simp: routes_set_def route_of_def)

subsection \<open>One route\<close>

lemma describe_frame:
  "reads_frame c tv \<Longrightarrow> DescribeRouteTables c ids w = (r, w1) \<Longrightarrow> tv w1 = tv w"
  by (auto simp: reads_frame_def)

lemma describe_tables:
  assumes "fresh_reads c tv" and "DescribeRouteTables c [i] w = (Inr ts, w1)"
  shows "ts = (case tv w i of None \<Rightarrow> [] | Some rs \<Rightarrow> [\<lparr>Routes = rs\<rparr>])"
  using assms by (simp add: fresh_reads_def)

lemma getRoute_frame:
  assumes laws: "reads_frame (ec2Client m) tv" and g: "getRoute m i c w = (g, w1)"
  shows "tv w1 = tv w"
proof -
  obtain d where d: "DescribeRouteTables (ec2Client m) [i] w = (d, w1)"
    using g by (auto simp: getRoute_def split: prod.splits sum.splits list.splits)
  with laws show ?thesis by (rule describe_frame)
qed

lemma getRoute_finds:
  assumes fresh: "fresh_reads (ec2Client m) tv" and g: "getRoute m i c w = (Inr x, w1)"
  shows "route_of (tv w) i c = x \<and> i \<in> dom (tv w)"
proof -
  obtain ts where d: "DescribeRouteTables (ec2Client m) [i] w = (Inr ts, w1)"
    using g by (auto simp: getRoute_def split: prod.splits sum.splits list.splits)
  with fresh have "ts = (case tv w i of None \<Rightarrow> [] | Some rs \<Rightarrow> [\<lparr>Routes = rs\<rparr>])" by (rule describe_tables)
  with g d show ?thesis by (cases "tv w i") (auto simp: getRoute_def route_of_def)
qed

lemma updateRoute_cases:
  assumes "updateRoute m i c w = (r, w')"
  obtains (failed) e where "getRoute m i c w = (Inl e, w')" and "r = Some e"
    | (correct) x where "getRoute m i c w = (Inr (Some x), w')" and "r = None"
        and "NetworkInterfaceId x = Some (primaryENI m)"
    | (replace) x w1 where "getRoute m i c w = (Inr (Some x), w1)" and "replaceRoute m i c w1 = (r, w')"
        and "NetworkInterfaceId x \<noteq> Some (primaryENI m)"
    | (create) w1 where "getRoute m i c w = (Inr None, w1)" and "createRoute m i c w1 = (r, w')"
proof -
  obtain g w1 where g: "getRoute m i c w = (g, w1)" by fastforce
  show thesis
  proof (cases g)
    case (Inl e)
    with assms g failed show thesis by (simp add: updateRoute_def)
  next
    case (Inr x)
    with assms g that show thesis
      by (cases x) (simp_all add: updateRoute_def split: if_splits)
  qed
qed

lemma route_input_sel [simp]:
  "ri_RouteTableId (route_input m i c) = i" "ri_DestinationCidrBlock (route_input m i c) = c"
  "ri_NetworkInterfaceId (route_input m i c) = primaryENI m"
  by (simp_all add: route_input_def)

lemma write_effect:
  assumes laws: "write_laws (ec2Client m) tv canon"
    and "replaceRoute m i c w = (r, w') \<or> createRoute m i c w = (r, w')"
  shows "routes_set (tv w) (tv w') i (canon c) (primaryENI m) \<or> r \<noteq> None \<and> tv w' = tv w"
proof -
  obtain r0 where r0: "ReplaceRoute (ec2Client m) (route_input m i c) w = (r0, w')
      \<or> CreateRoute (ec2Client m) (route_input m i c) w = (r0, w')" and r: "r = None \<longleftrightarrow> r0 = None"
    using assms(2) by (auto simp: replaceRoute_def createRoute_def split: prod.splits option.splits)
  from laws [unfolded write_laws_def, rule_format, of "route_input m i c" w r0 w'] r0 r show ?thesis by auto
qed

text \<open>One route update changes nothing or sets its own route; success means, if its read was up to date, that the route is right.\<close>

lemma updateRoute_effect:
  assumes laws: "ec2_laws (ec2Client m) tv canon" and u: "updateRoute m i c w = (r, w')"
  shows "tv w' = tv w \<or> routes_set (tv w) (tv w') i (canon c) (primaryENI m)"
proof -
  have d: "reads_frame (ec2Client m) tv" and wr: "write_laws (ec2Client m) tv canon"
    using laws by (simp_all add: ec2_laws_def)
  from u show ?thesis
  proof (cases rule: updateRoute_cases)
    case (replace x w1)
    with getRoute_frame [OF d replace(1)] write_effect [OF wr, of i c w1 r w'] show ?thesis by auto
  next
    case (create w1)
    with getRoute_frame [OF d create(1)] write_effect [OF wr, of i c w1 r w'] show ?thesis by auto
  qed (auto dest: getRoute_frame [OF d])
qed

lemma updateRoute_success:
  assumes laws: "ec2_laws (ec2Client m) tv canon" and fresh: "fresh_reads (ec2Client m) tv"
    and u: "updateRoute m i c w = (None, w')" and c: "canon c = c"
  shows "points_to (tv w') i c (primaryENI m)"
proof -
  have d: "reads_frame (ec2Client m) tv" and wr: "write_laws (ec2Client m) tv canon"
    using laws by (simp_all add: ec2_laws_def)
  from u show ?thesis
  proof (cases rule: updateRoute_cases)
    case (correct x)
    with getRoute_frame [OF d correct(1)] getRoute_finds [OF fresh correct(1)] show ?thesis by (auto simp: points_to_def)
  next
    case (replace x w1)
    with write_effect [OF wr, of i c w1 None w'] routes_set_points c show ?thesis by auto
  next
    case (create w1)
    with write_effect [OF wr, of i c w1 None w'] routes_set_points c show ?thesis by auto
  qed simp
qed

lemma update_body_cases:
  assumes "update_body m i c w = (r, w')"
  obtains r0 where "updateRoute m i c w = (r0, w')" and "r = None \<longleftrightarrow> r0 = None"
  using assms by (auto simp: update_body_def split: prod.splits option.splits)

lemma update_body_effect:
  assumes laws: "ec2_laws (ec2Client m) tv canon" and u: "update_body m i c w = (r, w')"
  shows "tv w' = tv w \<or> routes_set (tv w) (tv w') i (canon c) (primaryENI m)"
  using u by (rule update_body_cases) (rule updateRoute_effect [OF laws])

subsection \<open>All routes\<close>

definition route_goal ::
  "'w RouteTableManager \<Rightarrow> ('w \<Rightarrow> string \<rightharpoonup> ec2_route list) \<Rightarrow> (string \<Rightarrow> string) \<Rightarrow> string \<times> string \<Rightarrow> 'w \<Rightarrow> bool" where
  "route_goal m tv canon p w \<longleftrightarrow>
     canon (snd p) = snd p \<longrightarrow> points_to (tv w) (fst p) (snd p) (primaryENI m)"

interpretation routes: range_loop "\<lambda>(i, c). update_body m i c"
    "\<lambda>_. ec2_laws (ec2Client m) tv canon \<and> fresh_reads (ec2Client m) tv" "route_goal m tv canon"
  for m :: "'w RouteTableManager" and tv canon
proof
  fix x y :: "string \<times> string" and s s' :: 'w
  assume assm: "ec2_laws (ec2Client m) tv canon \<and> fresh_reads (ec2Client m) tv"
  then show "ec2_laws (ec2Client m) tv canon \<and> fresh_reads (ec2Client m) tv" .
  from assm have laws: "ec2_laws (ec2Client m) tv canon" and fresh: "fresh_reads (ec2Client m) tv" by auto
  show "(case x of (i, c) \<Rightarrow> update_body m i c) s = (None, s') \<Longrightarrow> route_goal m tv canon x s'"
    using updateRoute_success [OF laws fresh] by (cases x) (auto simp: route_goal_def elim!: update_body_cases)
  assume y: "route_goal m tv canon y s"
  obtain i c where x: "x = (i, c)" by (cases x)
  obtain r w' where u: "update_body m i c s = (r, w')" by fastforce
  have "points_to (tv w') (fst y) (snd y) (primaryENI m)"
    if "points_to (tv s) (fst y) (snd y) (primaryENI m)"
    using update_body_effect [OF laws u] that
      routes_set_points [of "tv s" "tv w'" i "canon c" "primaryENI m"]
      routes_set_frame [of "tv s" "tv w'" i "canon c" "primaryENI m" "fst y" "snd y"]
    by (cases "fst y = i \<and> snd y = canon c") (auto simp: points_to_def)
  with y show "route_goal m tv canon y (snd ((case x of (i, c) \<Rightarrow> update_body m i c) s))"
    by (auto simp: x u route_goal_def)
qed

lemma UpdateRoutes_pairs:
  "UpdateRoutes m cidrs w = for_each (\<lambda>(i, c). update_body m i c) (List.product (routeTableIDs m) cidrs) w"
  by (simp add: UpdateRoutes_def for_each_nested)

text \<open>When UpdateRoutes succeeds, every configured route table routes every hybrid pod CIDR (in
  canonical form) to this gateway's primary network interface.\<close>

theorem UpdateRoutes_points_all:
  assumes laws: "ec2_laws (ec2Client m) tv canon" and fresh: "fresh_reads (ec2Client m) tv"
    and ok: "UpdateRoutes m cidrs w = (None, w')"
    and mem: "i \<in> set (routeTableIDs m)" "c \<in> set cidrs" "canon c = c"
  shows "points_to (tv w') i c (primaryENI m)"
  using routes.loop_reached [OF conjI [OF laws fresh] ok[unfolded UpdateRoutes_pairs], of "(i, c)"] mem
  by (simp add: route_goal_def)

lemma UpdateRoutes_other:
  assumes laws: "ec2_laws (ec2Client m) tv canon"
    and other: "i \<notin> set (routeTableIDs m) \<or> c \<notin> canon ` set cidrs"
  shows "route_of (tv (snd (UpdateRoutes m cidrs w))) i c = route_of (tv w) i c"
  unfolding UpdateRoutes_pairs
proof (rule for_each_preserves, rule refl)
  fix x s
  assume "x \<in> set (List.product (routeTableIDs m) cidrs)" and s: "route_of (tv s) i c = route_of (tv w) i c"
  then obtain j d where x: "x = (j, d)" and "j \<in> set (routeTableIDs m)" "d \<in> set cidrs" by auto
  with other have ne: "i \<noteq> j \<or> c \<noteq> canon d" by auto
  obtain r s' where u: "update_body m j d s = (r, s')" by fastforce
  from update_body_effect [OF laws u] routes_set_frame [OF _ ne] s
  show "route_of (tv (snd ((\<lambda>(i, c). update_body m i c) x s))) i c = route_of (tv w) i c"
    by (auto simp: x u)
qed

text \<open>C16: UpdateRoutes touches only the routes of the configured tables to the given pod CIDRs: every other
  route of every table is the same afterwards, also when it stops with an error half way.\<close>

theorem UpdateRoutes_frame:
  assumes laws: "ec2_laws (ec2Client m) tv canon"
    and other: "i \<notin> set (routeTableIDs m) \<or> c \<notin> canon ` set cidrs"
  shows "route_of (tv (snd (UpdateRoutes m cidrs w))) i c = route_of (tv w) i c"
  using assms by (rule UpdateRoutes_other)

text \<open>C23: When UpdateRoutes fails, its error names the table and the CIDR at which it stopped, and, if its reads were up
  to date, every pair before that one in its order already points to this gateway.\<close>

theorem UpdateRoutes_error_prefix:
  assumes laws: "ec2_laws (ec2Client m) tv canon" and fresh: "fresh_reads (ec2Client m) tv"
    and err: "UpdateRoutes m cidrs w = (Some e, w')"
  shows "\<exists>done i c rest e'. List.product (routeTableIDs m) cidrs = done @ (i, c) # rest
           \<and> e = UpdateRouteError c i e'
           \<and> (\<forall>(j, d) \<in> set done. canon d = d \<longrightarrow> points_to (tv w') j d (primaryENI m))"
proof -
  from routes.loop_error_prefix [OF conjI [OF laws fresh] err [unfolded UpdateRoutes_pairs]] obtain ys x zs w1
    where *: "List.product (routeTableIDs m) cidrs = ys @ x # zs"
      "(case x of (i, c) \<Rightarrow> update_body m i c) w1 = (Some e, w')"
      "\<forall>y \<in> set ys. route_goal m tv canon y w'" by blast
  obtain i c where x: "x = (i, c)" by (cases x)
  from *(2) obtain e' where "e = UpdateRouteError c i e'"
    by (auto simp: x update_body_def split: prod.splits option.splits)
  with * x show ?thesis by (fastforce simp: route_goal_def)
qed

subsection \<open>A reachable service\<close>

definition describe_up :: "'w ec2 \<Rightarrow> bool" where
  "describe_up c \<longleftrightarrow> (\<forall>i w. \<exists>ts w'. DescribeRouteTables c [i] w = (Inr ts, w'))"

text \<open>
  With permissions and connectivity a missing route of an existing table can be created and an
  existing one replaced.
\<close>

definition writes_up :: "'w ec2 \<Rightarrow> ('w \<Rightarrow> string \<rightharpoonup> ec2_route list) \<Rightarrow> (string \<Rightarrow> string) \<Rightarrow> bool" where
  "writes_up c tv canon \<longleftrightarrow>
     (\<forall>i w rs. tv w (ri_RouteTableId i) = Some rs \<longrightarrow>
        (if find_route rs (canon (ri_DestinationCidrBlock i)) = None then fst (CreateRoute c i w) = None
         else fst (ReplaceRoute c i w) = None))"

lemma getRoute_up:
  assumes laws: "reads_frame (ec2Client m) tv" "fresh_reads (ec2Client m) tv" and up: "describe_up (ec2Client m)" and dom: "tv w i = Some rs"
  obtains w1 where "getRoute m i c w = (Inr (find_route rs c), w1)" and "tv w1 = tv w"
proof -
  obtain ts w1 where d: "DescribeRouteTables (ec2Client m) [i] w = (Inr ts, w1)"
    using up unfolding describe_up_def by blast
  with describe_tables [OF laws(2) d] describe_frame [OF laws(1) d] dom
  have "ts = [\<lparr>Routes = rs\<rparr>]" "tv w1 = tv w" by simp_all
  with d that show thesis by (simp add: getRoute_def)
qed

lemma updateRoute_up:
  assumes laws: "ec2_laws (ec2Client m) tv canon" and fresh: "fresh_reads (ec2Client m) tv"
    and up: "describe_up (ec2Client m)" "writes_up (ec2Client m) tv canon"
    and dom: "tv w i = Some rs" and c: "canon c = c"
  shows "fst (updateRoute m i c w) = None"
proof -
  from laws have d: "reads_frame (ec2Client m) tv" by (simp add: ec2_laws_def)
  obtain w1 where g: "getRoute m i c w = (Inr (find_route rs c), w1)" and w1: "tv w1 i = Some rs"
    using getRoute_up [OF d fresh up(1) dom] dom by metis
  have "if find_route rs c = None then fst (CreateRoute (ec2Client m) (route_input m i c) w1) = None
      else fst (ReplaceRoute (ec2Client m) (route_input m i c) w1) = None"
    using up(2) w1 c by (auto simp: writes_up_def dest: spec [of _ "route_input m i c"])
  with g show ?thesis
    by (cases "find_route rs c")
      (auto simp: updateRoute_def createRoute_def replaceRoute_def split: prod.splits option.splits)
qed

lemma updateRoute_dom:
  assumes laws: "ec2_laws (ec2Client m) tv canon"
  shows "dom (tv (snd (updateRoute m i c w))) = dom (tv w)"
proof -
  obtain r w' where u: "updateRoute m i c w = (r, w')" by fastforce
  from updateRoute_effect [OF laws u] show ?thesis
    by (auto simp: u routes_set_def dom_def split: if_splits)
qed

lemma snd_update_body [simp]: "snd (update_body m i c w) = snd (updateRoute m i c w)"
  by (simp add: update_body_def split: prod.splits option.splits)

lemma UpdateRoutes_dom:
  assumes laws: "ec2_laws (ec2Client m) tv canon"
  shows "dom (tv (snd (UpdateRoutes m cidrs w))) = dom (tv w)"
  unfolding UpdateRoutes_def
proof (rule for_each_preserves, rule refl)
  fix i s
  assume "dom (tv s) = dom (tv w)"
  then show "dom (tv (snd (for_each (update_body m i) cidrs s))) = dom (tv w)"
    by (rule for_each_preserves) (simp add: updateRoute_dom [OF laws])
qed

lemma fst_update_body: "fst (update_body m i c w) = None \<longleftrightarrow> fst (updateRoute m i c w) = None"
  by (simp add: update_body_def split: prod.splits option.splits)

lemma UpdateRoutes_publishes:
  assumes laws: "ec2_laws (ec2Client m) tv canon" and fresh: "fresh_reads (ec2Client m) tv"
    and up: "describe_up (ec2Client m)" "writes_up (ec2Client m) tv canon"
    and tables: "set (routeTableIDs m) \<subseteq> dom (tv w)" and canon: "\<forall>c \<in> set cidrs. canon c = c"
  shows "\<exists>w'. UpdateRoutes m cidrs w = (None, w')
           \<and> (\<forall>i \<in> set (routeTableIDs m). \<forall>c \<in> set cidrs. points_to (tv w') i c (primaryENI m))"
proof -
  have "fst (UpdateRoutes m cidrs w) = None"
    unfolding UpdateRoutes_pairs
  proof (rule for_each_succeeds [where P = "\<lambda>s. set (routeTableIDs m) \<subseteq> dom (tv s)", OF tables])
    fix x s
    assume x: "x \<in> set (List.product (routeTableIDs m) cidrs)" and s: "set (routeTableIDs m) \<subseteq> dom (tv s)"
    obtain i c where [simp]: "x = (i, c)" by (cases x)
    from x s obtain rs where "tv s i = Some rs" by auto
    with updateRoute_up [OF laws fresh up] x canon updateRoute_dom [OF laws, of i c s] s
    show "fst ((\<lambda>(i, c). update_body m i c) x s) = None
        \<and> set (routeTableIDs m) \<subseteq> dom (tv (snd ((\<lambda>(i, c). update_body m i c) x s)))"
      by (simp add: fst_update_body)
  qed
  then obtain w' where w': "UpdateRoutes m cidrs w = (None, w')" by (cases "UpdateRoutes m cidrs w") auto
  have "points_to (tv w') i c (primaryENI m)" if "i \<in> set (routeTableIDs m)" "c \<in> set cidrs" for i c
    using routes.loop_reached [OF conjI [OF laws fresh] w' [unfolded UpdateRoutes_pairs], of "(i, c)"] that canon
    by (simp add: route_goal_def)
  with w' show ?thesis by blast
qed

text \<open>C4: With EC2 reachable and its reads up to date, the configured tables existing and the pod CIDRs in canonical form, UpdateRoutes
  succeeds from every state of the tables, whichever gateway the routes pointed to before, and it
  leaves every one of them pointing to this gateway.\<close>

theorem UpdateRoutes_converges:
  assumes laws: "ec2_laws (ec2Client m) tv canon" and fresh: "fresh_reads (ec2Client m) tv"
    and up: "describe_up (ec2Client m)" "writes_up (ec2Client m) tv canon"
    and tables: "set (routeTableIDs m) \<subseteq> dom (tv w)" and canon: "\<forall>c \<in> set cidrs. canon c = c"
  shows "\<exists>w'. UpdateRoutes m cidrs w = (None, w')
           \<and> (\<forall>i \<in> set (routeTableIDs m). \<forall>c \<in> set cidrs. points_to (tv w') i c (primaryENI m))"
  using assms by (rule UpdateRoutes_publishes)

subsection \<open>Writes happen only when needed\<close>

text \<open>The same manager with other write operations: a run that never writes cannot tell the difference.\<close>

definition with_writes :: "'w RouteTableManager \<Rightarrow> (RouteInput \<Rightarrow> 'w \<Rightarrow> aws_error option \<times> 'w) \<Rightarrow>
    (RouteInput \<Rightarrow> 'w \<Rightarrow> aws_error option \<times> 'w) \<Rightarrow> 'w RouteTableManager" where
  "with_writes m cr rp = m\<lparr>ec2Client := (ec2Client m)\<lparr>CreateRoute := cr, ReplaceRoute := rp\<rparr>\<rparr>"

lemma with_writes_simps [simp]:
  "routeTableIDs (with_writes m cr rp) = routeTableIDs m" "primaryENI (with_writes m cr rp) = primaryENI m"
  "getRoute (with_writes m cr rp) i c w = getRoute m i c w"
  by (simp_all add: with_writes_def getRoute_def)

lemma updateRoute_settled:
  assumes laws: "reads_frame (ec2Client m) tv" "fresh_reads (ec2Client m) tv" and up: "describe_up (ec2Client m)"
    and right: "points_to (tv w) i c (primaryENI m)"
  obtains w1 where "tv w1 = tv w" and "updateRoute (with_writes m cr rp) i c w = (None, w1)"
    and "updateRoute m i c w = (None, w1)"
proof -
  from right obtain rs r where rs: "tv w i = Some rs" and r: "find_route rs c = Some r"
    and eni: "NetworkInterfaceId r = Some (primaryENI m)"
    by (auto simp: points_to_def route_of_def split: option.splits)
  from getRoute_up [OF laws up rs, of c] obtain w1
    where "getRoute m i c w = (Inr (Some r), w1)" "tv w1 = tv w" by (metis r)
  with eni that show thesis by (simp add: updateRoute_def)
qed

text \<open>When every configured route already points to this gateway, UpdateRoutes succeeds without a single
  write: its result does not depend on what CreateRoute and ReplaceRoute would do.\<close>

theorem UpdateRoutes_settled_no_writes:
  assumes laws: "reads_frame (ec2Client m) tv" "fresh_reads (ec2Client m) tv" and up: "describe_up (ec2Client m)"
    and right: "\<forall>i \<in> set (routeTableIDs m). \<forall>c \<in> set cidrs. points_to (tv w) i c (primaryENI m)"
  shows "fst (UpdateRoutes m cidrs w) = None
    \<and> UpdateRoutes (with_writes m cr rp) cidrs w = UpdateRoutes m cidrs w"
proof -
  let ?P = "\<lambda>s. tv s = tv w" and ?f = "\<lambda>m (i, c). update_body m i c"
  have step: "fst (?f m x s) = None \<and> ?P (snd (?f m x s)) \<and> ?f (with_writes m cr rp) x s = ?f m x s"
    if x: "x \<in> set (List.product (routeTableIDs m) cidrs)" and s: "?P s" for x s
  proof -
    obtain i c where xe: "x = (i, c)" by (cases x)
    with x right s have "points_to (tv s) i c (primaryENI m)" by auto
    from updateRoute_settled [OF laws up this] obtain w1 where "tv w1 = tv s"
      "updateRoute (with_writes m cr rp) i c s = (None, w1)" "updateRoute m i c s = (None, w1)" .
    with s show ?thesis by (simp add: xe update_body_def)
  qed
  have "fst (UpdateRoutes m cidrs w) = None"
    unfolding UpdateRoutes_pairs using step by (intro for_each_succeeds [where P = ?P]) auto
  moreover have "for_each (?f m) (List.product (routeTableIDs m) cidrs) w
      = for_each (?f (with_writes m cr rp)) (List.product (routeTableIDs m) cidrs) w"
    using step by (intro for_each_cong_on [where P = ?P]) auto
  ultimately show ?thesis by (simp add: UpdateRoutes_pairs)
qed

text \<open>C37: A pod CIDR that is not in canonical form breaks the fail-over: when the table holds its route, under
  the canonical spelling and pointing to the previous leader, the look-up misses it, CreateRoute is
  rejected as a duplicate, and the route stays on the previous leader.\<close>

theorem updateRoute_noncanonical_stuck:
  assumes laws: "ec2_laws (ec2Client m) tv canon" and fresh: "fresh_reads (ec2Client m) tv" and up: "describe_up (ec2Client m)"
    and rejects: "create_rejects (ec2Client m) tv canon"
    and table: "tv w i = Some rs" and stored: "find_route rs (canon c) = Some r" and miss: "find_route rs c = None"
  shows "(\<exists>e. fst (updateRoute m i c w) = Some (CreateRouteError e))
    \<and> route_of (tv (snd (updateRoute m i c w))) i (canon c) = Some r"
proof -
  have d: "reads_frame (ec2Client m) tv" using laws by (simp add: ec2_laws_def)
  from getRoute_up [OF d fresh up table, of c] obtain w1
    where g: "getRoute m i c w = (Inr None, w1)" and w1: "tv w1 = tv w" by (metis miss)
  obtain e w2 where cr: "CreateRoute (ec2Client m) (route_input m i c) w1 = (Some e, w2)" "tv w2 = tv w1"
    using rejects [unfolded create_rejects_def, rule_format, of w1 "route_input m i c" rs] table stored w1 by auto
  with g w1 table stored show ?thesis by (simp add: updateRoute_def createRoute_def route_of_def)
qed

text \<open>EC2 may answer a read from an earlier moment.  When a gateway leads again and reads its tables as they were
  while it led before, UpdateRoutes reports success without a single change: the routes stay with the gateway that
  led in between.\<close>

theorem UpdateRoutes_stale_reads_lost:
  assumes frame: "reads_frame (ec2Client m) tv"
    and stale: "\<forall>i w. \<exists>w1. DescribeRouteTables (ec2Client m) [i] w = (Inr [\<lparr>Routes = the (earlier i)\<rparr>], w1)"
    and before: "\<forall>i \<in> set (routeTableIDs m). \<forall>c \<in> set cidrs. points_to earlier i c (primaryENI m)"
  shows "fst (UpdateRoutes m cidrs w) = None \<and> tv (snd (UpdateRoutes m cidrs w)) = tv w"
proof -
  have step: "fst (update_body m i c s) = None \<and> tv (snd (update_body m i c s)) = tv s"
    if "i \<in> set (routeTableIDs m)" "c \<in> set cidrs" for i c s
  proof -
    obtain w1 where d: "DescribeRouteTables (ec2Client m) [i] s = (Inr [\<lparr>Routes = the (earlier i)\<rparr>], w1)"
      using stale by blast
    from before that obtain r where "find_route (the (earlier i)) c = Some r" "NetworkInterfaceId r = Some (primaryENI m)"
      by (fastforce simp: points_to_def route_of_def split: option.splits)
    with d describe_frame [OF frame d] show ?thesis by (simp add: update_body_def updateRoute_def getRoute_def)
  qed
  have "fst (UpdateRoutes m cidrs w) = None" unfolding UpdateRoutes_pairs
    by (rule for_each_succeeds [where P = "\<lambda>_. True"]) (auto simp: step)
  moreover have "tv (snd (UpdateRoutes m cidrs w)) = tv w" unfolding UpdateRoutes_pairs
    by (rule for_each_preserves [where P = "\<lambda>s. tv s = tv w"]) (use step in auto)
  ultimately show ?thesis by blast
qed

subsection \<open>Access check and construction\<close>

lemma verify_body_spec:
  assumes laws: "reads_frame (ec2Client m) tv" "fresh_reads (ec2Client m) tv" and up: "describe_up (ec2Client m)"
  shows "tv (snd (verify_body m i w)) = tv w" and "fst (verify_body m i w) = None \<longleftrightarrow> i \<in> dom (tv w)"
proof -
  obtain ts w1 where d: "DescribeRouteTables (ec2Client m) [i] w = (Inr ts, w1)"
    using up unfolding describe_up_def by blast
  from describe_tables [OF laws(2) d] describe_frame [OF laws(1) d] d
  show "tv (snd (verify_body m i w)) = tv w" and "fst (verify_body m i w) = None \<longleftrightarrow> i \<in> dom (tv w)"
    by (auto simp: verify_body_def split: option.splits)
qed

text \<open>VerifyRouteTableAccess changes no table, and with EC2 reachable it succeeds exactly when every
  configured route table exists.\<close>

theorem VerifyRouteTableAccess_exact:
  assumes laws: "reads_frame (ec2Client m) tv" "fresh_reads (ec2Client m) tv" and up: "describe_up (ec2Client m)"
  shows "tv (snd (VerifyRouteTableAccess m w)) = tv w
    \<and> (fst (VerifyRouteTableAccess m w) = None \<longleftrightarrow> set (routeTableIDs m) \<subseteq> dom (tv w))"
proof -
  note vb = verify_body_spec [OF laws up]
  have "tv (snd (VerifyRouteTableAccess m w)) = tv w"
    unfolding VerifyRouteTableAccess_def by (rule for_each_preserves) (simp_all add: vb)
  moreover have "fst (for_each (verify_body m) ids w) = None \<longleftrightarrow> set ids \<subseteq> dom (tv w)" for ids
  proof (induction ids arbitrary: w)
    case Nil
    then show ?case by simp
  next
    case (Cons i ids)
    obtain r w1 where "verify_body m i w = (r, w1)" by fastforce
    with vb [of i w] Cons [of w1] show ?case by (cases r) auto
  qed
  ultimately show ?thesis by (simp add: VerifyRouteTableAccess_def)
qed

definition is_primary :: "InstanceNetworkInterface \<Rightarrow> bool" where
  "is_primary eni \<longleftrightarrow> (case Attachment eni of None \<Rightarrow> False | Some idx \<Rightarrow> idx = None \<or> idx = Some 0)"

lemma first_primary_find:
  "first_primary enis = map_option (ToString \<circ> ni_NetworkInterfaceId) (find is_primary enis)"
  by (induction enis) (auto simp: is_primary_def ToInt32_def split: option.splits)

text \<open>A route table manager that NewRouteTableManager returns has at least one table and an instance, and
  its interface is the first one attached to the instance at device index 0 (or at no index).\<close>

theorem NewRouteTableManager_primary:
  assumes "NewRouteTableManager newClient ids inst reg w = (Inr m, w')"
  shows "ids \<noteq> [] \<and> inst \<noteq> [] \<and> routeTableIDs m = ids \<and> instanceID m = inst \<and> region m = reg
    \<and> (\<exists>w1 i is rs eni. DescribeInstances (ec2Client m) [inst] w1 = (Inr ((i # is) # rs), w')
         \<and> find is_primary (NetworkInterfaces i) = Some eni
         \<and> primaryENI m = ToString (ni_NetworkInterfaceId eni))"
  using assms
  by (fastforce simp: NewRouteTableManager_def getPrimaryENI_def first_primary_find
      split: if_splits prod.splits sum.splits list.splits option.splits)

subsection \<open>A service in memory\<close>

text \<open>
  An instance of the EC2 parameter that meets every law: the world is the tables themselves, and an
  instance has one interface, named after it.
\<close>

definition mem_route :: "string \<Rightarrow> string \<Rightarrow> ec2_route" where
  "mem_route c eni = \<lparr>DestinationCidrBlock = Some c, NetworkInterfaceId = Some eni, InstanceId = None\<rparr>"

definition mem_replace :: "string \<Rightarrow> string \<Rightarrow> ec2_route list \<Rightarrow> ec2_route list" where
  "mem_replace c eni = List.map (\<lambda>r. if DestinationCidrBlock r = Some c then mem_route c eni else r)"

definition mem_ec2 :: "(string \<Rightarrow> string) \<Rightarrow> (string \<rightharpoonup> ec2_route list) ec2" where
  "mem_ec2 canon =
     \<lparr>DescribeInstances = (\<lambda>ids t. (Inr [[\<lparr>NetworkInterfaces =
          [\<lparr>Attachment = None, ni_NetworkInterfaceId = None\<rparr>,
           \<lparr>Attachment = Some (Some 0), ni_NetworkInterfaceId = Some (''eni-'' @ concat ids)\<rparr>]\<rparr>]], t)),
      DescribeRouteTables = (\<lambda>ids t. (Inr (List.map (\<lambda>i. \<lparr>Routes = the (t i)\<rparr>) (filter (\<lambda>i. t i \<noteq> None) ids)), t)),
      CreateRoute = (\<lambda>i t. case t (ri_RouteTableId i) of
          None \<Rightarrow> (Some ''InvalidRouteTableID.NotFound'', t)
        | Some rs \<Rightarrow>
            if find_route rs (canon (ri_DestinationCidrBlock i)) \<noteq> None then (Some ''RouteAlreadyExists'', t)
            else (None, t(ri_RouteTableId i \<mapsto>
                    rs @ [mem_route (canon (ri_DestinationCidrBlock i)) (ri_NetworkInterfaceId i)]))),
      ReplaceRoute = (\<lambda>i t. case t (ri_RouteTableId i) of
          None \<Rightarrow> (Some ''InvalidRouteTableID.NotFound'', t)
        | Some rs \<Rightarrow>
            if find_route rs (canon (ri_DestinationCidrBlock i)) = None then (Some ''InvalidRoute.NotFound'', t)
            else (None, t(ri_RouteTableId i \<mapsto>
                    mem_replace (canon (ri_DestinationCidrBlock i)) (ri_NetworkInterfaceId i) rs)))\<rparr>"

lemma find_route_append: "find_route (rs @ rs') c = (case find_route rs c of None \<Rightarrow> find_route rs' c | Some r \<Rightarrow> Some r)"
  by (induction rs) (auto simp: find_route_def)

lemma find_route_single:
  "find_route [mem_route c eni] c' = (if c' = c then Some (mem_route c eni) else None)"
  by (simp add: find_route_def mem_route_def)

lemma find_route_replace:
  "find_route (mem_replace c eni rs) c' =
     (if c' = c then map_option (\<lambda>_. mem_route c eni) (find_route rs c) else find_route rs c')"
  by (induction rs) (auto simp: find_route_def mem_replace_def mem_route_def)

lemma mem_ec2_describe: "reads_frame (mem_ec2 canon) (\<lambda>t. t)" "fresh_reads (mem_ec2 canon) (\<lambda>t. t)" "describe_up (mem_ec2 canon)"
  by (auto simp: reads_frame_def fresh_reads_def describe_up_def mem_ec2_def split: option.splits)

lemma mem_route_eni [simp]: "NetworkInterfaceId (mem_route c eni) = Some eni"
  by (simp add: mem_route_def)

lemma mem_ec2_writes: "write_laws (mem_ec2 canon) (\<lambda>t. t) canon"
  by (fastforce simp: write_laws_def routes_set_def mem_ec2_def find_route_append find_route_single
      find_route_replace split: option.splits if_splits)

lemma mem_ec2_laws: "ec2_laws (mem_ec2 canon) (\<lambda>t. t) canon"
  by (simp add: ec2_laws_def mem_ec2_describe mem_ec2_writes)

lemma mem_ec2_writes_up: "writes_up (mem_ec2 canon) (\<lambda>t. t) canon"
  by (auto simp: writes_up_def mem_ec2_def)

lemma mem_ec2_rejects: "create_rejects (mem_ec2 canon) (\<lambda>t. t) canon"
  by (auto simp: create_rejects_def mem_ec2_def)

text \<open>A gateway with two tables; the routes of the first one point to the previous leader.\<close>

definition mgr0 :: "(string \<Rightarrow> string) \<Rightarrow> (string \<rightharpoonup> ec2_route list) RouteTableManager" where
  "mgr0 canon = \<lparr>ec2Client = mem_ec2 canon, routeTableIDs = [''rtb-1'', ''rtb-2''], instanceID = ''i-1'',
     primaryENI = ''eni-1'', region = ''us-west-2''\<rparr>"

definition tables0 :: "string \<rightharpoonup> ec2_route list" where
  "tables0 = [''rtb-1'' \<mapsto> [mem_route ''10.0.0.0/16'' ''eni-2'', mem_route ''10.9.0.0/16'' ''eni-9''], ''rtb-2'' \<mapsto> []]"

definition tables1 :: "string \<rightharpoonup> ec2_route list" where
  "tables1 = [''rtb-1'' \<mapsto> [mem_route ''10.0.0.0/16'' ''eni-1'', mem_route ''10.9.0.0/16'' ''eni-9''],
     ''rtb-2'' \<mapsto> [mem_route ''10.0.0.0/16'' ''eni-1'']]"

lemmas route_eval = mgr0_def tables0_def tables1_def mem_ec2_def UpdateRoutes_def update_body_def updateRoute_def
  getRoute_def find_route_def mem_route_def mem_replace_def createRoute_def replaceRoute_def route_input_def

lemma mgr0_client [simp]: "ec2Client (mgr0 canon) = mem_ec2 canon" "routeTableIDs (mgr0 canon) = [''rtb-1'', ''rtb-2'']"
  "primaryENI (mgr0 canon) = ''eni-1''"
  by (simp_all add: mgr0_def)

lemma mgr0_run: "UpdateRoutes (mgr0 id) [''10.0.0.0/16''] tables0 = (None, tables1)"
  by (auto simp: route_eval fun_eq_iff)

theorem UpdateRoutes_points_all_witness: "points_to tables1 ''rtb-2'' ''10.0.0.0/16'' ''eni-1''"
  using UpdateRoutes_points_all [of "mgr0 id" "\<lambda>t. t" id, OF _ _ mgr0_run] by (simp add: mem_ec2_laws mem_ec2_describe)

theorem UpdateRoutes_frame_witness:
  "route_of (snd (UpdateRoutes (mgr0 id) [''10.0.0.0/16''] tables0)) ''rtb-1'' ''10.9.0.0/16''
     = route_of tables0 ''rtb-1'' ''10.9.0.0/16''"
  using UpdateRoutes_frame [of "mgr0 id" "\<lambda>t. t" id "''rtb-1''" "''10.9.0.0/16''" "[''10.0.0.0/16'']" tables0]
  by (simp add: mem_ec2_laws)

lemma mgr0_fails:
  "UpdateRoutes (mgr0 id) [''10.0.0.0/16''] (tables0(''rtb-2'' := None)) =
     (Some (UpdateRouteError ''10.0.0.0/16'' ''rtb-2'' (TableNotFound ''rtb-2'')), tables1(''rtb-2'' := None))"
  by (auto simp: route_eval fun_eq_iff)

theorem UpdateRoutes_error_prefix_witness:
  "\<exists>done i c rest e'. List.product [''rtb-1'', ''rtb-2''] [''10.0.0.0/16''] = done @ (i, c) # rest
     \<and> UpdateRouteError ''10.0.0.0/16'' ''rtb-2'' (TableNotFound ''rtb-2'') = UpdateRouteError c i e'
     \<and> (\<forall>(j, d) \<in> set done. id d = d \<longrightarrow> points_to (tables1(''rtb-2'' := None)) j d ''eni-1'')"
  using UpdateRoutes_error_prefix [of "mgr0 id" "\<lambda>t. t" id, OF _ _ mgr0_fails] by (simp add: mem_ec2_laws mem_ec2_describe)

theorem UpdateRoutes_converges_witness:
  "\<exists>t. UpdateRoutes (mgr0 id) [''10.0.0.0/16''] tables0 = (None, t)
     \<and> (\<forall>i \<in> set [''rtb-1'', ''rtb-2'']. \<forall>c \<in> set [''10.0.0.0/16'']. points_to t i c ''eni-1'')"
  using UpdateRoutes_converges [of "mgr0 id" "\<lambda>t. t" id tables0 "[''10.0.0.0/16'']"]
  by (simp add: mem_ec2_laws mem_ec2_describe mem_ec2_writes_up tables0_def)

theorem UpdateRoutes_settled_no_writes_witness:
  "fst (UpdateRoutes (mgr0 id) [''10.0.0.0/16''] tables1) = None
   \<and> UpdateRoutes (with_writes (mgr0 id) (\<lambda>_ _. (Some ''denied'', Map.empty)) (\<lambda>_ _. (Some ''denied'', Map.empty)))
       [''10.0.0.0/16''] tables1 = UpdateRoutes (mgr0 id) [''10.0.0.0/16''] tables1"
proof -
  have "\<forall>i \<in> set (routeTableIDs (mgr0 id)). \<forall>c \<in> set [''10.0.0.0/16'']. points_to tables1 i c (primaryENI (mgr0 id))"
    by (simp add: tables1_def points_to_def route_of_def find_route_def mem_route_def)
  then show ?thesis
    using UpdateRoutes_settled_no_writes [of "mgr0 id" "\<lambda>t. t" "[''10.0.0.0/16'']" tables1]
    by (simp add: mem_ec2_describe)
qed

text \<open>The service's normal form of the one destination that the next example spells differently.\<close>

definition canon0 :: "string \<Rightarrow> string" where
  "canon0 c = (if c = ''10.0.1.0/16'' then ''10.0.0.0/16'' else c)"

theorem updateRoute_noncanonical_stuck_witness:
  "(\<exists>e. fst (updateRoute (mgr0 canon0) ''rtb-1'' ''10.0.1.0/16'' tables0) = Some (CreateRouteError e))
   \<and> route_of (snd (updateRoute (mgr0 canon0) ''rtb-1'' ''10.0.1.0/16'' tables0)) ''rtb-1'' (canon0 ''10.0.1.0/16'')
       = Some (mem_route ''10.0.0.0/16'' ''eni-2'')"
  using updateRoute_noncanonical_stuck [of "mgr0 canon0" "\<lambda>t. t" canon0 tables0 "''rtb-1''"
      "[mem_route ''10.0.0.0/16'' ''eni-2'', mem_route ''10.9.0.0/16'' ''eni-9'']" "''10.0.1.0/16''"
      "mem_route ''10.0.0.0/16'' ''eni-2''"]
  by (simp add: mem_ec2_laws mem_ec2_describe mem_ec2_rejects tables0_def canon0_def find_route_def mem_route_def)

text \<open>A service that still answers with the tables of the earlier leadership.\<close>

theorem UpdateRoutes_stale_reads_lost_witness:
  "let m = (mgr0 id)\<lparr>ec2Client := (mem_ec2 id)\<lparr>DescribeRouteTables := (\<lambda>ids t. (Inr [\<lparr>Routes = the (tables1 (hd ids))\<rparr>], t))\<rparr>\<rparr>
   in UpdateRoutes m [''10.0.0.0/16''] tables0 = (None, tables0) \<and> \<not> points_to tables0 ''rtb-1'' ''10.0.0.0/16'' ''eni-1''"
proof -
  define m where "m = (mgr0 id)\<lparr>ec2Client := (mem_ec2 id)\<lparr>DescribeRouteTables := (\<lambda>ids t. (Inr [\<lparr>Routes = the (tables1 (hd ids))\<rparr>], t))\<rparr>\<rparr>"
  have "fst (UpdateRoutes m [''10.0.0.0/16''] tables0) = None \<and> snd (UpdateRoutes m [''10.0.0.0/16''] tables0) = tables0"
    by (rule UpdateRoutes_stale_reads_lost [where tv = "\<lambda>t. t" and earlier = tables1])
       (auto simp: m_def mgr0_def reads_frame_def tables1_def points_to_def route_of_def find_route_def mem_route_def)
  then have "UpdateRoutes m [''10.0.0.0/16''] tables0 = (None, tables0)" by (simp add: prod_eq_iff)
  moreover have "\<not> points_to tables0 ''rtb-1'' ''10.0.0.0/16'' ''eni-1''"
    by (simp add: tables0_def points_to_def route_of_def find_route_def mem_route_def)
  ultimately show ?thesis by (simp add: m_def Let_def)
qed

theorem VerifyRouteTableAccess_exact_witness:
  "snd (VerifyRouteTableAccess (mgr0 id) tables0) = tables0
   \<and> (fst (VerifyRouteTableAccess (mgr0 id) tables0) = None \<longleftrightarrow> {''rtb-1'', ''rtb-2''} \<subseteq> dom tables0)"
  using VerifyRouteTableAccess_exact [of "mgr0 id" "\<lambda>t. t" tables0] by (simp add: mem_ec2_describe)

theorem NewRouteTableManager_primary_witness:
  "\<exists>m. NewRouteTableManager (\<lambda>_ t. (Inr (mem_ec2 id), t)) [''rtb-1''] ''i-7'' ''us-west-2'' tables0 = (Inr m, tables0)
     \<and> routeTableIDs m = [''rtb-1''] \<and> instanceID m = ''i-7''"
proof -
  obtain m where m: "NewRouteTableManager (\<lambda>_ t. (Inr (mem_ec2 id), t)) [''rtb-1''] ''i-7'' ''us-west-2'' tables0
      = (Inr m, tables0)"
    by (simp add: NewRouteTableManager_def getPrimaryENI_def mem_ec2_def ToInt32_def)
  from NewRouteTableManager_primary [OF m] m show ?thesis by blast
qed

end
