(* ===== verification/Netlink.thy ===== *)
theory Netlink
  imports Go_Net
begin

text \<open>
  The interface to the Linux kernel, the third-party package \<^verbatim>\<open>github.com/vishvananda/netlink\<close>.
  Its calls are the fields of the record \<open>netlink\<close>, which the definitions of the gateway take as an
  argument; each call maps the outside world to a result and a new world.  What the gateway relies
  on is stated over a view of the world as the kernel's tables (\<open>kernel\<close>): a route table keyed by
  destination, a neighbour (ARP) table keyed by interface and address, a forwarding database keyed
  by interface and hardware address.  \<open>kernel_laws\<close> is the documented behaviour of the calls on
  these tables.  The instance \<open>linux\<close> at the end satisfies the laws and serves the witnesses.
\<close>

type_synonym errno = nat

record LinkStatistics =
  RxBytes :: u64
  TxBytes :: u64
  RxPackets :: u64
  TxPackets :: u64
  RxDropped :: u64
  TxDropped :: u64
  RxErrors :: u64
  TxErrors :: u64

datatype LinkOperState =
    OperUnknown | OperNotPresent | OperDown | OperLowerLayerDown | OperTesting | OperDormant | OperUp

record Link =
  Index :: int
  lk_Name :: string
  lk_FlagUp :: bool
  OperState :: LinkOperState
  Statistics :: "LinkStatistics option"

record Vxlan =
  vx_Name :: string
  VxlanId :: int
  vx_Port :: int
  Learning :: bool
  SrcAddr :: IP

record Route =
  rt_LinkIndex :: int
  rt_Dst :: IPNet
  rt_Scope :: int
  rt_Gw :: "IP option"
  rt_Flags :: int

record Neigh =
  n_LinkIndex :: int
  n_Family :: int
  n_State :: int
  n_Flags :: int
  n_IP :: IP
  n_HardwareAddr :: "HardwareAddr option"

record 'w netlink =
  RouteReplace :: "Route \<Rightarrow> 'w \<Rightarrow> errno option \<times> 'w"
  RouteDel :: "Route \<Rightarrow> 'w \<Rightarrow> errno option \<times> 'w"
  NeighSet :: "Neigh \<Rightarrow> 'w \<Rightarrow> errno option \<times> 'w"
  NeighDel :: "Neigh \<Rightarrow> 'w \<Rightarrow> errno option \<times> 'w"
  LinkByName :: "string \<Rightarrow> 'w \<Rightarrow> (errno + Link) \<times> 'w"
  LinkAdd :: "Vxlan \<Rightarrow> 'w \<Rightarrow> errno option \<times> 'w"
  LinkDel :: "Link \<Rightarrow> 'w \<Rightarrow> errno option \<times> 'w"
  LinkSetHardwareAddr :: "Link \<Rightarrow> HardwareAddr \<Rightarrow> 'w \<Rightarrow> errno option \<times> 'w"
  LinkSetUp :: "Link \<Rightarrow> 'w \<Rightarrow> errno option \<times> 'w"
  LinkList :: "'w \<Rightarrow> (errno + Link list) \<times> 'w"
  AddrList :: "Link \<Rightarrow> int \<Rightarrow> 'w \<Rightarrow> (errno + IP list) \<times> 'w"
  NeighList :: "int \<Rightarrow> int \<Rightarrow> 'w \<Rightarrow> (errno + Neigh list) \<times> 'w"
  RouteList :: "Link \<Rightarrow> int \<Rightarrow> 'w \<Rightarrow> (errno + Route list) \<times> 'w"

subsection \<open>The kernel's tables\<close>

record kernel =
  kroutes :: "IPNet \<rightharpoonup> Route"
  karp :: "int \<times> IP \<rightharpoonup> Neigh"
  kfdb :: "int \<times> HardwareAddr \<rightharpoonup> Neigh"

definition af_inet :: int where "af_inet = 2"
definition af_bridge :: int where "af_bridge = 7"

text \<open>A failed request changes no table.\<close>

definition atomic_requests :: "'w netlink \<Rightarrow> ('w \<Rightarrow> kernel) \<Rightarrow> bool" where
  "atomic_requests nl kv \<longleftrightarrow>
     (\<forall>r w e w'. RouteReplace nl r w = (Some e, w') \<longrightarrow> kv w' = kv w) \<and>
     (\<forall>r w e w'. RouteDel nl r w = (Some e, w') \<longrightarrow> kv w' = kv w) \<and>
     (\<forall>n w e w'. NeighSet nl n w = (Some e, w') \<longrightarrow> kv w' = kv w) \<and>
     (\<forall>n w e w'. NeighDel nl n w = (Some e, w') \<longrightarrow> kv w' = kv w)"

text \<open>
  A replaced route is the only route for its destination; a deletion by destination and interface
  removes it.
\<close>

definition route_laws :: "'w netlink \<Rightarrow> ('w \<Rightarrow> kernel) \<Rightarrow> bool" where
  "route_laws nl kv \<longleftrightarrow>
     (\<forall>r w w'. RouteReplace nl r w = (None, w') \<longrightarrow>
        kv w' = (kv w)\<lparr>kroutes := (kroutes (kv w))(rt_Dst r \<mapsto> r)\<rparr>) \<and>
     (\<forall>r w w'. RouteDel nl r w = (None, w') \<longrightarrow>
        kv w' = (kv w)\<lparr>kroutes := (kroutes (kv w))(rt_Dst r := None)\<rparr>)"

text \<open>
  Neighbour requests of family AF\_INET act on the ARP table, those of family AF\_BRIDGE on the
  forwarding database, where an entry is identified by its hardware address.
\<close>

definition neigh_laws :: "'w netlink \<Rightarrow> ('w \<Rightarrow> kernel) \<Rightarrow> bool" where
  "neigh_laws nl kv \<longleftrightarrow>
     (\<forall>n w w'. NeighSet nl n w = (None, w') \<longrightarrow> n_Family n = af_inet \<longrightarrow> To4 (n_IP n) \<noteq> None \<longrightarrow>
        kv w' = (kv w)\<lparr>karp := (karp (kv w))((n_LinkIndex n, n_IP n) \<mapsto> n)\<rparr>) \<and>
     (\<forall>n w w' m. NeighSet nl n w = (None, w') \<longrightarrow> n_Family n = af_bridge \<longrightarrow> n_HardwareAddr n = Some m \<longrightarrow>
        kv w' = (kv w)\<lparr>kfdb := (kfdb (kv w))((n_LinkIndex n, m) \<mapsto> n)\<rparr>) \<and>
     (\<forall>n w w'. NeighDel nl n w = (None, w') \<longrightarrow> n_Family n = af_inet \<longrightarrow> To4 (n_IP n) \<noteq> None \<longrightarrow>
        kv w' = (kv w)\<lparr>karp := (karp (kv w))((n_LinkIndex n, n_IP n) := None)\<rparr>)"

text \<open>
  A deletion from the forwarding database names the entry by its hardware address; the kernel
  answers a request without one with EINVAL.
\<close>

definition fdb_del_law :: "'w netlink \<Rightarrow> bool" where
  "fdb_del_law nl \<longleftrightarrow>
     (\<forall>n w. n_Family n = af_bridge \<longrightarrow> n_HardwareAddr n = None \<longrightarrow> fst (NeighDel nl n w) \<noteq> None)"

definition kernel_laws :: "'w netlink \<Rightarrow> ('w \<Rightarrow> kernel) \<Rightarrow> bool" where
  "kernel_laws nl kv \<longleftrightarrow> atomic_requests nl kv \<and> route_laws nl kv \<and> neigh_laws nl kv"

lemma kernel_laws_error:
  assumes "kernel_laws nl kv"
  shows "RouteReplace nl r w = (Some e, w') \<Longrightarrow> kv w' = kv w"
    and "RouteDel nl r w = (Some e, w') \<Longrightarrow> kv w' = kv w"
    and "NeighSet nl n w = (Some e, w') \<Longrightarrow> kv w' = kv w"
    and "NeighDel nl n w = (Some e, w') \<Longrightarrow> kv w' = kv w"
  using assms by (auto simp: kernel_laws_def atomic_requests_def)

lemma kernel_laws_route:
  assumes "kernel_laws nl kv"
  shows "RouteReplace nl r w = (None, w') \<Longrightarrow> kv w' = (kv w)\<lparr>kroutes := (kroutes (kv w))(rt_Dst r \<mapsto> r)\<rparr>"
    and "RouteDel nl r w = (None, w') \<Longrightarrow> kv w' = (kv w)\<lparr>kroutes := (kroutes (kv w))(rt_Dst r := None)\<rparr>"
  using assms by (auto simp: kernel_laws_def route_laws_def)

lemma kernel_laws_neigh:
  assumes "kernel_laws nl kv"
  shows "NeighSet nl n w = (None, w') \<Longrightarrow> n_Family n = af_inet \<Longrightarrow> To4 (n_IP n) \<noteq> None \<Longrightarrow>
           kv w' = (kv w)\<lparr>karp := (karp (kv w))((n_LinkIndex n, n_IP n) \<mapsto> n)\<rparr>"
    and "NeighSet nl n w = (None, w') \<Longrightarrow> n_Family n = af_bridge \<Longrightarrow> n_HardwareAddr n = Some m \<Longrightarrow>
           kv w' = (kv w)\<lparr>kfdb := (kfdb (kv w))((n_LinkIndex n, m) \<mapsto> n)\<rparr>"
    and "NeighDel nl n w = (None, w') \<Longrightarrow> n_Family n = af_inet \<Longrightarrow> To4 (n_IP n) \<noteq> None \<Longrightarrow>
           kv w' = (kv w)\<lparr>karp := (karp (kv w))((n_LinkIndex n, n_IP n) := None)\<rparr>"
  using assms by (auto simp: kernel_laws_def neigh_laws_def)

subsection \<open>The kernel's links\<close>

record klink =
  kl_link :: Link
  kl_vxlan :: "Vxlan option"
  kl_mac :: HardwareAddr
  kl_addrs :: "IP list"

text \<open>
  Links are identified by name.  Looking one up changes nothing; a link can be added only where
  none has the name; changes to a link touch that link only.
\<close>

definition link_query_laws :: "'w netlink \<Rightarrow> ('w \<Rightarrow> string \<rightharpoonup> klink) \<Rightarrow> bool" where
  "link_query_laws nl lv \<longleftrightarrow>
     (\<forall>n w r w'. LinkByName nl n w = (r, w') \<longrightarrow> lv w' = lv w) \<and>
     (\<forall>n w l w'. LinkByName nl n w = (Inr l, w') \<longrightarrow>
        lk_Name l = n \<and> (\<exists>k. lv w n = Some k \<and> kl_link k = l))"

definition link_change_laws :: "'w netlink \<Rightarrow> ('w \<Rightarrow> string \<rightharpoonup> klink) \<Rightarrow> bool" where
  "link_change_laws nl lv \<longleftrightarrow>
     (\<forall>l w w'. LinkDel nl l w = (None, w') \<longrightarrow> lv w' = (lv w)(lk_Name l := None)) \<and>
     (\<forall>x w w'. LinkAdd nl x w = (None, w') \<longrightarrow>
        lv w (vx_Name x) = None \<and>
        (\<exists>k. kl_vxlan k = Some x \<and> lk_Name (kl_link k) = vx_Name x \<and> lv w' = (lv w)(vx_Name x \<mapsto> k))) \<and>
     (\<forall>l m w w'. LinkSetHardwareAddr nl l m w = (None, w') \<longrightarrow>
        (\<exists>k. lv w (lk_Name l) = Some k \<and> lv w' = (lv w)(lk_Name l \<mapsto> k\<lparr>kl_mac := m\<rparr>))) \<and>
     (\<forall>l w w'. LinkSetUp nl l w = (None, w') \<longrightarrow>
        (\<exists>k. lv w (lk_Name l) = Some k \<and>
             lv w' = (lv w)(lk_Name l \<mapsto> k\<lparr>kl_link := (kl_link k)\<lparr>lk_FlagUp := True\<rparr>\<rparr>)))"

definition link_laws :: "'w netlink \<Rightarrow> ('w \<Rightarrow> string \<rightharpoonup> klink) \<Rightarrow> bool" where
  "link_laws nl lv \<longleftrightarrow> link_query_laws nl lv \<and> link_change_laws nl lv"

lemma link_lawsD:
  assumes "link_laws nl lv"
  shows "LinkByName nl n w = (r, w') \<Longrightarrow> lv w' = lv w"
    and "LinkByName nl n w = (Inr l, w') \<Longrightarrow> lk_Name l = n \<and> (\<exists>k. lv w n = Some k \<and> kl_link k = l)"
    and "LinkDel nl l w = (None, w') \<Longrightarrow> lv w' = (lv w)(lk_Name l := None)"
    and "LinkAdd nl x w = (None, w') \<Longrightarrow> lv w (vx_Name x) = None \<and>
           (\<exists>k. kl_vxlan k = Some x \<and> lk_Name (kl_link k) = vx_Name x \<and> lv w' = (lv w)(vx_Name x \<mapsto> k))"
    and "LinkSetHardwareAddr nl l m w = (None, w') \<Longrightarrow>
           \<exists>k. lv w (lk_Name l) = Some k \<and> lv w' = (lv w)(lk_Name l \<mapsto> k\<lparr>kl_mac := m\<rparr>)"
    and "LinkSetUp nl l w = (None, w') \<Longrightarrow>
           \<exists>k. lv w (lk_Name l) = Some k \<and>
             lv w' = (lv w)(lk_Name l \<mapsto> k\<lparr>kl_link := (kl_link k)\<lparr>lk_FlagUp := True\<rparr>\<rparr>)"
  using assms by (simp_all add: link_laws_def link_query_laws_def link_change_laws_def) blast

subsection \<open>An instance\<close>

text \<open>
  A kernel whose world is the tables and the list of its links.  It rejects what the real one
  rejects in the cases the laws mention: deletions of absent entries (ESRCH, ENOENT) and of
  forwarding entries without a hardware address (EINVAL), a second link with a name (EEXIST).
\<close>

record host =
  h_kernel :: kernel
  h_links :: "string \<rightharpoonup> klink"
  h_names :: "string list"

definition linux :: "host netlink" where
  "linux =
     \<lparr>RouteReplace = (\<lambda>r h. (None, h\<lparr>h_kernel := (h_kernel h)\<lparr>kroutes := (kroutes (h_kernel h))(rt_Dst r \<mapsto> r)\<rparr>\<rparr>)),
      RouteDel = (\<lambda>r h. if kroutes (h_kernel h) (rt_Dst r) = None then (Some 3, h)
         else (None, h\<lparr>h_kernel := (h_kernel h)\<lparr>kroutes := (kroutes (h_kernel h))(rt_Dst r := None)\<rparr>\<rparr>)),
      NeighSet = (\<lambda>n h.
         if n_Family n = af_inet then
           (None, h\<lparr>h_kernel := (h_kernel h)\<lparr>karp := (karp (h_kernel h))((n_LinkIndex n, n_IP n) \<mapsto> n)\<rparr>\<rparr>)
         else if n_Family n = af_bridge then
           (case n_HardwareAddr n of
              None \<Rightarrow> (Some 22, h)
            | Some m \<Rightarrow> (None, h\<lparr>h_kernel := (h_kernel h)\<lparr>kfdb := (kfdb (h_kernel h))((n_LinkIndex n, m) \<mapsto> n)\<rparr>\<rparr>))
         else (Some 97, h)),
      NeighDel = (\<lambda>n h.
         if n_Family n = af_inet then
           (if karp (h_kernel h) (n_LinkIndex n, n_IP n) = None then (Some 2, h)
            else (None, h\<lparr>h_kernel := (h_kernel h)\<lparr>karp := (karp (h_kernel h))((n_LinkIndex n, n_IP n) := None)\<rparr>\<rparr>))
         else if n_Family n = af_bridge then
           (case n_HardwareAddr n of
              None \<Rightarrow> (Some 22, h)
            | Some m \<Rightarrow> (if kfdb (h_kernel h) (n_LinkIndex n, m) = None then (Some 2, h)
                  else (None, h\<lparr>h_kernel := (h_kernel h)\<lparr>kfdb := (kfdb (h_kernel h))((n_LinkIndex n, m) := None)\<rparr>\<rparr>)))
         else (Some 97, h)),
      LinkByName = (\<lambda>name h. (case h_links h name of
         None \<Rightarrow> Inl 19
       | Some k \<Rightarrow> if lk_Name (kl_link k) = name then Inr (kl_link k) else Inl 19, h)),
      LinkAdd = (\<lambda>x h. if h_links h (vx_Name x) \<noteq> None then (Some 17, h)
         else (None, h\<lparr>h_links := (h_links h)(vx_Name x \<mapsto>
            \<lparr>kl_link = \<lparr>Index = int (length (h_names h)) + 1, lk_Name = vx_Name x, lk_FlagUp = False,
                        OperState = OperDown, Statistics = None\<rparr>,
             kl_vxlan = Some x, kl_mac = [], kl_addrs = []\<rparr>), h_names := h_names h @ [vx_Name x]\<rparr>)),
      LinkDel = (\<lambda>l h. if h_links h (lk_Name l) = None then (Some 19, h)
         else (None, h\<lparr>h_links := (h_links h)(lk_Name l := None),
                       h_names := filter (\<lambda>n. n \<noteq> lk_Name l) (h_names h)\<rparr>)),
      LinkSetHardwareAddr = (\<lambda>l m h. case h_links h (lk_Name l) of
         None \<Rightarrow> (Some 19, h)
       | Some k \<Rightarrow> (None, h\<lparr>h_links := (h_links h)(lk_Name l \<mapsto> k\<lparr>kl_mac := m\<rparr>)\<rparr>)),
      LinkSetUp = (\<lambda>l h. case h_links h (lk_Name l) of
         None \<Rightarrow> (Some 19, h)
       | Some k \<Rightarrow> (None, h\<lparr>h_links :=
            (h_links h)(lk_Name l \<mapsto> k\<lparr>kl_link := (kl_link k)\<lparr>lk_FlagUp := True\<rparr>\<rparr>)\<rparr>)),
      LinkList = (\<lambda>h. (Inr (List.map_filter (\<lambda>n. map_option kl_link (h_links h n)) (h_names h)), h)),
      AddrList = (\<lambda>l f h. (case h_links h (lk_Name l) of None \<Rightarrow> Inl 19 | Some k \<Rightarrow> Inr (kl_addrs k), h)),
      NeighList = (\<lambda>i f h. (Inr [], h)),
      RouteList = (\<lambda>l f h. (Inr [], h))\<rparr>"

definition host0 :: host where
  "host0 = \<lparr>h_kernel = \<lparr>kroutes = Map.empty, karp = Map.empty, kfdb = Map.empty\<rparr>,
            h_links = Map.empty, h_names = []\<rparr>"

lemma linux_laws: "kernel_laws linux h_kernel"
  by (auto simp: kernel_laws_def atomic_requests_def route_laws_def neigh_laws_def linux_def
      af_inet_def af_bridge_def split: if_splits option.splits)

lemma linux_fdb_del: "fdb_del_law linux"
  by (simp add: fdb_del_law_def linux_def af_inet_def af_bridge_def)

lemma linux_link_laws: "link_laws linux h_links"
proof -
  have add: "\<exists>k'. kl_vxlan k' = Some x \<and> lk_Name (kl_link k') = vx_Name x \<and> m(vx_Name x \<mapsto> k) = m(vx_Name x \<mapsto> k')"
    if "kl_vxlan k = Some x" "lk_Name (kl_link k) = vx_Name x" for k x and m :: "string \<rightharpoonup> klink"
    using that by blast
  show ?thesis
    by (auto simp: link_laws_def link_query_laws_def link_change_laws_def linux_def
        split: if_splits option.splits intro!: add)
qed

end
