(* ===== verification/Vxlan_Interface.thy ===== *)
theory Vxlan_Interface
  imports Netlink Go_Sha256
begin

unbundle bit_operations_syntax

text \<open>
  \<^verbatim>\<open>internal/vxlan/interface.go\<close>: the life cycle of the VXLAN interface.  \<open>Setup\<close> checks that the
  kernel forwards packets, removes a left-over interface, creates a new one, gives it a MAC address
  derived from the node's IP address and brings it up; \<open>Teardown\<close> deletes it.  The file
  \<^verbatim>\<open>/proc/sys/net/ipv4/ip_forward\<close> is read through the parameter \<open>readFile\<close> (\<^verbatim>\<open>os.ReadFile\<close>).
\<close>

definition IPForwardingPath :: string where
  "IPForwardingPath = ''/proc/sys/net/ipv4/ip_forward''"

definition DefaultVXLANInterface :: string where
  "DefaultVXLANInterface = ''hybrid_vxlan0''"

definition DefaultVNI :: int where "DefaultVNI = 2"

definition DefaultPort :: int where "DefaultPort = 8472"

record Config =
  InterfaceName :: string
  VNI :: int
  Port :: int
  LocalIP :: IP

record Interface =
  if_config :: Config
  if_link :: "Link option"
  if_mac :: string

datatype iface_error =
    ForwardingUnreadable string errno
  | ForwardingDisabled string
  | DeleteExisting errno
  | CreateFailed errno
  | GetLinkFailed errno
  | SetMACFailed errno
  | BringUpFailed errno
  | DeleteFailed errno

definition NewInterface :: "Config \<Rightarrow> Interface" where
  "NewInterface c = \<lparr>if_config = c, if_link = None, if_mac = []\<rparr>"

definition NewInterfaceWithMAC :: "string \<Rightarrow> Interface" where
  "NewInterfaceWithMAC m =
     \<lparr>if_config = \<lparr>InterfaceName = [], VNI = 0, Port = 0, LocalIP = []\<rparr>, if_link = None, if_mac = m\<rparr>"

definition CheckIPForwarding :: "(string \<Rightarrow> 'w \<Rightarrow> errno + string) \<Rightarrow> string \<Rightarrow> 'w \<Rightarrow> iface_error option" where
  "CheckIPForwarding readFile path w =
     (case readFile path w of
        Inl err \<Rightarrow> Some (ForwardingUnreadable path err)
      | Inr dat \<Rightarrow> if TrimSpace dat \<noteq> ''1'' then Some (ForwardingDisabled path) else None)"

definition generateDeterministicMAC :: "IP \<Rightarrow> HardwareAddr" where
  "generateDeterministicMAC ip =
     (let hash = Sum256 ip;
          mac = take 6 hash
      in mac[0 := (mac ! 0 AND 0xFE) OR 0x02])"

definition GetLink :: "Interface \<Rightarrow> Link option" where
  "GetLink i = if_link i"

definition GetMac :: "Interface \<Rightarrow> string" where
  "GetMac i = if_mac i"

text \<open>The first part of \<open>Setup\<close>: delete the interface if it exists; any lookup error means it does not.\<close>

definition delete_existing :: "'w netlink \<Rightarrow> string \<Rightarrow> 'w \<Rightarrow> iface_error option \<times> 'w" where
  "delete_existing nl name w =
     (case LinkByName nl name w of
        (Inl _, w1) \<Rightarrow> (None, w1)
      | (Inr existing, w1) \<Rightarrow>
          (case LinkDel nl existing w1 of
             (Some err, w2) \<Rightarrow> (Some (DeleteExisting err), w2)
           | (None, w2) \<Rightarrow> (None, w2)))"

definition Setup ::
  "(string \<Rightarrow> 'w \<Rightarrow> errno + string) \<Rightarrow> 'w netlink \<Rightarrow> Interface \<Rightarrow> 'w \<Rightarrow>
     iface_error option \<times> Interface \<times> 'w" where
  "Setup readFile nl i w =
     (case CheckIPForwarding readFile IPForwardingPath w of
        Some err \<Rightarrow> (Some err, i, w)
      | None \<Rightarrow>
     (case delete_existing nl (InterfaceName (if_config i)) w of
        (Some err, w1) \<Rightarrow> (Some err, i, w1)
      | (None, w1) \<Rightarrow>
     (let macAddr = generateDeterministicMAC (LocalIP (if_config i));
          vxlanConfig = \<lparr>vx_Name = InterfaceName (if_config i), VxlanId = VNI (if_config i),
                         vx_Port = Port (if_config i), Learning = False, SrcAddr = LocalIP (if_config i)\<rparr>
      in case LinkAdd nl vxlanConfig w1 of
        (Some err, w2) \<Rightarrow> (Some (CreateFailed err), i, w2)
      | (None, w2) \<Rightarrow>
     (case LinkByName nl (InterfaceName (if_config i)) w2 of
        (Inl err, w3) \<Rightarrow> (Some (GetLinkFailed err), i, w3)
      | (Inr link, w3) \<Rightarrow>
     (case LinkSetHardwareAddr nl link macAddr w3 of
        (Some err, w4) \<Rightarrow> (Some (SetMACFailed err), i, w4)
      | (None, w4) \<Rightarrow>
     (let i' = i\<lparr>if_link := Some link, if_mac := HardwareAddr_String macAddr\<rparr>
      in case LinkSetUp nl link w4 of
        (Some err, w5) \<Rightarrow> (Some (BringUpFailed err), i', w5)
      | (None, w5) \<Rightarrow> (None, i', w5)))))))"

definition Teardown :: "'w netlink \<Rightarrow> Interface \<Rightarrow> 'w \<Rightarrow> iface_error option \<times> 'w" where
  "Teardown nl i w =
     (case if_link i of
        None \<Rightarrow> (None, w)
      | Some link \<Rightarrow>
          (case LinkDel nl link w of
             (Some err, w1) \<Rightarrow> (Some (DeleteFailed err), w1)
           | (None, w1) \<Rightarrow> (None, w1)))"

subsection \<open>The forwarding check\<close>

text \<open>The forwarding check succeeds exactly when the file can be read and holds the single
  character 1 between two (possibly empty) runs of white space.\<close>

theorem CheckIPForwarding_enabled_iff:
  "CheckIPForwarding readFile path w = None \<longleftrightarrow>
     (\<exists>ps qs. set ps \<subseteq> set space_seqs \<and> set qs \<subseteq> set space_seqs
        \<and> readFile path w = Inr (concat ps @ ''1'' @ concat qs))"
proof -
  have one: "trimmed ''1''" "graphic (hd ''1'')"
    by (simp_all add: trimmed_graphic graphic_def)
  have "TrimSpace d = ''1'' \<longleftrightarrow> (\<exists>ps qs. set ps \<subseteq> set space_seqs \<and> set qs \<subseteq> set space_seqs \<and> d = concat ps @ ''1'' @ concat qs)" for d
    using TrimSpace_strips [of d] TrimSpace_pad [OF _ _ one(1) _ one(2)] by (metis list.discI)
  then show ?thesis
    by (auto simp: CheckIPForwarding_def split: sum.splits)
qed

subsection \<open>The MAC address\<close>

lemma generateDeterministicMAC_Cons:
  "\<exists>b bs. take 6 (Sum256 ip) = b # bs \<and> generateDeterministicMAC ip = ((b AND 0xFE) OR 0x02) # bs"
proof -
  obtain b bs where "take 6 (Sum256 ip) = b # bs"
    using length_Sum256 [of ip] by (cases "take 6 (Sum256 ip)") auto
  moreover from this have "Sum256 ip ! 0 = b" by (metis nth_Cons_0 nth_take zero_less_numeral)
  ultimately show ?thesis by (simp add: generateDeterministicMAC_def Let_def)
qed

text \<open>The MAC address of the VXLAN interface has six bytes and marks a locally administered
  (bit 1 set) unicast (bit 0 clear) address; all its other bits are those of the SHA-256 digest of
  the node address.\<close>

theorem generateDeterministicMAC_local_unicast:
  "length (generateDeterministicMAC ip) = 6
   \<and> \<not> bit (generateDeterministicMAC ip ! 0) 0 \<and> bit (generateDeterministicMAC ip ! 0) 1
   \<and> drop_bit 2 (generateDeterministicMAC ip ! 0) = drop_bit 2 (Sum256 ip ! 0)
   \<and> tl (generateDeterministicMAC ip) = take 5 (tl (Sum256 ip))"
proof -
  obtain b bs where *: "take 6 (Sum256 ip) = b # bs" "generateDeterministicMAC ip = ((b AND 0xFE) OR 0x02) # bs"
    using generateDeterministicMAC_Cons by blast
  have "length (take 6 (Sum256 ip)) = 6" by (simp add: length_Sum256)
  with *(1) have l: "length (b # bs) = 6" by simp
  have b: "Sum256 ip ! 0 = b" using *(1) by (metis nth_Cons_0 nth_take zero_less_numeral)
  have t: "bs = take 5 (tl (Sum256 ip))" using *(1) by (cases "Sum256 ip") auto
  have "bit (63 :: u8) n" if "n < 6" for n
  proof -
    from that have "n = 0 \<or> n = 1 \<or> n = 2 \<or> n = 3 \<or> n = 4 \<or> n = 5" by linarith
    then show ?thesis by auto
  qed
  then have "drop_bit 2 ((b AND 0xFE) OR 0x02) = drop_bit 2 b"
    by (intro bit_word_eqI) (auto simp: bit_simps dest: bit_imp_le_length)
  moreover have "\<not> bit ((b AND 0xFE) OR 0x02) 0" "bit ((b AND 0xFE) OR 0x02) 1" for b :: u8
    by (simp_all add: bit_simps)
  ultimately show ?thesis using * l b t by simp
qed

subsection \<open>Setup and Teardown\<close>

lemma delete_existing_links:
  assumes "link_laws nl lv" "delete_existing nl name w = (None, w')"
  shows "\<forall>n. n \<noteq> name \<longrightarrow> lv w' n = lv w n"
  using assms(2) link_lawsD(1,2,3) [OF assms(1)]
  by (auto simp: delete_existing_def split: prod.splits sum.splits option.splits)

lemma Setup_success:
  assumes "Setup readFile nl i w = (None, i', w')"
  obtains w1 w2 w3 w4 l where
    "CheckIPForwarding readFile IPForwardingPath w = None"
    "delete_existing nl (InterfaceName (if_config i)) w = (None, w1)"
    "LinkAdd nl \<lparr>vx_Name = InterfaceName (if_config i), VxlanId = VNI (if_config i), vx_Port = Port (if_config i),
                 Learning = False, SrcAddr = LocalIP (if_config i)\<rparr> w1 = (None, w2)"
    "LinkByName nl (InterfaceName (if_config i)) w2 = (Inr l, w3)"
    "LinkSetHardwareAddr nl l (generateDeterministicMAC (LocalIP (if_config i))) w3 = (None, w4)"
    "LinkSetUp nl l w4 = (None, w')"
    "i' = i\<lparr>if_link := Some l, if_mac := HardwareAddr_String (generateDeterministicMAC (LocalIP (if_config i)))\<rparr>"
  using assms by (auto simp: Setup_def Let_def split: option.splits prod.splits sum.splits)

lemma Setup_interface:
  assumes "link_laws nl lv" and "Setup readFile nl i w = (None, i', w')"
  defines "c \<equiv> if_config i"
  shows "(\<exists>k. lv w' (InterfaceName c) = Some k \<and> lk_FlagUp (kl_link k)
            \<and> kl_vxlan k = Some \<lparr>vx_Name = InterfaceName c, VxlanId = VNI c, vx_Port = Port c,
                                  Learning = False, SrcAddr = LocalIP c\<rparr>
            \<and> kl_mac k = generateDeterministicMAC (LocalIP c))
         \<and> GetMac i' = HardwareAddr_String (generateDeterministicMAC (LocalIP c))
         \<and> (\<exists>l. GetLink i' = Some l \<and> lk_Name l = InterfaceName c)
         \<and> (\<forall>n. n \<noteq> InterfaceName c \<longrightarrow> lv w' n = lv w n)"
proof -
  note L = link_lawsD [OF assms(1)]
  from assms(2) obtain w1 w2 w3 w4 l where
    s: "delete_existing nl (InterfaceName c) w = (None, w1)"
      "LinkAdd nl \<lparr>vx_Name = InterfaceName c, VxlanId = VNI c, vx_Port = Port c, Learning = False, SrcAddr = LocalIP c\<rparr> w1 = (None, w2)"
      "LinkByName nl (InterfaceName c) w2 = (Inr l, w3)"
      "LinkSetHardwareAddr nl l (generateDeterministicMAC (LocalIP c)) w3 = (None, w4)"
      "LinkSetUp nl l w4 = (None, w')"
      "i' = i\<lparr>if_link := Some l, if_mac := HardwareAddr_String (generateDeterministicMAC (LocalIP c))\<rparr>"
    unfolding c_def by (rule Setup_success)
  have n: "lk_Name l = InterfaceName c" "lv w3 = lv w2" using L(1,2) [OF s(3)] by simp_all
  from L(4) [OF s(2)] obtain k where k: "kl_vxlan k = Some \<lparr>vx_Name = InterfaceName c, VxlanId = VNI c,
      vx_Port = Port c, Learning = False, SrcAddr = LocalIP c\<rparr>" "lv w2 = (lv w1)(InterfaceName c \<mapsto> k)" by auto
  from L(5) [OF s(4)] n k(2) have w4: "lv w4 = (lv w1)(InterfaceName c \<mapsto> k\<lparr>kl_mac := generateDeterministicMAC (LocalIP c)\<rparr>)"
    by auto
  from L(6) [OF s(5)] n(1) w4 have w': "lv w' = (lv w1)(InterfaceName c \<mapsto>
      k\<lparr>kl_mac := generateDeterministicMAC (LocalIP c), kl_link := (kl_link k)\<lparr>lk_FlagUp := True\<rparr>\<rparr>)"
    by auto
  with k n s(6) delete_existing_links [OF assms(1) s(1)] show ?thesis
    by (simp add: GetMac_def GetLink_def)
qed

text \<open>C32: After a successful Setup the kernel has an interface of the configured name that is up, is a
  VXLAN device with the configured network identifier, port and source address and without
  learning, and carries the MAC address derived from the node address; the same MAC address is
  what GetMac reports, GetLink is set, and no other interface has changed.\<close>

theorem Setup_creates_interface:
  assumes "link_laws nl lv" and "Setup readFile nl i w = (None, i', w')"
  shows "(\<exists>k. lv w' (InterfaceName (if_config i)) = Some k \<and> lk_FlagUp (kl_link k)
            \<and> kl_vxlan k = Some \<lparr>vx_Name = InterfaceName (if_config i), VxlanId = VNI (if_config i), vx_Port = Port (if_config i),
                                  Learning = False, SrcAddr = LocalIP (if_config i)\<rparr>
            \<and> kl_mac k = generateDeterministicMAC (LocalIP (if_config i)))
         \<and> GetMac i' = HardwareAddr_String (generateDeterministicMAC (LocalIP (if_config i)))
         \<and> (\<exists>l. GetLink i' = Some l \<and> lk_Name l = InterfaceName (if_config i))
         \<and> (\<forall>n. n \<noteq> InterfaceName (if_config i) \<longrightarrow> lv w' n = lv w n)"
  using assms by (rule Setup_interface)

text \<open>A failed Setup leaves the interface object untouched unless it failed to bring the new
  interface up, in which case the object already refers to the created interface; when IP
  forwarding is not enabled nothing at all has been changed.\<close>

theorem Setup_error_state:
  assumes "Setup readFile nl i w = (Some e, i', w')"
  shows "(case e of
            BringUpFailed _ \<Rightarrow> GetLink i' \<noteq> None \<and> GetMac i' = HardwareAddr_String (generateDeterministicMAC (LocalIP (if_config i)))
          | ForwardingUnreadable _ _ \<Rightarrow> i' = i \<and> w' = w
          | ForwardingDisabled _ \<Rightarrow> i' = i \<and> w' = w
          | DeleteFailed _ \<Rightarrow> False
          | _ \<Rightarrow> i' = i)
         \<and> if_config i' = if_config i"
  using assms
  by (auto simp: Setup_def Let_def delete_existing_def GetLink_def GetMac_def CheckIPForwarding_def
      split: option.splits prod.splits sum.splits if_splits)

text \<open>C33: Tearing down the interface that Setup created removes it again, and nothing else:
  afterwards the kernel has the links it had before, without one of the configured name.\<close>

theorem Teardown_after_Setup:
  assumes "link_laws nl lv" and "Setup readFile nl i w = (None, i', w1)" and "Teardown nl i' w1 = (None, w2)"
  shows "lv w2 = (lv w)(InterfaceName (if_config i) := None)"
proof -
  from Setup_interface [OF assms(1,2)] obtain l where
    l: "if_link i' = Some l" "lk_Name l = InterfaceName (if_config i)"
    and o: "\<forall>n. n \<noteq> InterfaceName (if_config i) \<longrightarrow> lv w1 n = lv w n" by (auto simp: GetLink_def)
  from assms(3) l(1) have "LinkDel nl l w1 = (None, w2)"
    by (auto simp: Teardown_def split: prod.splits option.splits)
  with link_lawsD(3) [OF assms(1)] l(2) o show ?thesis by (auto simp: fun_eq_iff)
qed

subsection \<open>Witnesses\<close>

definition example_config :: Config where
  "example_config = \<lparr>InterfaceName = DefaultVXLANInterface, VNI = DefaultVNI, Port = DefaultPort,
                     LocalIP = v4InV6Prefix @ [10, 0, 2, 99]\<rparr>"

definition forwarding_on :: "string \<Rightarrow> 'w \<Rightarrow> errno + string" where
  "forwarding_on path w = Inr ''1''"

lemma forwarding_on_check: "CheckIPForwarding forwarding_on path w = None"
  by (simp add: CheckIPForwarding_def forwarding_on_def TrimSpace_fixed trimmed_graphic graphic_def)

lemma example_Setup:
  "\<exists>i' w'. Setup forwarding_on linux (NewInterface example_config) host0 = (None, i', w')
           \<and> fst (Teardown linux i' w') = None"
  by (simp add: Setup_def forwarding_on_check delete_existing_def linux_def host0_def NewInterface_def
      example_config_def Teardown_def Let_def)

theorem Setup_creates_interface_witness:
  "\<exists>i' w' k. Setup forwarding_on linux (NewInterface example_config) host0 = (None, i', w')
     \<and> h_links w' DefaultVXLANInterface = Some k \<and> lk_FlagUp (kl_link k)"
proof -
  obtain i' w' where "Setup forwarding_on linux (NewInterface example_config) host0 = (None, i', w')"
    using example_Setup by blast
  with Setup_creates_interface [OF linux_link_laws this] show ?thesis
    by (auto simp: NewInterface_def example_config_def)
qed

theorem Setup_error_state_witness:
  "Setup (\<lambda>_ _. Inr ''0'') linux (NewInterface example_config) host0
     = (Some (ForwardingDisabled IPForwardingPath), NewInterface example_config, host0)"
proof -
  obtain e i' w' where *: "Setup (\<lambda>_ _. Inr ''0'') linux (NewInterface example_config) host0 = (Some e, i', w')"
    and e: "e = ForwardingDisabled IPForwardingPath"
    by (simp add: Setup_def CheckIPForwarding_def TrimSpace_fixed trimmed_graphic graphic_def)
  from Setup_error_state [OF *] e * show ?thesis by simp
qed

theorem Teardown_after_Setup_witness:
  "\<exists>i' w1 w2. Setup forwarding_on linux (NewInterface example_config) host0 = (None, i', w1)
     \<and> Teardown linux i' w1 = (None, w2) \<and> h_links w2 = (h_links host0)(DefaultVXLANInterface := None)"
proof -
  obtain i' w1 where s: "Setup forwarding_on linux (NewInterface example_config) host0 = (None, i', w1)"
    and "fst (Teardown linux i' w1) = None" using example_Setup by blast
  then obtain w2 where t: "Teardown linux i' w1 = (None, w2)" by (metis prod.collapse)
  from Teardown_after_Setup [OF linux_link_laws s t] s t show ?thesis
    by (simp add: NewInterface_def example_config_def)
qed

end
