(* ===== verification/Cilium_Config.thy ===== *)
theory Cilium_Config
  imports Vxlan_Interface
begin

text \<open>
  \<^verbatim>\<open>internal/cilium/vtep.go\<close>: the cluster-wide \<^verbatim>\<open>CiliumVTEPConfig\<close> object through which the leader tells
  the hybrid nodes where to send VPC traffic.  Objects are unstructured trees (\<open>val\<close>).  Their accessors
  and the Kubernetes client are third-party code: the records \<open>unstruct\<close> and \<open>k8s\<close>, with the documented
  behaviour of the accessors in \<open>unstruct_laws\<close> and of the API server in \<open>api_laws\<close>.
\<close>

datatype val = VNull | VBool bool | VInt int | VString string | VSlice "val list" | VMap "string \<rightharpoonup> val"

type_synonym obj = "string \<rightharpoonup> val"

record GroupVersionKind =
  Group :: string
  Version :: string
  Kind :: string

datatype k8s_error = NotFound | AlreadyExists | Conflict | ApiError string

record unstruct =
  NestedSlice :: "obj \<Rightarrow> string list \<Rightarrow> val list \<times> bool"
  NestedString :: "obj \<Rightarrow> string list \<Rightarrow> string \<times> bool"
  SetGroupVersionKind :: "GroupVersionKind \<Rightarrow> obj \<Rightarrow> obj"
  SetCreationTimestamp :: "nat \<Rightarrow> obj \<Rightarrow> obj"
  SetResourceVersion :: "string \<Rightarrow> obj \<Rightarrow> obj"
  SetName :: "string \<Rightarrow> obj \<Rightarrow> obj"
  GetResourceVersion :: "obj \<Rightarrow> string"

record 'w k8s =
  Get :: "GroupVersionKind \<Rightarrow> string \<Rightarrow> 'w \<Rightarrow> (k8s_error + obj) \<times> 'w"
  Create :: "obj \<Rightarrow> 'w \<Rightarrow> k8s_error option \<times> 'w"
  Update :: "obj \<Rightarrow> 'w \<Rightarrow> k8s_error option \<times> 'w"

datatype upsert_error = GettingError k8s_error | CreatingError k8s_error | UpdatingError k8s_error

definition ciliumVTEPConfigGVK :: GroupVersionKind where
  "ciliumVTEPConfigGVK = \<lparr>Group = ''cilium.io'', Version = ''v2'', Kind = ''CiliumVTEPConfig''\<rparr>"

definition CiliumVTEPConfigName :: string where "CiliumVTEPConfigName = ''hybrid-gateway''"

definition vtepEndpointName :: string where "vtepEndpointName = ''vpc-gateway''"

subsection \<open>The desired object\<close>

definition endpoint_name :: "nat \<Rightarrow> nat \<Rightarrow> string" where
  "endpoint_name n i = (if n > 1 then vtepEndpointName @ ''-'' @ dec i else vtepEndpointName)"

definition endpoint :: "string \<Rightarrow> string \<Rightarrow> string \<Rightarrow> string \<Rightarrow> val" where
  "endpoint name ip mac cidr =
     VMap [''name'' \<mapsto> VString name, ''tunnelEndpoint'' \<mapsto> VString ip, ''cidr'' \<mapsto> VString cidr, ''mac'' \<mapsto> VString mac]"

fun endpoints_from :: "nat \<Rightarrow> nat \<Rightarrow> string \<Rightarrow> string \<Rightarrow> string list \<Rightarrow> val list" where
  "endpoints_from n i ip mac [] = []"
| "endpoints_from n i ip mac (cidr # cidrs) =
     endpoint (endpoint_name n i) ip mac cidr # endpoints_from n (Suc i) ip mac cidrs"

definition desired_config :: "string \<Rightarrow> string \<Rightarrow> string list \<Rightarrow> obj" where
  "desired_config ip mac cidrs =
     [''apiVersion'' \<mapsto> VString ''cilium.io/v2'',
      ''kind'' \<mapsto> VString ''CiliumVTEPConfig'',
      ''metadata'' \<mapsto> VMap [''name'' \<mapsto> VString CiliumVTEPConfigName],
      ''spec'' \<mapsto> VMap [''endpoints'' \<mapsto> VSlice (endpoints_from (length cidrs) 0 ip mac cidrs)]]"

subsection \<open>Comparing and writing\<close>

text \<open>The loop of \<open>needsUpdate\<close> over the CIDRs and the endpoints at the same index.\<close>

fun endpoint_differs :: "unstruct \<Rightarrow> string \<Rightarrow> string \<Rightarrow> val list \<Rightarrow> nat \<Rightarrow> string list \<Rightarrow> bool" where
  "endpoint_differs u ip mac eps i [] = False"
| "endpoint_differs u ip mac eps i (cidr # cidrs) =
     (case eps ! i of
        VMap ep \<Rightarrow>
          if fst (NestedString u ep [''tunnelEndpoint'']) \<noteq> ip
             \<or> fst (NestedString u ep [''mac'']) \<noteq> mac
             \<or> fst (NestedString u ep [''cidr'']) \<noteq> cidr
          then True
          else endpoint_differs u ip mac eps (Suc i) cidrs
      | _ \<Rightarrow> True)"

definition needsUpdate :: "unstruct \<Rightarrow> obj \<Rightarrow> string \<Rightarrow> string \<Rightarrow> string list \<Rightarrow> bool" where
  "needsUpdate u existing ip mac cidrs =
     (let (eps, found) = NestedSlice u existing [''spec'', ''endpoints''] in
      if \<not> found \<or> length eps \<noteq> length cidrs then True
      else endpoint_differs u ip mac eps 0 cidrs)"

definition UpsertCiliumVTEPConfig ::
  "unstruct \<Rightarrow> 'w k8s \<Rightarrow> Interface \<Rightarrow> IP \<Rightarrow> string list \<Rightarrow> 'w \<Rightarrow> upsert_error option \<times> 'w" where
  "UpsertCiliumVTEPConfig u k vxlanIface nodeIP vpcCIDRs w =
     (let macAddr = GetMac vxlanIface;
          desired = desired_config (IP_String nodeIP) macAddr vpcCIDRs
      in case Get k ciliumVTEPConfigGVK CiliumVTEPConfigName w of
        (Inl err, w1) \<Rightarrow>
          if err \<noteq> NotFound then (Some (GettingError err), w1)
          else
            (let desired1 = SetCreationTimestamp u 0 (SetGroupVersionKind u ciliumVTEPConfigGVK desired)
             in case Create k desired1 w1 of
               (Some createErr, w2) \<Rightarrow>
                 if createErr = AlreadyExists then (None, w2) else (Some (CreatingError createErr), w2)
             | (None, w2) \<Rightarrow> (None, w2))
      | (Inr existing, w1) \<Rightarrow>
          if \<not> needsUpdate u existing (IP_String nodeIP) macAddr vpcCIDRs then (None, w1)
          else
            (let desired1 = SetName u CiliumVTEPConfigName (SetResourceVersion u (GetResourceVersion u existing)
                              (SetGroupVersionKind u ciliumVTEPConfigGVK desired))
             in case Update k desired1 w1 of
               (Some updateErr, w2) \<Rightarrow> (Some (UpdatingError updateErr), w2)
             | (None, w2) \<Rightarrow> (None, w2)))"

subsection \<open>What the accessors promise\<close>

definition nested :: "obj \<Rightarrow> string \<Rightarrow> string \<rightharpoonup> val" where
  "nested obj a b = (case obj a of Some (VMap m) \<Rightarrow> m b | _ \<Rightarrow> None)"

definition unstruct_laws :: "unstruct \<Rightarrow> bool" where
  "unstruct_laws u \<longleftrightarrow>
     (\<forall>obj a b. NestedSlice u obj [a, b] =
        (case nested obj a b of Some (VSlice vs) \<Rightarrow> (vs, True) | _ \<Rightarrow> ([], False))) \<and>
     (\<forall>obj a. NestedString u obj [a] = (case obj a of Some (VString s) \<Rightarrow> (s, True) | _ \<Rightarrow> ([], False))) \<and>
     (\<forall>x obj. SetGroupVersionKind u x obj ''spec'' = obj ''spec'' \<and> SetCreationTimestamp u 0 obj ''spec'' = obj ''spec'') \<and>
     (\<forall>x obj. SetResourceVersion u x obj ''spec'' = obj ''spec'' \<and> SetName u x obj ''spec'' = obj ''spec'') \<and>
     (\<forall>v n obj. GetResourceVersion u (SetName u n (SetResourceVersion u v obj)) = v)"

text \<open>What it means that a stored object tells Cilium to reach the CIDRs through this gateway.\<close>

definition advertised :: "string \<Rightarrow> string \<Rightarrow> val \<Rightarrow> string \<Rightarrow> bool" where
  "advertised ip mac ep cidr \<longleftrightarrow>
     (\<exists>m. ep = VMap m \<and> m ''tunnelEndpoint'' = Some (VString ip) \<and> m ''mac'' = Some (VString mac)
        \<and> m ''cidr'' = Some (VString cidr))"

definition advertises :: "obj \<Rightarrow> string \<Rightarrow> string \<Rightarrow> string list \<Rightarrow> bool" where
  "advertises obj ip mac cidrs \<longleftrightarrow>
     (\<exists>eps. nested obj ''spec'' ''endpoints'' = Some (VSlice eps) \<and> list_all2 (advertised ip mac) eps cidrs)"

lemma advertised_simps [simp]:
  "advertised ip mac (VMap m) c \<longleftrightarrow>
     m ''tunnelEndpoint'' = Some (VString ip) \<and> m ''mac'' = Some (VString mac) \<and> m ''cidr'' = Some (VString c)"
  "\<not> advertised ip mac VNull c" "\<not> advertised ip mac (VBool b) c" "\<not> advertised ip mac (VInt n) c"
  "\<not> advertised ip mac (VString str) c" "\<not> advertised ip mac (VSlice vs) c"
  by (simp_all add: advertised_def)

lemma advertises_spec: "obj ''spec'' = obj' ''spec'' \<Longrightarrow> advertises obj = advertises obj'"
  by (simp add: advertises_def nested_def fun_eq_iff)

lemma length_endpoints_from [simp]: "length (endpoints_from n i ip mac cidrs) = length cidrs"
  by (induction cidrs arbitrary: i) auto

lemma endpoints_from_advertised: "list_all2 (advertised ip mac) (endpoints_from n i ip mac cidrs) cidrs"
  by (induction cidrs arbitrary: i) (auto simp: endpoint_def)

lemma desired_config_advertises: "advertises (desired_config ip mac cidrs) ip mac cidrs"
  by (simp add: advertises_def nested_def desired_config_def endpoints_from_advertised)

definition ep_name :: "val \<Rightarrow> val option" where
  "ep_name ep = (case ep of VMap m \<Rightarrow> m ''name'' | _ \<Rightarrow> None)"

lemma ep_names_from:
  "map ep_name (endpoints_from n i ip mac cidrs) =
     map (\<lambda>j. Some (VString (endpoint_name n j))) [i..<i + length cidrs]"
  by (induction cidrs arbitrary: i) (simp_all add: ep_name_def endpoint_def upt_conv_Cons del: upt_Suc)

text \<open>The object the leader writes has one endpoint per VPC CIDR, in order, each with the leader's IP and
  MAC address, and no two endpoints have the same name.\<close>

theorem desired_config_endpoints:
  "\<exists>eps. nested (desired_config ip mac cidrs) ''spec'' ''endpoints'' = Some (VSlice eps)
     \<and> list_all2 (advertised ip mac) eps cidrs \<and> distinct (map ep_name eps)"
proof -
  have "distinct (map ep_name (endpoints_from (length cidrs) 0 ip mac cidrs))"
    unfolding ep_names_from
    by (auto simp: distinct_map inj_on_def endpoint_name_def)
  then show ?thesis
    by (simp add: nested_def desired_config_def endpoints_from_advertised)
qed

lemma endpoint_differs_iff:
  assumes u: "unstruct_laws u" and ne: "ip \<noteq> []" "mac \<noteq> []" "[] \<notin> set cidrs"
    and len: "length eps = i + length cidrs"
  shows "endpoint_differs u ip mac eps i cidrs \<longleftrightarrow> \<not> list_all2 (advertised ip mac) (drop i eps) cidrs"
  using ne(3) len
proof (induction cidrs arbitrary: i)
  case Nil
  then show ?case by simp
next
  case (Cons c cidrs)
  have d: "drop i eps = eps ! i # drop (Suc i) eps" using Cons.prems by (simp add: Cons_nth_drop_Suc)
  have str: "fst (NestedString u m [a]) = s \<longleftrightarrow> m a = Some (VString s)" if "s \<noteq> []" for m a s
    using u that by (auto simp: unstruct_laws_def split: option.splits val.splits)
  have ih: "endpoint_differs u ip mac eps (Suc i) cidrs \<longleftrightarrow> \<not> list_all2 (advertised ip mac) (drop (Suc i) eps) cidrs"
    using Cons.prems by (intro Cons.IH) auto
  from Cons.prems have c: "c \<noteq> []" by auto
  show ?case
  proof (cases "eps ! i")
    case (VMap m)
    then show ?thesis unfolding d
      using str [OF ne(1), of m] str [OF ne(2), of m] str [OF c, of m] ih by auto
  qed (simp_all add: d)
qed

lemma needsUpdate_advertises:
  assumes u: "unstruct_laws u" and ne: "ip \<noteq> []" "mac \<noteq> []" "[] \<notin> set cidrs"
  shows "needsUpdate u existing ip mac cidrs \<longleftrightarrow> \<not> advertises existing ip mac cidrs"
proof (cases "\<exists>eps. nested existing ''spec'' ''endpoints'' = Some (VSlice eps)")
  case True
  then obtain eps where eps: "nested existing ''spec'' ''endpoints'' = Some (VSlice eps)" by blast
  with u have n: "NestedSlice u existing [''spec'', ''endpoints''] = (eps, True)" by (simp add: unstruct_laws_def)
  show ?thesis
    using endpoint_differs_iff [OF u ne, of eps 0] list_all2_lengthD [of "advertised ip mac" eps cidrs]
    by (auto simp: needsUpdate_def n advertises_def eps)
next
  case False
  with u have "NestedSlice u existing [''spec'', ''endpoints''] = ([], False)"
    by (auto simp: unstruct_laws_def split: option.splits val.splits)
  with False show ?thesis by (auto simp: needsUpdate_def advertises_def)
qed

text \<open>C25: needsUpdate is exact: it asks for a write precisely when the stored object does not have, CIDR by
  CIDR and in order, an endpoint with the expected tunnel address, MAC address and CIDR.  Endpoint names
  do not matter to it.\<close>

theorem needsUpdate_iff:
  assumes "unstruct_laws u" and "ip \<noteq> []" and "mac \<noteq> []" and "[] \<notin> set cidrs"
  shows "needsUpdate u existing ip mac cidrs \<longleftrightarrow> \<not> advertises existing ip mac cidrs"
  using assms by (rule needsUpdate_advertises)

subsection \<open>What the API server promises\<close>

text \<open>
  The view \<open>store\<close> is the object as the server has it.  A read may come from a cache and be out of
  date; only \<open>get_fresh\<close> says that it is not.  An update takes effect only if the object still has the
  resource version of the request.  A write that fails may have taken effect all the same, when only its answer
  was lost.
\<close>

definition api_laws :: "unstruct \<Rightarrow> 'w k8s \<Rightarrow> ('w \<Rightarrow> obj option) \<Rightarrow> bool" where
  "api_laws u k store \<longleftrightarrow>
     (\<forall>g n w r w'. Get k g n w = (r, w') \<longrightarrow> store w' = store w) \<and>
     (\<forall>ob w r w'. Create k ob w = (r, w') \<longrightarrow>
        store w = None \<and> (\<exists>ob'. store w' = Some ob' \<and> ob' ''spec'' = ob ''spec'')
        \<or> r \<noteq> None \<and> store w' = store w) \<and>
     (\<forall>ob w r w'. Update k ob w = (r, w') \<longrightarrow>
        (\<exists>old ob'. store w = Some old \<and> GetResourceVersion u old = GetResourceVersion u ob
           \<and> store w' = Some ob' \<and> ob' ''spec'' = ob ''spec'')
        \<or> r \<noteq> None \<and> store w' = store w)"

definition get_fresh :: "'w k8s \<Rightarrow> ('w \<Rightarrow> obj option) \<Rightarrow> bool" where
  "get_fresh k store \<longleftrightarrow>
     (\<forall>w. fst (Get k ciliumVTEPConfigGVK CiliumVTEPConfigName w) =
        (case store w of None \<Rightarrow> Inl NotFound | Some ob \<Rightarrow> Inr ob))"

definition api_up :: "unstruct \<Rightarrow> 'w k8s \<Rightarrow> ('w \<Rightarrow> obj option) \<Rightarrow> bool" where
  "api_up u k store \<longleftrightarrow>
     (\<forall>w ob. store w = None \<longrightarrow> fst (Create k ob w) = None) \<and>
     (\<forall>w ob old. store w = Some old \<longrightarrow> GetResourceVersion u old = GetResourceVersion u ob \<longrightarrow> fst (Update k ob w) = None)"

text \<open>An object that exists is not created again: the request is refused and changes nothing.\<close>

definition create_conflicts :: "'w k8s \<Rightarrow> ('w \<Rightarrow> obj option) \<Rightarrow> bool" where
  "create_conflicts k store \<longleftrightarrow>
     (\<forall>w ob. store w \<noteq> None \<longrightarrow> (\<exists>w'. Create k ob w = (Some AlreadyExists, w') \<and> store w' = store w))"

subsection \<open>Upserting\<close>

lemma Join_not_Nil: "xs \<noteq> [] \<Longrightarrow> [] \<notin> set xs \<Longrightarrow> Join xs c \<noteq> []"
  by (cases xs; cases "tl xs") auto

lemma hex_digits_not_Nil [simp]: "hex_digits n \<noteq> []"
  by (subst hex_digits.simps) simp

lemma appendTo6_not_Nil: "i < 8 \<Longrightarrow> appendTo6 (Suc t) gs zs ze i \<noteq> []"
  by simp

lemma IPv6_String_not_Nil: "IPv6_String ip \<noteq> []"
proof -
  have "appendTo6 8 gs zs ze 0 \<noteq> []" for gs zs ze
    using appendTo6_not_Nil [of 0 7 gs zs ze] by (simp del: appendTo6.simps)
  then show ?thesis by (simp add: IPv6_String_def Let_def split: prod.splits)
qed

lemma IP_String_not_Nil [simp]: "IP_String ip \<noteq> []"
proof (cases "To4 ip")
  case (Some p4)
  then have "IPv4_String p4 \<noteq> []" unfolding IPv4_String_def
    using To4_length [OF Some] by (intro Join_not_Nil) (auto dest: sym)
  with Some show ?thesis by (simp add: IP_String_def)
qed (simp add: IP_String_def IPv6_String_not_Nil)

lemma api_getD: "api_laws u k store \<Longrightarrow> Get k g n w = (r, w') \<Longrightarrow> store w' = store w"
  by (simp add: api_laws_def)

lemma api_createD:
  assumes "api_laws u k store" and "Create k ob w = (r, w')"
  shows "store w = None \<and> (\<exists>ob'. store w' = Some ob' \<and> ob' ''spec'' = ob ''spec'') \<or> r \<noteq> None \<and> store w' = store w"
  using assms by (simp add: api_laws_def)

lemma api_updateD:
  assumes "api_laws u k store" and "Update k ob w = (r, w')"
  shows "(\<exists>old ob'. store w = Some old \<and> GetResourceVersion u old = GetResourceVersion u ob
             \<and> store w' = Some ob' \<and> ob' ''spec'' = ob ''spec'')
         \<or> r \<noteq> None \<and> store w' = store w"
  using assms by (simp add: api_laws_def)

lemma stored_advertises:
  "ob ''spec'' = desired_config ip mac cidrs ''spec'' \<Longrightarrow> advertises ob ip mac cidrs"
  using advertises_spec [of ob "desired_config ip mac cidrs"] by (simp add: desired_config_advertises)

lemma create_object_spec:
  "unstruct_laws u \<Longrightarrow> SetCreationTimestamp u 0 (SetGroupVersionKind u g ob) ''spec'' = ob ''spec''"
  by (simp add: unstruct_laws_def)

lemma update_object:
  assumes "unstruct_laws u"
  shows "SetName u n (SetResourceVersion u v (SetGroupVersionKind u g ob)) ''spec'' = ob ''spec''"
    and "GetResourceVersion u (SetName u n (SetResourceVersion u v (SetGroupVersionKind u g ob))) = v"
  using assms by (simp_all add: unstruct_laws_def)

lemma Upsert_cases:
  assumes "UpsertCiliumVTEPConfig u k i ip cidrs w = (r, w')"
  obtains (get_failed) e where "Get k ciliumVTEPConfigGVK CiliumVTEPConfigName w = (Inl e, w')"
      and "r = Some (GettingError e)" and "e \<noteq> NotFound"
    | (create) w1 r0 where "Get k ciliumVTEPConfigGVK CiliumVTEPConfigName w = (Inl NotFound, w1)"
      and "Create k (SetCreationTimestamp u 0 (SetGroupVersionKind u ciliumVTEPConfigGVK
             (desired_config (IP_String ip) (GetMac i) cidrs))) w1 = (r0, w')"
      and "r = (if r0 = None \<or> r0 = Some AlreadyExists then None else map_option CreatingError r0)"
    | (settled) ob where "Get k ciliumVTEPConfigGVK CiliumVTEPConfigName w = (Inr ob, w')" and "r = None"
      and "\<not> needsUpdate u ob (IP_String ip) (GetMac i) cidrs"
    | (update) ob w1 r0 where "Get k ciliumVTEPConfigGVK CiliumVTEPConfigName w = (Inr ob, w1)"
      and "needsUpdate u ob (IP_String ip) (GetMac i) cidrs"
      and "Update k (SetName u CiliumVTEPConfigName (SetResourceVersion u (GetResourceVersion u ob)
             (SetGroupVersionKind u ciliumVTEPConfigGVK (desired_config (IP_String ip) (GetMac i) cidrs)))) w1 = (r0, w')"
      and "r = map_option UpdatingError r0"
proof -
  obtain g w1 where g: "Get k ciliumVTEPConfigGVK CiliumVTEPConfigName w = (g, w1)" by fastforce
  show thesis
  proof (cases g)
    case (Inl e)
    show thesis
    proof (cases "e = NotFound")
      case True
      with Inl g assms create show thesis
        by (auto simp: UpsertCiliumVTEPConfig_def Let_def split: prod.splits option.splits if_splits)
    qed (use Inl g assms get_failed in \<open>simp add: UpsertCiliumVTEPConfig_def\<close>)
  next
    case (Inr ob)
    show thesis
    proof (cases "needsUpdate u ob (IP_String ip) (GetMac i) cidrs")
      case True
      with Inr g assms update show thesis
        by (auto simp: UpsertCiliumVTEPConfig_def Let_def split: prod.splits option.splits)
    qed (use Inr g assms settled in \<open>simp add: UpsertCiliumVTEPConfig_def\<close>)
  qed
qed

text \<open>C17: UpsertCiliumVTEPConfig is safe even when reads come from an out-of-date cache and when the answer to a write is lost
  after the server has applied it.  The stored object is as it was, or it now advertises this gateway and either did
  not exist before or had the very version that was read, so that no change made in the meantime is overwritten.
  A failed read means that nothing has changed.  And success means that the stored object advertises this gateway,
  unless the read already showed an object that does, or the read found none and the creation was refused with
  AlreadyExists.\<close>

theorem Upsert_safe:
  assumes u: "unstruct_laws u" and args: "GetMac i \<noteq> []" "[] \<notin> set cidrs" and api: "api_laws u k store"
    and run: "UpsertCiliumVTEPConfig u k i ip cidrs w = (r, w')"
  shows "(store w' = store w
      \<or> (\<exists>ob. store w' = Some ob \<and> advertises ob (IP_String ip) (GetMac i) cidrs
          \<and> (store w = None
             \<or> (\<exists>old seen. store w = Some old \<and> fst (Get k ciliumVTEPConfigGVK CiliumVTEPConfigName w) = Inr seen
                  \<and> GetResourceVersion u old = GetResourceVersion u seen))))
    \<and> (\<forall>e. r = Some (GettingError e) \<longrightarrow> store w' = store w)
    \<and> (r = None \<longrightarrow>
         (\<exists>ob. store w' = Some ob \<and> advertises ob (IP_String ip) (GetMac i) cidrs)
         \<or> (\<exists>seen. fst (Get k ciliumVTEPConfigGVK CiliumVTEPConfigName w) = Inr seen
               \<and> advertises seen (IP_String ip) (GetMac i) cidrs)
         \<or> (\<exists>w1 ob. Get k ciliumVTEPConfigGVK CiliumVTEPConfigName w = (Inl NotFound, w1)
               \<and> Create k ob w1 = (Some AlreadyExists, w') \<and> ob ''spec'' = desired_config (IP_String ip) (GetMac i) cidrs ''spec''))"
  using run
proof (cases rule: Upsert_cases)
  case (get_failed e)
  with api_getD [OF api get_failed(1)] show ?thesis by simp
next
  case (create w1 r0)
  note * = api_getD [OF api create(1)] api_createD [OF api create(2)]
  from * create_object_spec [OF u] stored_advertises
  have "(store w = None \<and> (\<exists>ob. store w' = Some ob \<and> advertises ob (IP_String ip) (GetMac i) cidrs))
      \<or> r0 \<noteq> None \<and> store w' = store w" by fastforce
  with create create_object_spec [OF u] show ?thesis by (cases r0) (auto split: if_splits)
next
  case (settled ob)
  with api_getD [OF api settled(1)] needsUpdate_advertises [OF u IP_String_not_Nil args] show ?thesis by simp
next
  case (update ob w1 r0)
  note * = api_getD [OF api update(1)] api_updateD [OF api update(3), unfolded update_object [OF u]]
  from * stored_advertises
  have "(\<exists>old ob'. store w = Some old \<and> GetResourceVersion u old = GetResourceVersion u ob
        \<and> store w' = Some ob' \<and> advertises ob' (IP_String ip) (GetMac i) cidrs)
      \<or> r0 \<noteq> None \<and> store w' = store w" by fastforce
  with update(1,4) show ?thesis by auto
qed

text \<open>When the stored object already advertises this gateway, UpsertCiliumVTEPConfig returns nil after its
  read and writes nothing.\<close>

theorem Upsert_settled_no_write:
  assumes u: "unstruct_laws u" and args: "GetMac i \<noteq> []" "[] \<notin> set cidrs"
    and get: "Get k ciliumVTEPConfigGVK CiliumVTEPConfigName w = (Inr ob, w1)"
    and ok: "advertises ob (IP_String ip) (GetMac i) cidrs"
  shows "UpsertCiliumVTEPConfig u k i ip cidrs w = (None, w1)"
  using needsUpdate_advertises [OF u IP_String_not_Nil args] get ok
  by (simp add: UpsertCiliumVTEPConfig_def)

lemma Upsert_publishes:
  assumes u: "unstruct_laws u" and args: "GetMac i \<noteq> []" "[] \<notin> set cidrs"
    and api: "api_laws u k store" and fresh: "get_fresh k store" and up: "api_up u k store"
  shows "\<exists>w' ob. UpsertCiliumVTEPConfig u k i ip cidrs w = (None, w')
           \<and> store w' = Some ob \<and> advertises ob (IP_String ip) (GetMac i) cidrs"
proof -
  obtain r w' where run: "UpsertCiliumVTEPConfig u k i ip cidrs w = (r, w')" by fastforce
  have get: "fst (Get k ciliumVTEPConfigGVK CiliumVTEPConfigName w) =
      (case store w of None \<Rightarrow> Inl NotFound | Some ob \<Rightarrow> Inr ob)" using fresh by (simp add: get_fresh_def)
  from run have "r = None \<and> (\<exists>ob. store w' = Some ob \<and> advertises ob (IP_String ip) (GetMac i) cidrs)"
  proof (cases rule: Upsert_cases)
    case (get_failed e)
    with get show ?thesis by (auto split: option.splits)
  next
    case (create w1 r0)
    then have "store w1 = None" using get api_getD [OF api create(1)] by (auto split: option.splits)
    then have "r0 = None" using up create(2) by (metis api_up_def fst_conv)
    with api_createD [OF api create(2)] create(3) create_object_spec [OF u] stored_advertises show ?thesis by force
  next
    case (settled ob)
    then have "store w' = Some ob" using get api_getD [OF api settled(1)] by (auto split: option.splits)
    with settled needsUpdate_advertises [OF u IP_String_not_Nil args] show ?thesis by simp
  next
    case (update ob w1 r0)
    then have "store w1 = Some ob" using get api_getD [OF api update(1)] by (auto split: option.splits)
    then have "r0 = None" using up update(3) update_object(2) [OF u] unfolding api_up_def by (metis fst_conv)
    with api_updateD [OF api update(3)] update(4) update_object(1) [OF u] stored_advertises show ?thesis by force
  qed
  with run show ?thesis by auto
qed

text \<open>C10: With an API server that is reachable and reads that are current, UpsertCiliumVTEPConfig succeeds from
  every state of the object, absent or held by another leader or damaged, and afterwards the stored
  object advertises this gateway's address and MAC for every VPC CIDR.\<close>

theorem Upsert_converges:
  assumes "unstruct_laws u" and "GetMac i \<noteq> []" and "[] \<notin> set cidrs"
    and "api_laws u k store" and "get_fresh k store" and "api_up u k store"
  shows "\<exists>w' ob. UpsertCiliumVTEPConfig u k i ip cidrs w = (None, w')
           \<and> store w' = Some ob \<and> advertises ob (IP_String ip) (GetMac i) cidrs"
  using assms by (rule Upsert_publishes)

text \<open>C35: A read that misses an existing object ends in a lost takeover: the create is refused with AlreadyExists,
  UpsertCiliumVTEPConfig reports success, and the stored object is still the previous leader's.\<close>

theorem Upsert_stale_read_lost:
  assumes api: "api_laws u k store" and conflicts: "create_conflicts k store" and stored: "store w = Some ob"
    and stale: "fst (Get k ciliumVTEPConfigGVK CiliumVTEPConfigName w) = Inl NotFound"
  shows "\<exists>w'. UpsertCiliumVTEPConfig u k i ip cidrs w = (None, w') \<and> store w' = Some ob"
proof -
  obtain r w' where run: "UpsertCiliumVTEPConfig u k i ip cidrs w = (r, w')" by fastforce
  from run have "r = None \<and> store w' = Some ob"
  proof (cases rule: Upsert_cases)
    case (get_failed e)
    with stale show ?thesis by simp
  next
    case (create w1 r0)
    have "store w1 = Some ob" using api_getD [OF api create(1)] stored by simp
    moreover have "r0 = Some AlreadyExists" using conflicts create(2) calculation
      by (metis create_conflicts_def fst_conv option.discI)
    ultimately show ?thesis using api_createD [OF api create(2)] create(3) by simp
  qed (use stale in simp_all)
  with run show ?thesis by auto
qed

subsection \<open>An API server in memory\<close>

text \<open>Accessors as documented, on trees, and a server that numbers the versions of the one object.\<close>

definition set_meta :: "string \<Rightarrow> val \<Rightarrow> obj \<Rightarrow> obj" where
  "set_meta key v ob =
     ob(''metadata'' \<mapsto> VMap ((case ob ''metadata'' of Some (VMap m) \<Rightarrow> m | _ \<Rightarrow> Map.empty)(key \<mapsto> v)))"

definition get_string :: "val option \<Rightarrow> string \<times> bool" where
  "get_string v = (case v of Some (VString s) \<Rightarrow> (s, True) | _ \<Rightarrow> ([], False))"

definition tree_ops :: unstruct where
  "tree_ops =
     \<lparr>NestedSlice = (\<lambda>ob path. case path of
          [a, b] \<Rightarrow> (case nested ob a b of Some (VSlice vs) \<Rightarrow> (vs, True) | _ \<Rightarrow> ([], False))
        | _ \<Rightarrow> ([], False)),
      NestedString = (\<lambda>ob path. case path of [a] \<Rightarrow> get_string (ob a) | _ \<Rightarrow> ([], False)),
      SetGroupVersionKind = (\<lambda>g ob. ob(''apiVersion'' \<mapsto> VString (Group g @ ''/'' @ Version g), ''kind'' \<mapsto> VString (Kind g))),
      SetCreationTimestamp = (\<lambda>_. set_meta ''creationTimestamp'' VNull),
      SetResourceVersion = (\<lambda>v. set_meta ''resourceVersion'' (VString v)),
      SetName = (\<lambda>n. set_meta ''name'' (VString n)),
      GetResourceVersion = (\<lambda>ob. fst (get_string (nested ob ''metadata'' ''resourceVersion'')))\<rparr>"

lemma tree_ops_laws: "unstruct_laws tree_ops"
  by (simp add: unstruct_laws_def tree_ops_def set_meta_def get_string_def nested_def)

definition mem_k8s :: "(obj option \<times> nat) k8s" where
  "mem_k8s =
     \<lparr>Get = (\<lambda>_ _ w. (case fst w of None \<Rightarrow> Inl NotFound | Some ob \<Rightarrow> Inr ob, w)),
      Create = (\<lambda>ob w. if fst w \<noteq> None then (Some AlreadyExists, w)
        else (None, (Some (SetResourceVersion tree_ops (dec (snd w)) ob), Suc (snd w)))),
      Update = (\<lambda>ob w. case fst w of
          None \<Rightarrow> (Some NotFound, w)
        | Some old \<Rightarrow>
            if GetResourceVersion tree_ops old \<noteq> GetResourceVersion tree_ops ob then (Some Conflict, w)
            else (None, (Some (SetResourceVersion tree_ops (dec (snd w)) ob), Suc (snd w))))\<rparr>"

lemma set_version_spec [simp]: "SetResourceVersion tree_ops v ob ''spec'' = ob ''spec''"
  using tree_ops_laws by (simp add: unstruct_laws_def)

lemma mem_k8s_laws:
  "api_laws tree_ops mem_k8s fst" "get_fresh mem_k8s fst" "api_up tree_ops mem_k8s fst" "create_conflicts mem_k8s fst"
  by (auto simp: api_laws_def get_fresh_def api_up_def create_conflicts_def mem_k8s_def split: option.splits if_splits)

text \<open>The interface of a gateway, and an object that advertises another one.\<close>

definition iface0 :: Interface where
  "iface0 = NewInterfaceWithMAC ''02:00:00:00:00:01''"

definition ip0 :: IP where "ip0 = [10, 0, 0, 1]"

lemma iface0_mac [simp]: "GetMac iface0 = ''02:00:00:00:00:01''"
  by (simp add: iface0_def NewInterfaceWithMAC_def GetMac_def)

abbreviation "other_config \<equiv> desired_config ''10.0.0.2'' ''02:00:00:00:00:02'' [''10.1.0.0/16'']"

theorem needsUpdate_iff_witness:
  "needsUpdate tree_ops other_config ''10.0.0.1'' ''02:00:00:00:00:01'' [''10.1.0.0/16''] \<longleftrightarrow>
     \<not> advertises other_config ''10.0.0.1'' ''02:00:00:00:00:01'' [''10.1.0.0/16'']"
  by (rule needsUpdate_iff) (simp_all add: tree_ops_laws)

definition takeover0 :: "upsert_error option \<times> obj option \<times> nat" where
  "takeover0 = UpsertCiliumVTEPConfig tree_ops mem_k8s iface0 ip0 [''10.1.0.0/16''] (Some other_config, 1)"

text \<open>A server whose answers to updates are lost after they have been applied.\<close>

definition lossy_k8s :: "(obj option \<times> nat) k8s" where
  "lossy_k8s = mem_k8s\<lparr>Update := \<lambda>ob w. (Some (ApiError ''timeout''), snd (Update mem_k8s ob w))\<rparr>"

lemma lossy_k8s_laws: "api_laws tree_ops lossy_k8s fst"
  by (auto simp: api_laws_def lossy_k8s_def mem_k8s_def split: option.splits if_splits)

theorem Upsert_safe_witness:
  "(\<exists>ob w'. UpsertCiliumVTEPConfig tree_ops lossy_k8s iface0 ip0 [''10.1.0.0/16''] (Some other_config, 1)
       = (Some (UpdatingError (ApiError ''timeout'')), w')
     \<and> fst w' = Some ob \<and> advertises ob (IP_String ip0) (GetMac iface0) [''10.1.0.0/16''])"
proof -
  have need: "needsUpdate tree_ops other_config (IP_String ip0) (GetMac iface0) [''10.1.0.0/16'']"
    by code_simp
  define ob where "ob = SetResourceVersion tree_ops ''1'' (SetName tree_ops CiliumVTEPConfigName
      (SetResourceVersion tree_ops (GetResourceVersion tree_ops other_config) (SetGroupVersionKind tree_ops ciliumVTEPConfigGVK
         (desired_config (IP_String ip0) (GetMac iface0) [''10.1.0.0/16'']))))"
  have one: "dec (Suc 0) = ''1''" by code_simp
  have run: "UpsertCiliumVTEPConfig tree_ops lossy_k8s iface0 ip0 [''10.1.0.0/16''] (Some other_config, 1)
      = (Some (UpdatingError (ApiError ''timeout'')), (Some ob, 2))"
    using need update_object(2) [OF tree_ops_laws] one
    by (simp add: UpsertCiliumVTEPConfig_def lossy_k8s_def mem_k8s_def Let_def ob_def)
  have "GetResourceVersion tree_ops ob \<noteq> GetResourceVersion tree_ops other_config"
    unfolding ob_def by (simp add: tree_ops_def set_meta_def nested_def get_string_def desired_config_def)
  then have "fst (Some ob, 2) \<noteq> Some other_config" by auto
  with Upsert_safe [OF tree_ops_laws _ _ lossy_k8s_laws run] run show ?thesis by simp
qed

theorem Upsert_settled_no_write_witness:
  "UpsertCiliumVTEPConfig tree_ops mem_k8s iface0 ip0 [''10.1.0.0/16'']
     (Some (desired_config (IP_String ip0) (GetMac iface0) [''10.1.0.0/16'']), 1)
   = (None, (Some (desired_config (IP_String ip0) (GetMac iface0) [''10.1.0.0/16'']), 1))"
  by (rule Upsert_settled_no_write [OF tree_ops_laws _ _ _ desired_config_advertises]) (simp_all add: mem_k8s_def)

theorem Upsert_converges_witness:
  "\<exists>w' ob. UpsertCiliumVTEPConfig tree_ops mem_k8s iface0 ip0 [''10.1.0.0/16''] (Some other_config, 1) = (None, w')
     \<and> fst w' = Some ob \<and> advertises ob (IP_String ip0) (GetMac iface0) [''10.1.0.0/16'']"
  by (rule Upsert_converges [OF tree_ops_laws _ _ mem_k8s_laws(1-3)]) simp_all

definition stale_k8s :: "(obj option \<times> nat) k8s" where
  "stale_k8s = mem_k8s\<lparr>Get := \<lambda>_ _ w. (Inl NotFound, w)\<rparr>"

theorem Upsert_stale_read_lost_witness:
  "\<exists>w'. UpsertCiliumVTEPConfig tree_ops stale_k8s iface0 ip0 [''10.1.0.0/16''] (Some other_config, 1) = (None, w')
     \<and> fst w' = Some other_config"
  by (rule Upsert_stale_read_lost)
     (use mem_k8s_laws in \<open>simp_all add: stale_k8s_def api_laws_def create_conflicts_def\<close>)

end
