(* ===== verification/Gateway_Metrics.thy ===== *)
theory Gateway_Metrics
  imports Go_Strings
begin

text \<open>
  \<^verbatim>\<open>internal/metrics/metrics.go\<close>: the gateway's own Prometheus metrics.  The Go variables are global,
  so their current values form one record, \<open>metrics\<close>, that every operation of the gateway threads
  through together with the outside world (\<open>sys\<close>).  Counters are natural numbers (the Go values
  are float64 and exact up to $2^{53}$ increments); a histogram is the list of its observations.
  The second half lists what \<open>Register\<close> hands to the registry; bucket bounds are in milliseconds.
  \<^verbatim>\<open>prometheus.BuildFQName\<close> is third-party code and a parameter, with its documented behaviour as
  the hypothesis \<open>fq_name_law\<close>.
\<close>

subsection \<open>Values\<close>

record metrics =
  HybridNodesConfigured :: nat
  VTEPAddTotal :: nat
  VTEPAddErrorsTotal :: nat
  VTEPRemoveTotal :: nat
  VTEPRemoveErrorsTotal :: nat
  RouteTableUpdateTotal :: nat
  RouteTableUpdateErrorsTotal :: nat
  RouteTableUpdateDuration :: "duration list"
  LeaderIsActive :: nat
  LeaderSetupDuration :: "duration list"
  GatewayInfo :: "string list \<rightharpoonup> nat"

definition metrics_init :: metrics where
  "metrics_init =
     \<lparr>HybridNodesConfigured = 0, VTEPAddTotal = 0, VTEPAddErrorsTotal = 0, VTEPRemoveTotal = 0,
      VTEPRemoveErrorsTotal = 0, RouteTableUpdateTotal = 0, RouteTableUpdateErrorsTotal = 0,
      RouteTableUpdateDuration = [], LeaderIsActive = 0, LeaderSetupDuration = [],
      GatewayInfo = Map.empty\<rparr>"

text \<open>The state of a gateway process: its metrics and everything outside it.\<close>

record 'w sys =
  sys_metrics :: metrics
  world :: 'w

definition call :: "('w \<Rightarrow> 'r \<times> 'w) \<Rightarrow> 'w sys \<Rightarrow> 'r \<times> 'w sys" where
  "call op s = (let (r, w') = op (world s) in (r, s\<lparr>world := w'\<rparr>))"

definition count :: "(metrics \<Rightarrow> metrics) \<Rightarrow> 'w sys \<Rightarrow> 'w sys" where
  "count f s = s\<lparr>sys_metrics := f (sys_metrics s)\<rparr>"

lemma call_world [simp]: "world (snd (call op s)) = snd (op (world s))"
  by (simp add: call_def split: prod.splits)

lemma call_metrics [simp]: "sys_metrics (snd (call op s)) = sys_metrics s"
  by (simp add: call_def split: prod.splits)

lemma call_fst [simp]: "fst (call op s) = fst (op (world s))"
  by (simp add: call_def split: prod.splits)

lemma call_eqD: "call op s = (r, s') \<Longrightarrow> op (world s) = (r, world s') \<and> sys_metrics s' = sys_metrics s"
  by (auto simp: call_def split: prod.splits)

lemma call_eq_iff:
  "call op s = (r, s') \<longleftrightarrow> (\<exists>w'. op (world s) = (r, w') \<and> s' = s\<lparr>world := w'\<rparr>)"
  by (auto simp: call_def split: prod.splits)

lemma count_simps [simp]:
  "world (count f s) = world s" "sys_metrics (count f s) = f (sys_metrics s)"
  by (simp_all add: count_def)

subsection \<open>Declarations and registration\<close>

record MetricOpts =
  mo_Namespace :: string
  mo_Subsystem :: string
  mo_Name :: string
  mo_Help :: string

datatype metric_decl =
    NewGauge (decl_opts: MetricOpts)
  | NewCounter (decl_opts: MetricOpts)
  | NewHistogram (decl_opts: MetricOpts) (decl_buckets: "nat list")
  | NewGaugeVec (decl_opts: MetricOpts) (decl_labels: "string list")

definition namespace :: string where
  "namespace = ''hybrid_gateway''"

definition opts :: "string \<Rightarrow> string \<Rightarrow> string \<Rightarrow> MetricOpts" where
  "opts sub name help = \<lparr>mo_Namespace = namespace, mo_Subsystem = sub, mo_Name = name, mo_Help = help\<rparr>"

definition HybridNodesConfigured_decl :: metric_decl where
  "HybridNodesConfigured_decl = NewGauge (opts [] ''hybrid_nodes_configured''
     ''Current number of hybrid nodes with VTEP entries configured.'')"

definition VTEPAddTotal_decl :: metric_decl where
  "VTEPAddTotal_decl = NewCounter (opts ''vtep'' ''add_total''
     ''Total number of successful VTEP add operations (AddRemoteNode).'')"

definition VTEPAddErrorsTotal_decl :: metric_decl where
  "VTEPAddErrorsTotal_decl = NewCounter (opts ''vtep'' ''add_errors_total''
     ''Total number of failed VTEP add operations.'')"

definition VTEPRemoveTotal_decl :: metric_decl where
  "VTEPRemoveTotal_decl = NewCounter (opts ''vtep'' ''remove_total''
     ''Total number of successful VTEP remove operations.'')"

definition VTEPRemoveErrorsTotal_decl :: metric_decl where
  "VTEPRemoveErrorsTotal_decl = NewCounter (opts ''vtep'' ''remove_errors_total''
     ''Total number of failed VTEP remove operations.'')"

definition RouteTableUpdateTotal_decl :: metric_decl where
  "RouteTableUpdateTotal_decl = NewCounter (opts ''aws_route_table'' ''update_total''
     ''Total number of successful AWS route table update operations.'')"

definition RouteTableUpdateErrorsTotal_decl :: metric_decl where
  "RouteTableUpdateErrorsTotal_decl = NewCounter (opts ''aws_route_table'' ''update_errors_total''
     ''Total number of failed AWS route table update operations.'')"

definition RouteTableUpdateDuration_decl :: metric_decl where
  "RouteTableUpdateDuration_decl = NewHistogram (opts ''aws_route_table'' ''update_duration_seconds''
     ''Duration of AWS route table update operations in seconds.'') [100, 250, 500, 1000, 2000, 5000, 10000]"

definition LeaderIsActive_decl :: metric_decl where
  "LeaderIsActive_decl = NewGauge (opts [] ''leader_is_active''
     ''1 if this gateway instance is the active leader, 0 if standby.'')"

definition LeaderSetupDuration_decl :: metric_decl where
  "LeaderSetupDuration_decl = NewHistogram (opts [] ''leader_setup_duration_seconds''
     ''Duration of leader setup operations (route tables + CiliumVTEPConfig) in seconds.'') [500, 1000, 2000, 5000, 10000, 15000, 30000]"

definition GatewayInfo_decl :: metric_decl where
  "GatewayInfo_decl = NewGaugeVec (opts [] ''info''
     ''Static information about the gateway instance. Always 1.'') [''node_ip'', ''node_name'', ''vxlan_interface'', ''vpc_cidr'', ''pod_cidr'']"

definition Register :: "metric_decl list" where
  "Register =
     [HybridNodesConfigured_decl,
      VTEPAddTotal_decl,
      VTEPAddErrorsTotal_decl,
      VTEPRemoveTotal_decl,
      VTEPRemoveErrorsTotal_decl,
      RouteTableUpdateTotal_decl,
      RouteTableUpdateErrorsTotal_decl,
      RouteTableUpdateDuration_decl,
      LeaderIsActive_decl,
      LeaderSetupDuration_decl,
      GatewayInfo_decl]"

definition fq_name_law :: "(string \<Rightarrow> string \<Rightarrow> string \<Rightarrow> string) \<Rightarrow> bool" where
  "fq_name_law build \<longleftrightarrow>
     (\<forall>ns sub name. name \<noteq> [] \<longrightarrow>
        build ns sub name = Join (filter (\<lambda>x. x \<noteq> []) [ns, sub, name]) CHR ''_'')"

definition decl_fq :: "(string \<Rightarrow> string \<Rightarrow> string \<Rightarrow> string) \<Rightarrow> metric_decl \<Rightarrow> string" where
  "decl_fq build d = (let m = decl_opts d in build (mo_Namespace m) (mo_Subsystem m) (mo_Name m))"

fun buckets_ok :: "metric_decl \<Rightarrow> bool" where
  "buckets_ok (NewHistogram m bs) \<longleftrightarrow> sorted_wrt (<) bs"
| "buckets_ok _ \<longleftrightarrow> True"

lemmas decl_defs [gw_defs] =
  HybridNodesConfigured_decl_def VTEPAddTotal_decl_def VTEPAddErrorsTotal_decl_def VTEPRemoveTotal_decl_def VTEPRemoveErrorsTotal_decl_def RouteTableUpdateTotal_decl_def RouteTableUpdateErrorsTotal_decl_def RouteTableUpdateDuration_decl_def LeaderIsActive_decl_def LeaderSetupDuration_decl_def GatewayInfo_decl_def
  Register_def opts_def namespace_def

end
