(* ===== verification/Leader_Setup.thy ===== *)
theory Leader_Setup
  imports Route_Tables Cilium_Config Gateway_Metrics
begin

text \<open>
  \<^verbatim>\<open>internal/gateway/setup.go\<close>: what a gateway does when it wins the leader lease.  \<open>Start\<close> runs up to the
  point where it blocks on the context (\<open>Waiting\<close>) or returns early with an error; \<open>Start_done\<close> is the rest,
  after the context is done.  The deferred reset of the leader gauge is \<open>leave\<close>.  The clock is the parameter
  \<open>now\<close>.  The two publishing tasks meet the contract \<open>publisher\<close>, and \<open>leader_tasks\<close> says that they do not
  disturb each other.
\<close>

record 'w GatewaySetup =
  gs_routeTableManager :: "'w RouteTableManager option"
  gs_podCIDRs :: "string list"
  gs_k8sClient :: "'w k8s"
  gs_vxlanIface :: Interface
  gs_nodeIP :: IP
  gs_vpcCIDRs :: "string list"

definition NewSetup ::
  "'w RouteTableManager option \<Rightarrow> string list \<Rightarrow> 'w k8s \<Rightarrow> Interface \<Rightarrow> IP \<Rightarrow> string list \<Rightarrow> 'w GatewaySetup" where
  "NewSetup rtm podCIDRs k8sClient vxlanIface nodeIP vpcCIDRs =
     \<lparr>gs_routeTableManager = rtm, gs_podCIDRs = podCIDRs, gs_k8sClient = k8sClient, gs_vxlanIface = vxlanIface,
      gs_nodeIP = nodeIP, gs_vpcCIDRs = vpcCIDRs\<rparr>"

datatype start_error = RouteUpdateFailed rt_error | UpsertFailed upsert_error

datatype outcome = Returned "start_error option" | Waiting

definition leave :: "'w sys \<Rightarrow> 'w sys" where
  "leave = count (\<lambda>m. m\<lparr>LeaderIsActive := 0\<rparr>)"

definition start_routes :: "('w \<Rightarrow> duration \<times> 'w) \<Rightarrow> 'w GatewaySetup \<Rightarrow> 'w sys \<Rightarrow> rt_error option \<times> 'w sys" where
  "start_routes now g s =
     (case gs_routeTableManager g of
        None \<Rightarrow> (None, s)
      | Some rtm \<Rightarrow>
          (let (rtStart, s1) = call now s in
           case call (UpdateRoutes rtm (gs_podCIDRs g)) s1 of
             (Some err, s2) \<Rightarrow>
               (Some err, count (\<lambda>m. m\<lparr>RouteTableUpdateErrorsTotal := RouteTableUpdateErrorsTotal m + 1\<rparr>) s2)
           | (None, s2) \<Rightarrow>
               (let (rtEnd, s3) = call now s2;
                    s4 = count (\<lambda>m. m\<lparr>RouteTableUpdateDuration := RouteTableUpdateDuration m @ [rtEnd - rtStart]\<rparr>) s3
                in (None, count (\<lambda>m. m\<lparr>RouteTableUpdateTotal := RouteTableUpdateTotal m + 1\<rparr>) s4))))"

definition start_config :: "unstruct \<Rightarrow> 'w GatewaySetup \<Rightarrow> 'w sys \<Rightarrow> upsert_error option \<times> 'w sys" where
  "start_config u g s =
     (if length (gs_vpcCIDRs g) > 0
      then call (UpsertCiliumVTEPConfig u (gs_k8sClient g) (gs_vxlanIface g) (gs_nodeIP g) (gs_vpcCIDRs g)) s
      else (None, s))"

definition Start :: "('w \<Rightarrow> duration \<times> 'w) \<Rightarrow> unstruct \<Rightarrow> 'w GatewaySetup \<Rightarrow> 'w sys \<Rightarrow> outcome \<times> 'w sys" where
  "Start now u g s =
     (let (setupStart, s0) = call now s;
          s1 = count (\<lambda>m. m\<lparr>LeaderIsActive := 1\<rparr>) s0
      in case start_routes now g s1 of
           (Some err, s2) \<Rightarrow> (Returned (Some (RouteUpdateFailed err)), leave s2)
         | (None, s2) \<Rightarrow>
             (case start_config u g s2 of
                (Some err, s3) \<Rightarrow> (Returned (Some (UpsertFailed err)), leave s3)
              | (None, s3) \<Rightarrow>
                  (let (setupEnd, s4) = call now s3
                   in (Waiting, count (\<lambda>m. m\<lparr>LeaderSetupDuration := LeaderSetupDuration m @ [setupEnd - setupStart]\<rparr>) s4))))"

definition Start_done :: "'w sys \<Rightarrow> outcome \<times> 'w sys" where
  "Start_done s = (Returned None, leave s)"

definition NeedLeaderElection :: bool where "NeedLeaderElection = True"

subsection \<open>Publishing tasks\<close>

text \<open>
  What the leader relies on: a task that, when its environment is ready, succeeds and leaves its result
  published and the environment ready again.
\<close>

locale publisher =
  fixes publish :: "'w \<Rightarrow> 'e option \<times> 'w"
    and ready :: "'w \<Rightarrow> bool"
    and published :: "'w \<Rightarrow> bool"
  assumes publish_done: "ready w \<Longrightarrow> \<exists>w'. publish w = (None, w') \<and> published w' \<and> ready w'"
begin

lemma republish: "ready w \<Longrightarrow> \<exists>w' w''. publish w = (None, w') \<and> publish w' = (None, w'') \<and> published w''"
  using publish_done by metis

end

locale leader_tasks = first: publisher publish ready published + second: publisher publish' ready' published'
  for publish :: "'w \<Rightarrow> 'e option \<times> 'w" and ready published
    and publish' :: "'w \<Rightarrow> 'f option \<times> 'w" and ready' published' +
  assumes first_keeps: "ready w \<Longrightarrow> publish w = (None, w') \<Longrightarrow> ready' w \<Longrightarrow> ready' w'"
    and second_keeps: "ready' w \<Longrightarrow> publish' w = (None, w') \<Longrightarrow> ready w \<Longrightarrow> ready w'"
    and second_keeps_published: "ready' w \<Longrightarrow> publish' w = (None, w') \<Longrightarrow> published w \<Longrightarrow> published w'"
begin

lemma both:
  assumes "ready w" and "ready' w"
  shows "\<exists>w1 w2. publish w = (None, w1) \<and> publish' w1 = (None, w2) \<and> published w2 \<and> published' w2 \<and> ready w2 \<and> ready' w2"
proof -
  obtain w1 where 1: "publish w = (None, w1)" "published w1" "ready w1" using first.publish_done [OF assms(1)] by blast
  have r: "ready' w1" using first_keeps [OF assms(1) 1(1) assms(2)] .
  obtain w2 where 2: "publish' w1 = (None, w2)" "published' w2" "ready' w2" using second.publish_done [OF r] by blast
  from 1 2 second_keeps [OF r 2(1)] second_keeps_published [OF r 2(1)] show ?thesis by blast
qed

end

text \<open>The two tasks of \<open>Start\<close> on the outside world alone.\<close>

definition publish_routes :: "'w GatewaySetup \<Rightarrow> 'w \<Rightarrow> rt_error option \<times> 'w" where
  "publish_routes g w =
     (case gs_routeTableManager g of None \<Rightarrow> (None, w) | Some rtm \<Rightarrow> UpdateRoutes rtm (gs_podCIDRs g) w)"

definition publish_config :: "unstruct \<Rightarrow> 'w GatewaySetup \<Rightarrow> 'w \<Rightarrow> upsert_error option \<times> 'w" where
  "publish_config u g w =
     (if gs_vpcCIDRs g = [] then (None, w)
      else UpsertCiliumVTEPConfig u (gs_k8sClient g) (gs_vxlanIface g) (gs_nodeIP g) (gs_vpcCIDRs g) w)"

definition routes_published :: "('w \<Rightarrow> string \<rightharpoonup> ec2_route list) \<Rightarrow> 'w GatewaySetup \<Rightarrow> 'w \<Rightarrow> bool" where
  "routes_published tv g w \<longleftrightarrow>
     (case gs_routeTableManager g of
        None \<Rightarrow> True
      | Some m \<Rightarrow> \<forall>i \<in> set (routeTableIDs m). \<forall>c \<in> set (gs_podCIDRs g). points_to (tv w) i c (primaryENI m))"

definition config_published :: "('w \<Rightarrow> obj option) \<Rightarrow> 'w GatewaySetup \<Rightarrow> 'w \<Rightarrow> bool" where
  "config_published store g w \<longleftrightarrow>
     gs_vpcCIDRs g = [] \<or>
     (\<exists>ob. store w = Some ob \<and> advertises ob (IP_String (gs_nodeIP g)) (GetMac (gs_vxlanIface g)) (gs_vpcCIDRs g))"

subsection \<open>Independence of the services\<close>

definition ec2_keeps :: "'w ec2 \<Rightarrow> ('w \<Rightarrow> 'v) \<Rightarrow> bool" where
  "ec2_keeps c f \<longleftrightarrow>
     (\<forall>ids w. f (snd (DescribeRouteTables c ids w)) = f w) \<and>
     (\<forall>i w. f (snd (CreateRoute c i w)) = f w) \<and> (\<forall>i w. f (snd (ReplaceRoute c i w)) = f w)"

definition k8s_keeps :: "'w k8s \<Rightarrow> ('w \<Rightarrow> 'v) \<Rightarrow> bool" where
  "k8s_keeps k f \<longleftrightarrow>
     (\<forall>g n w. f (snd (Get k g n w)) = f w) \<and> (\<forall>ob w. f (snd (Create k ob w)) = f w)
     \<and> (\<forall>ob w. f (snd (Update k ob w)) = f w)"

lemma getRoute_keeps: "ec2_keeps (ec2Client m) f \<Longrightarrow> f (snd (getRoute m i c w)) = f w"
  by (auto simp: ec2_keeps_def getRoute_def split: prod.splits sum.splits list.splits)
     (metis snd_conv)+

lemma updateRoute_keeps:
  assumes "ec2_keeps (ec2Client m) f"
  shows "f (snd (updateRoute m i c w)) = f w"
proof -
  obtain r w' where u: "updateRoute m i c w = (r, w')" by fastforce
  have k: "\<And>w. f (snd (replaceRoute m i c w)) = f w" "\<And>w. f (snd (createRoute m i c w)) = f w"
    using assms
    by (auto simp: ec2_keeps_def replaceRoute_def createRoute_def split: prod.splits option.splits) (metis snd_conv)+
  from u show ?thesis
    using getRoute_keeps [OF assms, of i c w] k
    by (cases rule: updateRoute_cases) (metis snd_conv u)+
qed

lemma UpdateRoutes_keeps:
  assumes "ec2_keeps (ec2Client m) f"
  shows "f (snd (UpdateRoutes m cidrs w)) = f w"
  unfolding UpdateRoutes_pairs
  by (rule for_each_preserves) (auto simp: updateRoute_keeps [OF assms] split: prod.splits)

lemma Upsert_keeps:
  assumes "k8s_keeps k f"
  shows "f (snd (UpsertCiliumVTEPConfig u k i ip cidrs w)) = f w"
proof -
  obtain r w' where run: "UpsertCiliumVTEPConfig u k i ip cidrs w = (r, w')" by fastforce
  note K = assms [unfolded k8s_keeps_def]
  from run show ?thesis by (cases rule: Upsert_cases) (metis K run snd_conv)+
qed

definition clock_keeps :: "('w \<Rightarrow> duration \<times> 'w) \<Rightarrow> ('w \<Rightarrow> 'v) \<Rightarrow> bool" where
  "clock_keeps now f \<longleftrightarrow> (\<forall>w. f (snd (now w)) = f w)"

text \<open>A view of the world that neither the clock, the API server nor the route update changes is the same after \<open>Start\<close>.\<close>

lemma Start_keeps_view:
  assumes clock: "clock_keeps now f" and k: "k8s_keeps (gs_k8sClient g) f"
    and routes: "\<And>m w. gs_routeTableManager g = Some m \<Longrightarrow> f (snd (UpdateRoutes m (gs_podCIDRs g) w)) = f w"
  shows "f (world (snd (Start now u g s))) = f (world s)"
proof -
  have ck: "f (snd (now w)) = f w" for w using clock by (simp add: clock_keeps_def)
  have r: "f (world (snd (start_routes now g s))) = f (world s)" for s
  proof (cases "gs_routeTableManager g")
    case (Some m)
    obtain e w2 where u: "UpdateRoutes m (gs_podCIDRs g) (snd (now (world s))) = (e, w2)" by fastforce
    with routes [OF Some, of "snd (now (world s))"] ck have "f w2 = f (world s)" by simp
    with Some u ck show ?thesis by (auto simp: start_routes_def call_def Let_def split: prod.splits option.splits) (metis snd_conv)+
  qed (simp add: start_routes_def)
  have c: "f (world (snd (start_config u g s))) = f (world s)" for s
    using Upsert_keeps [OF k] by (simp add: start_config_def)
  define s1 where "s1 = count (\<lambda>m. m\<lparr>LeaderIsActive := 1\<rparr>) (snd (call now s))"
  obtain e s2 where e: "start_routes now g s1 = (e, s2)" by fastforce
  obtain e' s3 where e': "start_config u g s2 = (e', s3)" by fastforce
  have "f (world s2) = f (world s)" "f (world s3) = f (world s2)"
    using r [of s1] c [of s2] e e' ck by (simp_all add: s1_def)
  with e e' ck show ?thesis unfolding Start_def s1_def
    by (auto simp: call_def leave_def Let_def split: prod.splits option.splits) (metis snd_conv)+
qed

subsection \<open>Taking over\<close>

text \<open>The environment in which each task succeeds: reachable services that follow their documentation and answer reads
  with their current state.\<close>

definition routes_ready ::
  "('w \<Rightarrow> string \<rightharpoonup> ec2_route list) \<Rightarrow> (string \<Rightarrow> string) \<Rightarrow> 'w GatewaySetup \<Rightarrow> 'w \<Rightarrow> bool" where
  "routes_ready tv canon g w \<longleftrightarrow>
     (case gs_routeTableManager g of
        None \<Rightarrow> True
      | Some m \<Rightarrow> ec2_laws (ec2Client m) tv canon \<and> fresh_reads (ec2Client m) tv \<and> describe_up (ec2Client m) \<and> writes_up (ec2Client m) tv canon
          \<and> set (routeTableIDs m) \<subseteq> dom (tv w) \<and> (\<forall>c \<in> set (gs_podCIDRs g). canon c = c))"

definition config_ready ::
  "unstruct \<Rightarrow> ('w \<Rightarrow> 'v) \<Rightarrow> ('w \<Rightarrow> obj option) \<Rightarrow> 'w GatewaySetup \<Rightarrow> 'w \<Rightarrow> bool" where
  "config_ready u tv store g w \<longleftrightarrow>
     unstruct_laws u \<and> api_laws u (gs_k8sClient g) store \<and> get_fresh (gs_k8sClient g) store
     \<and> api_up u (gs_k8sClient g) store \<and> k8s_keeps (gs_k8sClient g) tv
     \<and> GetMac (gs_vxlanIface g) \<noteq> [] \<and> [] \<notin> set (gs_vpcCIDRs g)"

interpretation leader: leader_tasks "publish_routes g" "routes_ready tv canon g" "routes_published tv g"
    "publish_config u g" "config_ready u tv store g" "config_published store g"
  for g :: "'w GatewaySetup" and tv canon u store
proof
  fix w w' :: 'w
  show "\<exists>w'. publish_routes g w = (None, w') \<and> routes_published tv g w' \<and> routes_ready tv canon g w'"
    if r: "routes_ready tv canon g w"
  proof (cases "gs_routeTableManager g")
    case (Some m)
    with r UpdateRoutes_publishes [of m tv canon w "gs_podCIDRs g"] UpdateRoutes_dom [of m tv canon "gs_podCIDRs g" w]
    show ?thesis by (auto simp: routes_ready_def publish_routes_def routes_published_def)
  qed (simp add: publish_routes_def routes_published_def routes_ready_def)
  show "\<exists>w'. publish_config u g w = (None, w') \<and> config_published store g w' \<and> config_ready u tv store g w'"
    if "config_ready u tv store g w"
    using that Upsert_publishes [of u "gs_vxlanIface g" "gs_vpcCIDRs g" "gs_k8sClient g" store "gs_nodeIP g" w]
    by (auto simp: publish_config_def config_published_def config_ready_def)
  show "config_ready u tv store g w'" if "config_ready u tv store g w"
    using that by (simp add: config_ready_def)
  have tv: "tv w' = tv w" if "config_ready u tv store g w" "publish_config u g w = (None, w')"
    using that Upsert_keeps [of "gs_k8sClient g" tv u "gs_vxlanIface g" "gs_nodeIP g" "gs_vpcCIDRs g" w]
    by (auto simp: publish_config_def config_ready_def split: if_splits)
  show "routes_ready tv canon g w'"
    if "config_ready u tv store g w" "publish_config u g w = (None, w')" "routes_ready tv canon g w"
    using that tv by (simp add: routes_ready_def split: option.splits)
  show "routes_published tv g w'"
    if "config_ready u tv store g w" "publish_config u g w = (None, w')" "routes_published tv g w"
    using that tv by (simp add: routes_published_def split: option.splits)
qed

lemma start_routes_publish:
  assumes "publish_routes g (world s') = (None, w1)"
    and "s' = (if gs_routeTableManager g = None then s else snd (call now s))"
  obtains s1 where "start_routes now g s = (None, s1)" and "LeaderIsActive (sys_metrics s1) = LeaderIsActive (sys_metrics s)"
    and "world s1 = (if gs_routeTableManager g = None then w1 else snd (now w1))"
proof (cases "gs_routeTableManager g")
  case None
  with assms that [of s] show thesis by (simp add: start_routes_def publish_routes_def)
next
  case (Some m)
  obtain t0 w0 where t0: "now (world s) = (t0, w0)" by fastforce
  obtain t1 w2 where t1: "now w1 = (t1, w2)" by fastforce
  from assms Some t0 have "UpdateRoutes m (gs_podCIDRs g) w0 = (None, w1)"
    by (simp add: publish_routes_def call_def)
  with Some t0 t1 that show thesis by (simp add: start_routes_def call_def)
qed

lemma start_config_publish:
  assumes "publish_config u g (world s) = (None, w1)"
  shows "start_config u g s = (None, s\<lparr>world := w1\<rparr>)"
  using assms by (auto simp: start_config_def publish_config_def call_def split: if_splits)

lemma Start_publishes:
  assumes r: "routes_ready tv canon g (world s)" and c: "config_ready u tv store g (world s)"
    and clock: "clock_keeps now tv" "clock_keeps now store"
  shows "\<exists>s'. Start now u g s = (Waiting, s') \<and> routes_published tv g (world s') \<and> config_published store g (world s')
           \<and> routes_ready tv canon g (world s') \<and> LeaderIsActive (sys_metrics s') = 1"
proof -
  have tvw: "routes_ready tv canon g w' = routes_ready tv canon g w" "routes_published tv g w' = routes_published tv g w"
    if "tv w' = tv w" for w w'
    using that by (simp_all add: routes_ready_def routes_published_def split: option.splits)
  have cr: "config_ready u tv store g w" for w using c by (simp add: config_ready_def)
  have ck: "tv (snd (now w)) = tv w" "store (snd (now w)) = store w" for w using clock by (simp_all add: clock_keeps_def)
  define s1 where "s1 = count (\<lambda>m. m\<lparr>LeaderIsActive := 1\<rparr>) (snd (call now s))"
  define s2 where "s2 = (if gs_routeTableManager g = None then s1 else snd (call now s1))"
  have "tv (world s2) = tv (world s)" by (simp add: s2_def s1_def ck)
  with tvw r have r2: "routes_ready tv canon g (world s2)" by blast
  from leader.first.publish_done [OF r2] obtain w3 where w3: "publish_routes g (world s2) = (None, w3)"
    "routes_published tv g w3" "routes_ready tv canon g w3" by blast
  from start_routes_publish [OF w3(1) s2_def] obtain s3 where
    s3: "start_routes now g s1 = (None, s3)" "LeaderIsActive (sys_metrics s3) = LeaderIsActive (sys_metrics s1)"
    "world s3 = (if gs_routeTableManager g = None then w3 else snd (now w3))" .
  have "tv (world s3) = tv w3" by (simp add: s3 ck)
  with w3 tvw have r3: "routes_ready tv canon g (world s3)" "routes_published tv g (world s3)" by blast+
  from leader.second.publish_done [OF cr] obtain w4 where w4: "publish_config u g (world s3) = (None, w4)"
    "config_published store g w4" by blast
  have r4: "routes_ready tv canon g w4" "routes_published tv g w4"
    using leader.second_keeps [OF cr w4(1) r3(1)] leader.second_keeps_published [OF cr w4(1) r3(2)] .
  have "Start now u g s = (Waiting, count (\<lambda>m. m\<lparr>LeaderSetupDuration := LeaderSetupDuration m
      @ [fst (now w4) - fst (now (world s))]\<rparr>) (s3\<lparr>world := snd (now w4)\<rparr>))"
    using s3(1) start_config_publish [OF w4(1)] by (simp add: Start_def s1_def call_def Let_def split: prod.splits)
  moreover have "config_published store g (snd (now w4))" using w4(2) by (simp add: config_published_def ck)
  moreover have "routes_ready tv canon g (snd (now w4))" "routes_published tv g (snd (now w4))"
    using r4 tvw [of "snd (now w4)" w4] by (simp_all add: ck)
  moreover have "LeaderIsActive (sys_metrics s3) = 1" using s3(2) by (simp add: s1_def)
  ultimately show ?thesis by simp
qed

text \<open>C9: When the services are reachable and their reads are up to date, the configured tables exist and the pod CIDRs are in canonical
  form, Start succeeds from any state of the route tables and of the
  CiliumVTEPConfig, whoever owned them before: it reaches its waiting point as the active leader with every
  configured route pointing to its own interface and the stored object advertising its own address.\<close>

theorem Start_takes_over:
  assumes "routes_ready tv canon g (world s)" and "config_ready u tv store g (world s)"
    and "clock_keeps now tv" and "clock_keeps now store"
  shows "\<exists>s'. Start now u g s = (Waiting, s') \<and> routes_published tv g (world s') \<and> config_published store g (world s')
           \<and> routes_ready tv canon g (world s') \<and> LeaderIsActive (sys_metrics s') = 1"
  using assms by (rule Start_publishes)

text \<open>The hybrid nodes are redirected only after the VPC is: when the update of the route tables fails,
  Start returns without having touched the CiliumVTEPConfig.\<close>

theorem Start_routes_before_config:
  assumes ec2: "\<And>m. gs_routeTableManager g = Some m \<Longrightarrow> ec2_keeps (ec2Client m) store"
    and clock: "clock_keeps now store"
    and run: "Start now u g s = (Returned (Some (RouteUpdateFailed e)), s')"
  shows "store (world s') = store (world s)"
proof -
  obtain t0 w0 where t0: "now (world s) = (t0, w0)" by fastforce
  define s1 where "s1 = count (\<lambda>m. m\<lparr>LeaderIsActive := 1\<rparr>) (s\<lparr>world := w0\<rparr>)"
  obtain s2 where s2: "start_routes now g s1 = (Some e, s2)" "s' = leave s2"
    using run t0 by (auto simp: Start_def s1_def call_def Let_def split: prod.splits option.splits)
  then obtain m where m: "gs_routeTableManager g = Some m" by (auto simp: start_routes_def split: option.splits)
  obtain t1 w1 where t1: "now w0 = (t1, w1)" by fastforce
  have "world s2 = snd (UpdateRoutes m (gs_podCIDRs g) w1)"
    using s2(1) m t1 by (auto simp: start_routes_def s1_def call_def Let_def split: prod.splits option.splits)
  moreover have "store w0 = store (world s)" "store w1 = store w0"
    using clock t0 t1 by (metis clock_keeps_def snd_conv)+
  ultimately show ?thesis using s2(2) UpdateRoutes_keeps [OF ec2 [OF m]] by (simp add: leave_def)
qed

subsection \<open>Metrics of a leader\<close>

text \<open>
  The clock readings of the code are monotonic (\<^verbatim>\<open>time.Since\<close>): \<open>time\<close> is the clock of the world, a reading shows it, and no call
  turns it back.
\<close>

definition clock_laws :: "('w \<Rightarrow> duration \<times> 'w) \<Rightarrow> ('w \<Rightarrow> duration) \<Rightarrow> bool" where
  "clock_laws now time \<longleftrightarrow> (\<forall>w t w'. now w = (t, w') \<longrightarrow> time w \<le> t \<and> time w' = t)"

definition ec2_time :: "'w ec2 \<Rightarrow> ('w \<Rightarrow> duration) \<Rightarrow> bool" where
  "ec2_time c time \<longleftrightarrow>
     (\<forall>ids w. time w \<le> time (snd (DescribeRouteTables c ids w))) \<and>
     (\<forall>i w. time w \<le> time (snd (CreateRoute c i w))) \<and> (\<forall>i w. time w \<le> time (snd (ReplaceRoute c i w)))"

definition k8s_time :: "'w k8s \<Rightarrow> ('w \<Rightarrow> duration) \<Rightarrow> bool" where
  "k8s_time k time \<longleftrightarrow>
     (\<forall>g n w. time w \<le> time (snd (Get k g n w))) \<and> (\<forall>ob w. time w \<le> time (snd (Create k ob w)))
     \<and> (\<forall>ob w. time w \<le> time (snd (Update k ob w)))"

lemma updateRoute_time:
  assumes "ec2_time (ec2Client m) time"
  shows "time w \<le> time (snd (updateRoute m i c w))"
proof -
  obtain r w' where u: "updateRoute m i c w = (r, w')" by fastforce
  have get: "time w \<le> time (snd (getRoute m i c w))" for w
    using assms by (auto simp: ec2_time_def getRoute_def split: prod.splits sum.splits list.splits) (metis snd_conv)+
  have wr: "time w \<le> time (snd (replaceRoute m i c w))" "time w \<le> time (snd (createRoute m i c w))" for w
    using assms
    by (auto simp: ec2_time_def replaceRoute_def createRoute_def split: prod.splits option.splits) (metis snd_conv)+
  from u show ?thesis
    by (cases rule: updateRoute_cases) (metis get wr u order_trans snd_conv)+
qed

lemma UpdateRoutes_time:
  assumes "ec2_time (ec2Client m) time"
  shows "time w \<le> time (snd (UpdateRoutes m cidrs w))"
  unfolding UpdateRoutes_pairs
  by (rule for_each_preserves [where P = "\<lambda>s. time w \<le> time s"])
     (auto intro: order_trans [OF _ updateRoute_time [OF assms]] split: prod.splits)

lemma Upsert_time:
  assumes "k8s_time k time"
  shows "time w \<le> time (snd (UpsertCiliumVTEPConfig u k i ip cidrs w))"
proof -
  obtain r w' where run: "UpsertCiliumVTEPConfig u k i ip cidrs w = (r, w')" by fastforce
  note K = assms [unfolded k8s_time_def]
  from run show ?thesis by (cases rule: Upsert_cases) (metis K run order_trans snd_conv)+
qed

text \<open>What the metrics say of an update of the routes that begins in a given world: the time it took, on the clock.\<close>

definition update_time :: "('w \<Rightarrow> duration \<times> 'w) \<Rightarrow> 'w RouteTableManager \<Rightarrow> string list \<Rightarrow> 'w \<Rightarrow> duration" where
  "update_time now m cidrs w = fst (now (snd (UpdateRoutes m cidrs (snd (now w))))) - fst (now w)"

lemma start_routes_metrics:
  assumes "start_routes now g s = (r, s')"
  shows "sys_metrics s' =
    (case (gs_routeTableManager g, r) of
       (None, _) \<Rightarrow> sys_metrics s
     | (Some m, None) \<Rightarrow> (sys_metrics s)\<lparr>
           RouteTableUpdateDuration := RouteTableUpdateDuration (sys_metrics s) @ [update_time now m (gs_podCIDRs g) (world s)],
           RouteTableUpdateTotal := RouteTableUpdateTotal (sys_metrics s) + 1\<rparr>
     | (Some m, Some e) \<Rightarrow> (sys_metrics s)\<lparr>RouteTableUpdateErrorsTotal := RouteTableUpdateErrorsTotal (sys_metrics s) + 1\<rparr>)"
  using assms
  by (auto simp: start_routes_def update_time_def call_def Let_def split: prod.splits option.splits)

lemma start_routes_clock:
  assumes clock: "clock_laws now time" and ec2: "\<And>m. gs_routeTableManager g = Some m \<Longrightarrow> ec2_time (ec2Client m) time"
    and run: "start_routes now g s = (r, s')"
  shows "time (world s) \<le> time (world s')"
    and "gs_routeTableManager g = Some m \<Longrightarrow> r = None \<Longrightarrow>
      0 \<le> update_time now m (gs_podCIDRs g) (world s)
      \<and> update_time now m (gs_podCIDRs g) (world s) \<le> time (world s') - time (world s)"
proof -
  have n: "time w \<le> fst (now w)" "time (snd (now w)) = fst (now w)" for w
    using clock by (metis clock_laws_def prod.collapse)+
  have "time (world s) \<le> time (world s') \<and> (\<forall>m. gs_routeTableManager g = Some m \<longrightarrow> r = None \<longrightarrow>
      0 \<le> update_time now m (gs_podCIDRs g) (world s)
      \<and> update_time now m (gs_podCIDRs g) (world s) \<le> time (world s') - time (world s))"
  proof (cases "gs_routeTableManager g")
    case None
    with run show ?thesis by (simp add: start_routes_def)
  next
    case (Some m)
    define w1 where "w1 = snd (now (world s))"
    obtain e w2 where u: "UpdateRoutes m (gs_podCIDRs g) w1 = (e, w2)" by fastforce
    have t: "time w1 \<le> time w2" using UpdateRoutes_time [OF ec2 [OF Some], of w1 "gs_podCIDRs g"] u by simp
    have w': "world s' = (if e = None then snd (now w2) else w2)" "r = e"
      using run Some u by (auto simp: start_routes_def w1_def call_def Let_def split: prod.splits option.splits)
    show ?thesis
      using t n [of "world s"] n [of w2] w' u Some by (auto simp: update_time_def w1_def)
  qed
  then show "time (world s) \<le> time (world s')"
    and "gs_routeTableManager g = Some m \<Longrightarrow> r = None \<Longrightarrow>
      0 \<le> update_time now m (gs_podCIDRs g) (world s)
      \<and> update_time now m (gs_podCIDRs g) (world s) \<le> time (world s') - time (world s)" by blast+
qed

text \<open>What a route update leaves in the metrics when it succeeds.\<close>

definition observe_update :: "('w \<Rightarrow> duration \<times> 'w) \<Rightarrow> 'w GatewaySetup \<Rightarrow> 'w \<Rightarrow> metrics \<Rightarrow> metrics" where
  "observe_update now g w mt =
     (case gs_routeTableManager g of
        None \<Rightarrow> mt
      | Some m \<Rightarrow> mt\<lparr>RouteTableUpdateDuration := RouteTableUpdateDuration mt @ [update_time now m (gs_podCIDRs g) w],
          RouteTableUpdateTotal := RouteTableUpdateTotal mt + 1\<rparr>)"

lemma Start_metrics_cases:
  assumes clock: "clock_laws now time" and run: "Start now u g s = (out, s')"
  shows "case out of
      Waiting \<Rightarrow> sys_metrics s' = (let mt = observe_update now g (snd (now (world s))) (sys_metrics s) in
        mt\<lparr>LeaderIsActive := 1, LeaderSetupDuration := LeaderSetupDuration mt @ [time (world s') - fst (now (world s))]\<rparr>)
    | Returned r \<Rightarrow> (case r of
        None \<Rightarrow> False
      | Some (RouteUpdateFailed e) \<Rightarrow> gs_routeTableManager g \<noteq> None \<and>
          sys_metrics s' = (sys_metrics s)\<lparr>LeaderIsActive := 0,
            RouteTableUpdateErrorsTotal := RouteTableUpdateErrorsTotal (sys_metrics s) + 1\<rparr>
      | Some (UpsertFailed e) \<Rightarrow>
          sys_metrics s' = (observe_update now g (snd (now (world s))) (sys_metrics s))\<lparr>LeaderIsActive := 0\<rparr>)"
proof -
  have n: "time w' = t" if "now w = (t, w')" for w t w' using clock that by (simp add: clock_laws_def)
  define s1 where "s1 = count (\<lambda>m. m\<lparr>LeaderIsActive := 1\<rparr>) (snd (call now s))"
  obtain e s2 where e: "start_routes now g s1 = (e, s2)" by fastforce
  obtain e' s3 where e': "start_config u g s2 = (e', s3)" by fastforce
  have m3: "sys_metrics s3 = sys_metrics s2" using e' by (auto simp: start_config_def call_eq_iff split: if_splits)
  have "gs_routeTableManager g = None \<Longrightarrow> e = None" using e by (simp add: start_routes_def)
  with run e e' m3 start_routes_metrics [OF e] show ?thesis
    unfolding Start_def s1_def
    by (auto simp: observe_update_def leave_def Let_def call_def dest: n split: prod.splits option.splits)
qed

text \<open>The observed durations are real: the update lies within the set-up, and the set-up within the run of \<open>Start\<close>.\<close>

lemma Start_durations:
  assumes clock: "clock_laws now time" and k: "k8s_time (gs_k8sClient g) time"
    and ec2: "\<And>m. gs_routeTableManager g = Some m \<Longrightarrow> ec2_time (ec2Client m) time"
    and run: "Start now u g s = (Waiting, s')"
  shows "fst (now (world s)) - time (world s) \<ge> 0 \<and> time (world s') - fst (now (world s)) \<ge> 0"
    and "gs_routeTableManager g = Some m \<Longrightarrow> 0 \<le> update_time now m (gs_podCIDRs g) (snd (now (world s)))
      \<and> update_time now m (gs_podCIDRs g) (snd (now (world s))) \<le> time (world s') - fst (now (world s))"
proof -
  have n: "time w \<le> t \<and> time w' = t" if "now w = (t, w')" for w t w' using clock that by (simp add: clock_laws_def)
  obtain t0 w0 where t0: "now (world s) = (t0, w0)" by fastforce
  define s1 where "s1 = count (\<lambda>m. m\<lparr>LeaderIsActive := 1\<rparr>) (s\<lparr>world := w0\<rparr>)"
  obtain s2 s3 t1 where s: "start_routes now g s1 = (None, s2)" "start_config u g s2 = (None, s3)"
      "now (world s3) = (t1, world s')"
    using run t0 by (auto simp: Start_def s1_def call_def Let_def split: prod.splits option.splits)
  have "time (world s2) \<le> time (world s3)"
    using s(2) Upsert_time [OF k, of "world s2" u "gs_vxlanIface g" "gs_nodeIP g" "gs_vpcCIDRs g"]
    by (auto simp: start_config_def call_def split: if_splits prod.splits)
  moreover note start_routes_clock [OF clock ec2 s(1)]
  moreover have "world s1 = w0" by (simp add: s1_def)
  ultimately show "fst (now (world s)) - time (world s) \<ge> 0 \<and> time (world s') - fst (now (world s)) \<ge> 0"
    and "gs_routeTableManager g = Some m \<Longrightarrow> 0 \<le> update_time now m (gs_podCIDRs g) (snd (now (world s)))
      \<and> update_time now m (gs_podCIDRs g) (snd (now (world s))) \<le> time (world s') - fst (now (world s))"
    using n [OF t0] n [OF s(3)] t0 by fastforce+
qed

text \<open>C34: Whatever EC2 and the API server do, the metrics say exactly how Start went, and nothing but these metrics changes.  When
  it waits, the gauge is 1, the time from its first to its last clock reading is observed, and, with a route table
  manager, the update counter is one higher and the time from the reading before the update to the reading after
  it is observed; on a monotonic clock the update's duration is not negative and within that of the set-up.  When the
  update fails, the error counter is one higher and nothing is observed.  When the upsert fails, the update is counted
  and observed but the set-up is not.  In both cases the gauge is back at 0, to which the end of a leadership
  also resets it.\<close>

theorem Start_metrics:
  assumes clock: "clock_laws now time" and k: "k8s_time (gs_k8sClient g) time"
    and ec2: "\<And>m. gs_routeTableManager g = Some m \<Longrightarrow> ec2_time (ec2Client m) time"
    and run: "Start now u g s = (out, s')"
  shows "case out of
      Waiting \<Rightarrow> sys_metrics s' = (let mt = observe_update now g (snd (now (world s))) (sys_metrics s) in
          mt\<lparr>LeaderIsActive := 1, LeaderSetupDuration := LeaderSetupDuration mt @ [time (world s') - fst (now (world s))]\<rparr>)
        \<and> time (world s) \<le> fst (now (world s)) \<and> fst (now (world s)) \<le> time (world s')
        \<and> (case gs_routeTableManager g of None \<Rightarrow> True
           | Some m \<Rightarrow> 0 \<le> update_time now m (gs_podCIDRs g) (snd (now (world s)))
               \<and> update_time now m (gs_podCIDRs g) (snd (now (world s))) \<le> time (world s') - fst (now (world s)))
        \<and> sys_metrics (snd (Start_done s')) = (sys_metrics s')\<lparr>LeaderIsActive := 0\<rparr>
    | Returned r \<Rightarrow> (case r of
        None \<Rightarrow> False
      | Some (RouteUpdateFailed e) \<Rightarrow> gs_routeTableManager g \<noteq> None \<and>
          sys_metrics s' = (sys_metrics s)\<lparr>LeaderIsActive := 0,
            RouteTableUpdateErrorsTotal := RouteTableUpdateErrorsTotal (sys_metrics s) + 1\<rparr>
      | Some (UpsertFailed e) \<Rightarrow>
          sys_metrics s' = (observe_update now g (snd (now (world s))) (sys_metrics s))\<lparr>LeaderIsActive := 0\<rparr>)"
proof (cases out)
  case Waiting
  with Start_metrics_cases [OF clock run] Start_durations [OF clock k ec2] run show ?thesis
    by (auto simp: Start_done_def leave_def split: option.splits)
next
  case (Returned r)
  with Start_metrics_cases [OF clock run] show ?thesis by simp
qed

subsection \<open>Witnesses\<close>

text \<open>A world with both services side by side, and a clock that does not disturb them.\<close>

type_synonym cloud = "(string \<rightharpoonup> ec2_route list) \<times> obj option \<times> nat"

definition on_fst :: "('a \<Rightarrow> 'r \<times> 'a) \<Rightarrow> 'a \<times> 'b \<Rightarrow> 'r \<times> ('a \<times> 'b)" where
  "on_fst op w = (let (r, a) = op (fst w) in (r, (a, snd w)))"

definition on_snd :: "('b \<Rightarrow> 'r \<times> 'b) \<Rightarrow> 'a \<times> 'b \<Rightarrow> 'r \<times> ('a \<times> 'b)" where
  "on_snd op w = (let (r, b) = op (snd w) in (r, (fst w, b)))"

lemma on_simps [simp]:
  "fst (on_fst op w) = fst (op (fst w))" "snd (on_fst op w) = (snd (op (fst w)), snd w)"
  "fst (on_snd op' w) = fst (op' (snd w))" "snd (on_snd op' w) = (fst w, snd (op' (snd w)))"
  by (simp_all add: on_fst_def on_snd_def split: prod.splits)

definition cloud_ec2 :: "cloud ec2" where
  "cloud_ec2 = \<lparr>DescribeInstances = (\<lambda>ids. on_fst (DescribeInstances (mem_ec2 id) ids)),
     DescribeRouteTables = (\<lambda>ids. on_fst (DescribeRouteTables (mem_ec2 id) ids)),
     CreateRoute = (\<lambda>i. on_fst (CreateRoute (mem_ec2 id) i)),
     ReplaceRoute = (\<lambda>i. on_fst (ReplaceRoute (mem_ec2 id) i))\<rparr>"

definition cloud_k8s :: "cloud k8s" where
  "cloud_k8s = \<lparr>Get = (\<lambda>g n. on_snd (Get mem_k8s g n)), Create = (\<lambda>ob. on_snd (Create mem_k8s ob)),
     Update = (\<lambda>ob. on_snd (Update mem_k8s ob))\<rparr>"

abbreviation cloud_tables :: "cloud \<Rightarrow> string \<rightharpoonup> ec2_route list" where "cloud_tables w \<equiv> fst w"
abbreviation cloud_store :: "cloud \<Rightarrow> obj option" where "cloud_store w \<equiv> fst (snd w)"

lemma cloud_ec2_laws:
  "ec2_laws cloud_ec2 cloud_tables id" "describe_up cloud_ec2" "writes_up cloud_ec2 cloud_tables id"
  "ec2_keeps cloud_ec2 cloud_store" "fresh_reads cloud_ec2 cloud_tables"
proof -
  show "ec2_laws cloud_ec2 cloud_tables id"
    using mem_ec2_laws [of id]
    by (auto simp: ec2_laws_def reads_frame_def write_laws_def cloud_ec2_def on_fst_def split: prod.splits)
  show "fresh_reads cloud_ec2 cloud_tables"
    using mem_ec2_describe(2) [of id] by (auto simp: fresh_reads_def cloud_ec2_def on_fst_def split: prod.splits)
  show "describe_up cloud_ec2"
    by (simp add: describe_up_def cloud_ec2_def mem_ec2_def on_fst_def)
  show "writes_up cloud_ec2 cloud_tables id"
    using mem_ec2_writes_up [of id] by (simp add: writes_up_def cloud_ec2_def)
  show "ec2_keeps cloud_ec2 cloud_store"
    by (simp add: ec2_keeps_def cloud_ec2_def)
qed

lemma cloud_k8s_laws:
  "api_laws tree_ops cloud_k8s cloud_store" "get_fresh cloud_k8s cloud_store" "api_up tree_ops cloud_k8s cloud_store"
  "k8s_keeps cloud_k8s cloud_tables"
proof -
  show "api_laws tree_ops cloud_k8s cloud_store"
    by (auto simp: api_laws_def cloud_k8s_def mem_k8s_def on_snd_def split: option.splits if_splits)
  show "get_fresh cloud_k8s cloud_store"
    using mem_k8s_laws(2) by (simp add: get_fresh_def cloud_k8s_def)
  show "api_up tree_ops cloud_k8s cloud_store"
    using mem_k8s_laws(3) by (auto simp: api_up_def cloud_k8s_def)
  show "k8s_keeps cloud_k8s cloud_tables"
    by (simp add: k8s_keeps_def cloud_k8s_def)
qed

definition clock0 :: "cloud \<Rightarrow> duration \<times> cloud" where "clock0 w = (5, w)"

definition gateway0 :: "string \<Rightarrow> cloud GatewaySetup" where
  "gateway0 eni = NewSetup (Some \<lparr>ec2Client = cloud_ec2, routeTableIDs = [''rtb-1'', ''rtb-2''], instanceID = ''i-1'',
       primaryENI = eni, region = ''us-west-2''\<rparr>) [''10.0.0.0/16''] cloud_k8s iface0 ip0 [''10.1.0.0/16'']"

definition cloud_sys0 :: "cloud sys" where
  "cloud_sys0 = \<lparr>sys_metrics = metrics_init, world = (tables0, Some other_config, 1)\<rparr>"

lemma gateway0_ready:
  "set [''rtb-1'', ''rtb-2''] \<subseteq> dom (cloud_tables w) \<Longrightarrow> routes_ready cloud_tables id (gateway0 eni) w"
  "config_ready tree_ops cloud_tables cloud_store (gateway0 eni) w"
  using cloud_ec2_laws cloud_k8s_laws tree_ops_laws
  by (auto simp: routes_ready_def config_ready_def gateway0_def NewSetup_def)

lemma clock0_keeps [simp]: "clock_keeps clock0 f"
  by (simp add: clock_keeps_def clock0_def)

theorem Start_takes_over_witness:
  "\<exists>s'. Start clock0 tree_ops (gateway0 ''eni-1'') cloud_sys0 = (Waiting, s')
     \<and> routes_published cloud_tables (gateway0 ''eni-1'') (world s')
     \<and> config_published cloud_store (gateway0 ''eni-1'') (world s')"
  using Start_takes_over [OF gateway0_ready(1) gateway0_ready(2) clock0_keeps clock0_keeps, of cloud_sys0 "''eni-1''"]
  by (auto simp: cloud_sys0_def tables0_def)

text \<open>A clock beside the services that ticks with every reading, and a gateway on that world.\<close>

definition ticking :: "('a \<Rightarrow> 'r \<times> 'a) \<Rightarrow> 'a \<times> duration \<Rightarrow> 'r \<times> ('a \<times> duration)" where
  "ticking op w = (case op (fst w) of (r, a) \<Rightarrow> (r, (a, snd w + 2)))"

definition tick_clock :: "'a \<times> duration \<Rightarrow> duration \<times> ('a \<times> duration)" where
  "tick_clock w = (snd w + 1, (fst w, snd w + 1))"

definition tick_gateway :: "(cloud \<times> duration) GatewaySetup" where
  "tick_gateway = NewSetup
     (Some \<lparr>ec2Client = \<lparr>DescribeInstances = (\<lambda>ids. ticking (DescribeInstances cloud_ec2 ids)),
          DescribeRouteTables = (\<lambda>ids. ticking (DescribeRouteTables cloud_ec2 ids)),
          CreateRoute = (\<lambda>i. ticking (CreateRoute cloud_ec2 i)), ReplaceRoute = (\<lambda>i. ticking (ReplaceRoute cloud_ec2 i))\<rparr>,
        routeTableIDs = [''rtb-1''], instanceID = ''i-1'', primaryENI = ''eni-1'', region = ''us-west-2''\<rparr>)
     [''10.0.0.0/16''] \<lparr>Get = (\<lambda>g n. ticking (Get cloud_k8s g n)), Create = (\<lambda>ob. ticking (Create cloud_k8s ob)),
        Update = (\<lambda>ob. ticking (Update cloud_k8s ob))\<rparr> iface0 ip0 []"

definition tick_sys :: "(cloud \<times> duration) sys" where
  "tick_sys = \<lparr>sys_metrics = metrics_init, world = ((tables0, None, 1), 100)\<rparr>"

lemma tick_run:
  "\<exists>w. Start tick_clock tree_ops tick_gateway tick_sys = (Waiting, \<lparr>sys_metrics = metrics_init\<lparr>LeaderIsActive := 1,
       RouteTableUpdateTotal := 1, RouteTableUpdateDuration := [5], LeaderSetupDuration := [7]\<rparr>, world = w\<rparr>)"
  by (simp add: Start_def start_routes_def start_config_def call_def count_def tick_clock_def tick_gateway_def tick_sys_def
      NewSetup_def ticking_def cloud_ec2_def on_fst_def Let_def metrics_init_def route_eval)

theorem Start_metrics_witness:
  "\<exists>s'. Start tick_clock tree_ops tick_gateway tick_sys = (Waiting, s') \<and> LeaderIsActive (sys_metrics s') = 1
     \<and> LeaderSetupDuration (sys_metrics s') = [snd (world s') - 101]
     \<and> RouteTableUpdateTotal (sys_metrics s') = 1 \<and> RouteTableUpdateErrorsTotal (sys_metrics s') = 0"
proof -
  obtain s' where run: "Start tick_clock tree_ops tick_gateway tick_sys = (Waiting, s')" using tick_run by blast
  have c: "clock_laws tick_clock snd" by (simp add: clock_laws_def tick_clock_def)
  have k: "k8s_time (gs_k8sClient tick_gateway) snd"
    by (simp add: k8s_time_def tick_gateway_def NewSetup_def ticking_def split: prod.splits)
  have e: "ec2_time (ec2Client m) snd" if "gs_routeTableManager tick_gateway = Some m" for m
    using that by (auto simp: ec2_time_def tick_gateway_def NewSetup_def ticking_def split: prod.splits)
  from run show ?thesis
    using Start_metrics [OF c k e run]
    by (simp add: observe_update_def tick_gateway_def NewSetup_def tick_sys_def tick_clock_def metrics_init_def Let_def)
qed

theorem Start_routes_before_config_witness:
  "\<exists>s'. Start clock0 tree_ops (gateway0 ''eni-1'') (cloud_sys0\<lparr>world := (Map.empty, Some other_config, 1)\<rparr>)
       = (Returned (Some (RouteUpdateFailed (UpdateRouteError ''10.0.0.0/16'' ''rtb-1'' (TableNotFound ''rtb-1'')))), s')
     \<and> cloud_store (world s') = Some other_config"
proof -
  obtain s' where run: "Start clock0 tree_ops (gateway0 ''eni-1'') (cloud_sys0\<lparr>world := (Map.empty, Some other_config, 1)\<rparr>)
       = (Returned (Some (RouteUpdateFailed (UpdateRouteError ''10.0.0.0/16'' ''rtb-1'' (TableNotFound ''rtb-1'')))), s')"
    by (simp add: Start_def start_routes_def call_def clock0_def Let_def gateway0_def NewSetup_def UpdateRoutes_def
        update_body_def updateRoute_def getRoute_def cloud_ec2_def mem_ec2_def on_fst_def)
  have "cloud_store (world s') = cloud_store (world (cloud_sys0\<lparr>world := (Map.empty, Some other_config, 1)\<rparr>))"
    by (rule Start_routes_before_config [OF _ clock0_keeps run])
       (simp add: gateway0_def NewSetup_def, use cloud_ec2_laws(4) in auto)
  with run show ?thesis by simp
qed

end
