(* ===== verification/Vtep.thy ===== *)
theory Vtep
  imports Vxlan_Interface Gateway_Metrics "HOL-Library.FSet"
begin

text \<open>
  \<^verbatim>\<open>internal/vxlan/vtep.go\<close>: the tunnel endpoints of the remote hybrid nodes.  For each node the
  gateway keeps a route to the node's pod CIDR, a static ARP entry and a forwarding entry on the
  VXLAN interface.  \<open>AddRemoteNode\<close> and \<open>RemoveRemoteNode\<close> work on a VTEP object and the process
  state; the interface object inside the VTEP is not changed after start-up, so it is part of the
  VTEP value.  The interface \<open>node_table\<close> is what the node reconciler relies on.
\<close>

definition NUD_PERMANENT :: int where "NUD_PERMANENT = 0x80"
definition NTF_SELF :: int where "NTF_SELF = 0x02"
definition RT_SCOPE_UNIVERSE :: int where "RT_SCOPE_UNIVERSE = 0"
definition FLAG_ONLINK :: int where "FLAG_ONLINK = 0x04"
definition AF_BRIDGE :: int where "AF_BRIDGE = 7"
definition AF_INET :: int where "AF_INET = 2"

record VTEP =
  iface :: Interface
  nodes :: "string fset"

type_synonym 'w vtep_state = "VTEP \<times> 'w sys"

datatype vtep_error =
    NotInitialized
  | InvalidRemoteIP string
  | InvalidPodCIDR string
  | RouteError string errno
  | ARPError string errno
  | FDBError string errno

definition NewVTEP :: "Interface \<Rightarrow> VTEP" where
  "NewVTEP i = \<lparr>iface = i, nodes = {||}\<rparr>"

definition generateMACFromIP :: "IP \<Rightarrow> HardwareAddr" where
  "generateMACFromIP ip =
     (let ipv4 = (case To4 ip of None \<Rightarrow> [0, 0, 0, 0] | Some b \<Rightarrow> b)
      in [0x02, 0x00, ipv4 ! 0, ipv4 ! 1, ipv4 ! 2, ipv4 ! 3])"

subsection \<open>The requests\<close>

definition pod_route :: "int \<Rightarrow> IPNet \<Rightarrow> IP \<Rightarrow> Route" where
  "pod_route linkIdx podNet remoteIP =
     \<lparr>rt_LinkIndex = linkIdx, rt_Dst = podNet, rt_Scope = RT_SCOPE_UNIVERSE, rt_Gw = Some remoteIP,
      rt_Flags = FLAG_ONLINK\<rparr>"

definition arp_entry :: "int \<Rightarrow> IP \<Rightarrow> HardwareAddr \<Rightarrow> Neigh" where
  "arp_entry linkIdx remoteIP m =
     \<lparr>n_LinkIndex = linkIdx, n_Family = AF_INET, n_State = NUD_PERMANENT, n_Flags = 0,
      n_IP = remoteIP, n_HardwareAddr = Some m\<rparr>"

definition fdb_entry :: "int \<Rightarrow> IP \<Rightarrow> HardwareAddr \<Rightarrow> Neigh" where
  "fdb_entry linkIdx remoteIP m =
     \<lparr>n_LinkIndex = linkIdx, n_Family = AF_BRIDGE, n_State = NUD_PERMANENT, n_Flags = NTF_SELF,
      n_IP = remoteIP, n_HardwareAddr = Some m\<rparr>"

definition route_key :: "int \<Rightarrow> IPNet \<Rightarrow> Route" where
  "route_key linkIdx podNet =
     \<lparr>rt_LinkIndex = linkIdx, rt_Dst = podNet, rt_Scope = 0, rt_Gw = None, rt_Flags = 0\<rparr>"

definition arp_key :: "int \<Rightarrow> IP \<Rightarrow> Neigh" where
  "arp_key linkIdx remoteIP =
     \<lparr>n_LinkIndex = linkIdx, n_Family = AF_INET, n_State = 0, n_Flags = 0,
      n_IP = remoteIP, n_HardwareAddr = None\<rparr>"

definition fdb_key :: "int \<Rightarrow> IP \<Rightarrow> Neigh" where
  "fdb_key linkIdx remoteIP =
     \<lparr>n_LinkIndex = linkIdx, n_Family = AF_BRIDGE, n_State = 0, n_Flags = NTF_SELF,
      n_IP = remoteIP, n_HardwareAddr = None\<rparr>"

subsection \<open>Operations\<close>

definition inc_add_errors :: "metrics \<Rightarrow> metrics" where
  "inc_add_errors m = m\<lparr>VTEPAddErrorsTotal := VTEPAddErrorsTotal m + 1\<rparr>"

definition inc_remove_errors :: "metrics \<Rightarrow> metrics" where
  "inc_remove_errors m = m\<lparr>VTEPRemoveErrorsTotal := VTEPRemoveErrorsTotal m + 1\<rparr>"

definition AddRemoteNode ::
  "'w netlink \<Rightarrow> string \<Rightarrow> string \<Rightarrow> 'w vtep_state \<Rightarrow> vtep_error option \<times> 'w vtep_state" where
  "AddRemoteNode nl podCIDR nodeIP vs =
     (let (v, s) = vs in
      case GetLink (iface v) of
        None \<Rightarrow> (Some NotInitialized, (v, s))
      | Some link \<Rightarrow>
     (case ParseIP nodeIP of
        None \<Rightarrow> (Some (InvalidRemoteIP nodeIP), (v, s))
      | Some remoteIP \<Rightarrow>
     (case ParseCIDR podCIDR of
        None \<Rightarrow> (Some (InvalidPodCIDR podCIDR), (v, s))
      | Some podNet \<Rightarrow>
     (let linkIdx = Index link in
      case call (RouteReplace nl (pod_route linkIdx podNet remoteIP)) s of
        (Some err, s1) \<Rightarrow> (Some (RouteError podCIDR err), (v, count inc_add_errors s1))
      | (None, s1) \<Rightarrow>
     (let uniqueMAC = generateMACFromIP remoteIP in
      case call (NeighSet nl (arp_entry linkIdx remoteIP uniqueMAC)) s1 of
        (Some err, s2) \<Rightarrow> (Some (ARPError nodeIP err), (v, count inc_add_errors s2))
      | (None, s2) \<Rightarrow>
     (case call (NeighSet nl (fdb_entry linkIdx remoteIP uniqueMAC)) s2 of
        (Some err, s3) \<Rightarrow> (Some (FDBError nodeIP err), (v, count inc_add_errors s3))
      | (None, s3) \<Rightarrow>
     (let s4 = count (\<lambda>m. m\<lparr>VTEPAddTotal := VTEPAddTotal m + 1\<rparr>) s3;
          v' = v\<lparr>nodes := finsert nodeIP (nodes v)\<rparr>
      in (None, (v', count (\<lambda>m. m\<lparr>HybridNodesConfigured := fcard (nodes v')\<rparr>) s4)))))))))"

text \<open>A failed deletion is logged and counted, and the removal goes on.\<close>

definition warn_remove :: "errno option \<times> 'w sys \<Rightarrow> 'w sys" where
  "warn_remove r = (case r of (Some err, s) \<Rightarrow> count inc_remove_errors s | (None, s) \<Rightarrow> s)"

definition RemoveRemoteNode ::
  "'w netlink \<Rightarrow> string \<Rightarrow> string \<Rightarrow> 'w vtep_state \<Rightarrow> vtep_error option \<times> 'w vtep_state" where
  "RemoveRemoteNode nl podCIDR nodeIP vs =
     (let (v, s) = vs in
      case GetLink (iface v) of
        None \<Rightarrow> (Some NotInitialized, (v, s))
      | Some link \<Rightarrow>
     (case ParseIP nodeIP of
        None \<Rightarrow> (Some (InvalidRemoteIP nodeIP), (v, s))
      | Some remoteIP \<Rightarrow>
     (case ParseCIDR podCIDR of
        None \<Rightarrow> (Some (InvalidPodCIDR podCIDR), (v, s))
      | Some podNet \<Rightarrow>
     (let linkIdx = Index link;
          s1 = warn_remove (call (RouteDel nl (route_key linkIdx podNet)) s);
          s2 = warn_remove (call (NeighDel nl (arp_key linkIdx remoteIP)) s1);
          s3 = warn_remove (call (NeighDel nl (fdb_key linkIdx remoteIP)) s2);
          s4 = count (\<lambda>m. m\<lparr>VTEPRemoveTotal := VTEPRemoveTotal m + 1\<rparr>) s3;
          v' = v\<lparr>nodes := nodes v |-| {|nodeIP|}\<rparr>
      in (None, (v', count (\<lambda>m. m\<lparr>HybridNodesConfigured := fcard (nodes v')\<rparr>) s4))))))"

lemmas vtep_request_defs =
  pod_route_def arp_entry_def fdb_entry_def route_key_def arp_key_def fdb_key_def
  AF_INET_def AF_BRIDGE_def af_inet_def af_bridge_def

subsection \<open>The derived MAC addresses\<close>

lemma generateMACFromIP_v4: "To4 ip = Some b \<Longrightarrow> generateMACFromIP ip = [0x02, 0x00] @ b"
  using To4_length [of ip b] by (auto simp: generateMACFromIP_def Let_def length_Suc_conv numeral_eq_Suc)

text \<open>Two IPv4 node addresses get the same derived MAC address only if they are the same address,
  so a forwarding entry identifies one node.\<close>

theorem generateMACFromIP_unique:
  assumes "ParseIP x = Some ip" and "ParseIP y = Some ip'" and "To4 ip \<noteq> None" and "To4 ip' \<noteq> None"
  shows "generateMACFromIP ip = generateMACFromIP ip' \<longleftrightarrow> ip = ip'"
proof
  assume eq: "generateMACFromIP ip = generateMACFromIP ip'"
  obtain b b' where b: "To4 ip = Some b" "To4 ip' = Some b'" using assms(3,4) by auto
  with eq have "b = b'" by (simp add: generateMACFromIP_v4)
  with b To4_inject_16 assms(1,2) ParseIP_length show "ip = ip'" by metis
qed simp

text \<open>For addresses that are not IPv4 the derived MAC address is not unique: every IPv6 address
  gets the one MAC address 02:00:00:00:00:00, which the IPv4 address 0.0.0.0 gets too.\<close>

theorem generateMACFromIP_ipv6_collide:
  assumes "To4 ip = None" and "To4 ip' = None"
  shows "generateMACFromIP ip = generateMACFromIP ip'
         \<and> HardwareAddr_String (generateMACFromIP ip) = ''02:00:00:00:00:00''
         \<and> generateMACFromIP ip = generateMACFromIP (v4InV6Prefix @ [0, 0, 0, 0])"
proof -
  have "generateMACFromIP ip = [2, 0, 0, 0, 0, 0]" "generateMACFromIP ip' = [2, 0, 0, 0, 0, 0]"
    using assms by (simp_all add: generateMACFromIP_def)
  moreover have "generateMACFromIP (v4InV6Prefix @ [0, 0, 0, 0]) = [2, 0, 0, 0, 0, 0]"
    by (simp add: generateMACFromIP_v4 [of _ "[0, 0, 0, 0]"])
  ultimately show ?thesis
    by (simp add: HardwareAddr_String_def hex2_def hex_digits.simps dig_char_def)
qed

subsection \<open>Where the kernel sends a packet\<close>

text \<open>
  The path of a packet for a pod network over the VXLAN interface: the route gives the gateway, the
  ARP table the gateway's MAC address, the forwarding database the tunnel endpoint.
\<close>

definition tunnel_endpoint :: "int \<Rightarrow> kernel \<Rightarrow> IPNet \<Rightarrow> IP option" where
  "tunnel_endpoint idx k net =
     (case kroutes k net of
        None \<Rightarrow> None
      | Some r \<Rightarrow>
          if rt_LinkIndex r \<noteq> idx then None
          else case rt_Gw r of
                 None \<Rightarrow> None
               | Some gw \<Rightarrow>
                   (case karp k (idx, gw) of
                      None \<Rightarrow> None
                    | Some n \<Rightarrow>
                        (case n_HardwareAddr n of
                           None \<Rightarrow> None
                         | Some m \<Rightarrow> map_option n_IP (kfdb k (idx, m)))))"

text \<open>
  The gateway's entries agree with the derived MAC addresses: an ARP entry carries the MAC address
  of its IP address, a forwarding entry the IP address of its MAC address.
\<close>

definition tables_ok :: "int \<Rightarrow> kernel \<Rightarrow> bool" where
  "tables_ok idx k \<longleftrightarrow>
     (\<forall>ip n. karp k (idx, ip) = Some n \<longrightarrow>
        n_HardwareAddr n = Some (generateMACFromIP ip) \<and> To4 ip \<noteq> None \<and> length ip = 16) \<and>
     (\<forall>m n. kfdb k (idx, m) = Some n \<longrightarrow>
        generateMACFromIP (n_IP n) = m \<and> To4 (n_IP n) \<noteq> None \<and> length (n_IP n) = 16)"

lemma MAC_inject_16:
  assumes "generateMACFromIP ip = generateMACFromIP ip'" "To4 ip \<noteq> None" "To4 ip' \<noteq> None"
    "length ip = 16" "length ip' = 16"
  shows "ip = ip'"
  using assms generateMACFromIP_v4 To4_inject_16 by (metis append_eq_append_conv option.exhaust)

lemma tables_ok_endpoint:
  assumes "tables_ok idx k" "tunnel_endpoint idx k net = Some ip"
  shows "\<exists>r. kroutes k net = Some r \<and> rt_LinkIndex r = idx \<and> rt_Gw r = Some ip"
proof -
  from assms(2) obtain r gw n m e where
    r: "kroutes k net = Some r" "rt_LinkIndex r = idx" "rt_Gw r = Some gw"
    and n: "karp k (idx, gw) = Some n" "n_HardwareAddr n = Some m"
    and e: "kfdb k (idx, m) = Some e" "ip = n_IP e"
    by (auto simp: tunnel_endpoint_def split: option.splits if_splits)
  from assms(1) n have a: "m = generateMACFromIP gw" "To4 gw \<noteq> None" "length gw = 16"
    by (auto simp: tables_ok_def)
  from assms(1) e have "generateMACFromIP ip = m" "To4 ip \<noteq> None" "length ip = 16"
    by (auto simp: tables_ok_def)
  with a MAC_inject_16 have "ip = gw" by metis
  with r show ?thesis by blast
qed

text \<open>The tables after the three requests of an addition.\<close>

definition program_route :: "int \<Rightarrow> IPNet \<Rightarrow> IP \<Rightarrow> kernel \<Rightarrow> kernel" where
  "program_route idx net ip k = k\<lparr>kroutes := (kroutes k)(net \<mapsto> pod_route idx net ip)\<rparr>"

definition program_arp :: "int \<Rightarrow> IP \<Rightarrow> kernel \<Rightarrow> kernel" where
  "program_arp idx ip k =
     k\<lparr>karp := (karp k)((idx, ip) \<mapsto> arp_entry idx ip (generateMACFromIP ip))\<rparr>"

definition program_fdb :: "int \<Rightarrow> IP \<Rightarrow> kernel \<Rightarrow> kernel" where
  "program_fdb idx ip k =
     k\<lparr>kfdb := (kfdb k)((idx, generateMACFromIP ip) \<mapsto> fdb_entry idx ip (generateMACFromIP ip))\<rparr>"

definition program_node :: "int \<Rightarrow> IPNet \<Rightarrow> IP \<Rightarrow> kernel \<Rightarrow> kernel" where
  "program_node idx net ip k = program_fdb idx ip (program_arp idx ip (program_route idx net ip k))"

lemmas program_defs = program_route_def program_arp_def program_fdb_def program_node_def

lemma program_route_kept:
  assumes "net' \<noteq> net" "tunnel_endpoint idx k net' = Some x"
  shows "tunnel_endpoint idx (program_route idx net ip k) net' = Some x"
  using assms by (auto simp: tunnel_endpoint_def program_route_def split: option.splits)

lemma program_arp_kept:
  assumes "tables_ok idx k" "tunnel_endpoint idx k net' = Some x"
  shows "tunnel_endpoint idx (program_arp idx ip k) net' = Some x"
  using assms
  by (auto simp: tunnel_endpoint_def program_arp_def arp_entry_def tables_ok_def
      split: option.splits if_splits)

lemma program_fdb_kept:
  assumes "tables_ok idx k" "To4 ip \<noteq> None" "length ip = 16" "tunnel_endpoint idx k net' = Some x"
  shows "tunnel_endpoint idx (program_fdb idx ip k) net' = Some x"
proof -
  from assms(4) obtain r gw n m e where
    r: "kroutes k net' = Some r" "rt_LinkIndex r = idx" "rt_Gw r = Some gw"
      "karp k (idx, gw) = Some n" "n_HardwareAddr n = Some m" "kfdb k (idx, m) = Some e" "x = n_IP e"
    by (auto simp: tunnel_endpoint_def split: option.splits if_splits)
  have "generateMACFromIP ip = m \<Longrightarrow> ip = x"
    using assms(1-3) r(6,7) MAC_inject_16 [of ip x] by (auto simp: tables_ok_def)
  with r show ?thesis by (auto simp: tunnel_endpoint_def program_fdb_def fdb_entry_def)
qed

lemma program_ok:
  assumes "tables_ok idx k"
  shows "tables_ok idx (program_route idx net ip k)"
    and "To4 ip \<noteq> None \<Longrightarrow> length ip = 16 \<Longrightarrow> tables_ok idx (program_arp idx ip k)"
    and "To4 ip \<noteq> None \<Longrightarrow> length ip = 16 \<Longrightarrow> tables_ok idx (program_fdb idx ip k)"
  using assms by (auto simp: tables_ok_def program_defs arp_entry_def fdb_entry_def)

lemma program_node_endpoint: "tunnel_endpoint idx (program_node idx net ip k) net = Some ip"
  by (simp add: tunnel_endpoint_def program_defs pod_route_def arp_entry_def fdb_entry_def)

lemma program_node_kept:
  assumes "tables_ok idx k" "To4 ip \<noteq> None" "length ip = 16" "net' \<noteq> net" "tunnel_endpoint idx k net' = Some x"
  shows "tunnel_endpoint idx (program_node idx net ip k) net' = Some x"
  unfolding program_node_def
  using assms by (intro program_fdb_kept program_arp_kept program_route_kept program_ok)

subsection \<open>Kernel effects of the requests\<close>

lemma kernel_add_requests:
  assumes "kernel_laws nl kv"
  shows "RouteReplace nl (pod_route idx net ip) w = (None, w') \<Longrightarrow> kv w' = program_route idx net ip (kv w)"
    and "NeighSet nl (arp_entry idx ip (generateMACFromIP ip)) w = (None, w') \<Longrightarrow> To4 ip \<noteq> None
           \<Longrightarrow> kv w' = program_arp idx ip (kv w)"
    and "NeighSet nl (fdb_entry idx ip (generateMACFromIP ip)) w = (None, w') \<Longrightarrow> kv w' = program_fdb idx ip (kv w)"
  using kernel_laws_route(1) [OF assms, of "pod_route idx net ip"]
    kernel_laws_neigh(1) [OF assms, of "arp_entry idx ip (generateMACFromIP ip)"]
    kernel_laws_neigh(2) [OF assms, of "fdb_entry idx ip (generateMACFromIP ip)"]
  by (simp_all add: program_defs vtep_request_defs)

lemma AddRemoteNode_ok:
  assumes "AddRemoteNode nl podCIDR nodeIP (v, s) = (None, (v', s'))"
  obtains link ip net w1 w2 where
    "GetLink (iface v) = Some link" "ParseIP nodeIP = Some ip" "ParseCIDR podCIDR = Some net"
    "RouteReplace nl (pod_route (Index link) net ip) (world s) = (None, w1)"
    "NeighSet nl (arp_entry (Index link) ip (generateMACFromIP ip)) w1 = (None, w2)"
    "NeighSet nl (fdb_entry (Index link) ip (generateMACFromIP ip)) w2 = (None, world s')"
    "v' = v\<lparr>nodes := finsert nodeIP (nodes v)\<rparr>"
    "sys_metrics s' = (sys_metrics s)\<lparr>VTEPAddTotal := VTEPAddTotal (sys_metrics s) + 1,
                                      HybridNodesConfigured := fcard (nodes v')\<rparr>"
  using assms
  by (auto simp: AddRemoteNode_def Let_def call_eq_iff split: option.splits prod.splits)

lemma AddRemoteNode_path:
  assumes laws: "kernel_laws nl kv"
    and add: "AddRemoteNode nl podCIDR nodeIP (v, s) = (None, (v', s'))"
    and v: "GetLink (iface v) = Some link" "ParseIP nodeIP = Some ip" "ParseCIDR podCIDR = Some net"
    and v4: "To4 ip \<noteq> None"
    and ok: "tables_ok (Index link) (kv (world s))"
  shows "tunnel_endpoint (Index link) (kv (world s')) net = Some ip
         \<and> (\<forall>net' x. net' \<noteq> net \<longrightarrow> tunnel_endpoint (Index link) (kv (world s)) net' = Some x
              \<longrightarrow> tunnel_endpoint (Index link) (kv (world s')) net' = Some x)
         \<and> tables_ok (Index link) (kv (world s'))"
proof -
  let ?i = "Index link"
  from add obtain w1 w2 where
    "RouteReplace nl (pod_route ?i net ip) (world s) = (None, w1)"
    "NeighSet nl (arp_entry ?i ip (generateMACFromIP ip)) w1 = (None, w2)"
    "NeighSet nl (fdb_entry ?i ip (generateMACFromIP ip)) w2 = (None, world s')"
    by (rule AddRemoteNode_ok) (use v in auto)
  with kernel_add_requests [OF laws] v4 have k: "kv (world s') = program_node ?i net ip (kv (world s))"
    by (simp add: program_node_def)
  have l: "length ip = 16" using v(2) by (rule ParseIP_length)
  have "tables_ok ?i (program_node ?i net ip (kv (world s)))"
    unfolding program_node_def by (intro program_ok ok v4 l)
  with k show ?thesis
    using program_node_endpoint program_node_kept [OF ok v4 l] by simp
qed

text \<open>C8: A successful AddRemoteNode for an IPv4 node makes the kernel send packets for the pod CIDR
  to that node's tunnel endpoint, keeps the path to every other pod network that had one, and keeps
  the agreement of ARP and forwarding entries with the derived MAC addresses.\<close>

theorem AddRemoteNode_programs_path:
  assumes laws: "kernel_laws nl kv"
    and add: "AddRemoteNode nl podCIDR nodeIP (v, s) = (None, (v', s'))"
    and v: "GetLink (iface v) = Some link" "ParseIP nodeIP = Some ip" "ParseCIDR podCIDR = Some net"
    and v4: "To4 ip \<noteq> None"
    and ok: "tables_ok (Index link) (kv (world s))"
  shows "tunnel_endpoint (Index link) (kv (world s')) net = Some ip
         \<and> (\<forall>net' x. net' \<noteq> net \<longrightarrow> tunnel_endpoint (Index link) (kv (world s)) net' = Some x
              \<longrightarrow> tunnel_endpoint (Index link) (kv (world s')) net' = Some x)
         \<and> tables_ok (Index link) (kv (world s'))"
  using assms by (rule AddRemoteNode_path)

text \<open>C26: A failing AddRemoteNode records no node, never breaks the path of another pod network, and
  counts an error exactly when a kernel request failed: requests that are rejected because the
  interface is missing or an argument does not parse leave the whole state as it was.\<close>

theorem AddRemoteNode_error_safe:
  assumes laws: "kernel_laws nl kv"
    and add: "AddRemoteNode nl podCIDR nodeIP (v, s) = (Some e, (v', s'))"
    and v4: "\<And>ip. ParseIP nodeIP = Some ip \<Longrightarrow> To4 ip \<noteq> None"
    and ok: "\<And>link. GetLink (iface v) = Some link \<Longrightarrow> tables_ok (Index link) (kv (world s))"
  shows "v' = v
         \<and> (case e of
              NotInitialized \<Rightarrow> s' = s
            | InvalidRemoteIP _ \<Rightarrow> s' = s
            | InvalidPodCIDR _ \<Rightarrow> s' = s
            | _ \<Rightarrow> sys_metrics s' = inc_add_errors (sys_metrics s))
         \<and> (\<forall>link net' x. GetLink (iface v) = Some link \<longrightarrow> ParseCIDR podCIDR \<noteq> Some net' \<longrightarrow>
              tunnel_endpoint (Index link) (kv (world s)) net' = Some x \<longrightarrow>
              tunnel_endpoint (Index link) (kv (world s')) net' = Some x)"
proof (cases "GetLink (iface v)")
  case None
  with add show ?thesis by (auto simp: AddRemoteNode_def)
next
  case (Some link)
  note link = this
  note K = kernel_add_requests [OF laws] kernel_laws_error [OF laws]
  show ?thesis
  proof (cases "ParseIP nodeIP")
    case None
    with add link show ?thesis by (auto simp: AddRemoteNode_def)
  next
    case (Some ip)
    note ip = this
    have l: "length ip = 16" using ip by (rule ParseIP_length)
    show ?thesis
    proof (cases "ParseCIDR podCIDR")
      case None
      with add link ip show ?thesis by (auto simp: AddRemoteNode_def)
    next
      case (Some net)
      let ?i = "Index link"
      have ok': "tables_ok ?i (kv (world s))" using ok link by simp
      from add link ip Some have m: "v' = v" "sys_metrics s' = inc_add_errors (sys_metrics s)"
        "\<exists>x n. e = RouteError x n \<or> e = ARPError x n \<or> e = FDBError x n"
        by (auto simp: AddRemoteNode_def Let_def call_eq_iff split: option.splits prod.splits)
      from add link ip Some v4 [OF ip] K have
        "kv (world s') = kv (world s) \<or> kv (world s') = program_route ?i net ip (kv (world s))
         \<or> kv (world s') = program_arp ?i ip (program_route ?i net ip (kv (world s)))"
        by (auto simp: AddRemoteNode_def Let_def call_eq_iff split: option.splits prod.splits)
      then have "tunnel_endpoint ?i (kv (world s')) net' = Some x"
        if "net' \<noteq> net" "tunnel_endpoint ?i (kv (world s)) net' = Some x" for net' x
        using that program_route_kept program_arp_kept [OF program_ok(1) [OF ok']] by auto
      with m link Some show ?thesis by (auto split: vtep_error.splits)
    qed
  qed
qed

text \<open>A second AddRemoteNode for the same node and pod CIDR leaves the kernel's tables and the set
  of configured nodes as the first one left them, so re-delivered events are harmless.\<close>

theorem AddRemoteNode_idempotent:
  assumes laws: "kernel_laws nl kv"
    and a1: "AddRemoteNode nl podCIDR nodeIP (v, s) = (None, (v1, s1))"
    and a2: "AddRemoteNode nl podCIDR nodeIP (v1, s1) = (None, (v2, s2))"
    and v4: "\<And>ip. ParseIP nodeIP = Some ip \<Longrightarrow> To4 ip \<noteq> None"
  shows "kv (world s2) = kv (world s1) \<and> v2 = v1
         \<and> HybridNodesConfigured (sys_metrics s2) = HybridNodesConfigured (sys_metrics s1)"
proof -
  note K = kernel_add_requests [OF laws]
  from a1 obtain link ip net w1 w2 where
    p: "GetLink (iface v) = Some link" "ParseIP nodeIP = Some ip" "ParseCIDR podCIDR = Some net"
    and r1: "RouteReplace nl (pod_route (Index link) net ip) (world s) = (None, w1)"
      "NeighSet nl (arp_entry (Index link) ip (generateMACFromIP ip)) w1 = (None, w2)"
      "NeighSet nl (fdb_entry (Index link) ip (generateMACFromIP ip)) w2 = (None, world s1)"
    and v1: "v1 = v\<lparr>nodes := finsert nodeIP (nodes v)\<rparr>"
    and m1: "sys_metrics s1 = (sys_metrics s)\<lparr>VTEPAddTotal := VTEPAddTotal (sys_metrics s) + 1,
                                      HybridNodesConfigured := fcard (nodes v1)\<rparr>"
    by (rule AddRemoteNode_ok)
  from a2 obtain w3 w4 where
    r2: "RouteReplace nl (pod_route (Index link) net ip) (world s1) = (None, w3)"
      "NeighSet nl (arp_entry (Index link) ip (generateMACFromIP ip)) w3 = (None, w4)"
      "NeighSet nl (fdb_entry (Index link) ip (generateMACFromIP ip)) w4 = (None, world s2)"
    and v2: "v2 = v1\<lparr>nodes := finsert nodeIP (nodes v1)\<rparr>"
    and m2: "sys_metrics s2 = (sys_metrics s1)\<lparr>VTEPAddTotal := VTEPAddTotal (sys_metrics s1) + 1,
                                      HybridNodesConfigured := fcard (nodes v2)\<rparr>"
    by (rule AddRemoteNode_ok) (use p v1 in auto)
  have e1: "kv (world s1) = program_node (Index link) net ip (kv (world s))"
    using r1 K v4 [OF p(2)] by (simp add: program_node_def)
  have "kv (world s2) = program_node (Index link) net ip (kv (world s1))"
    using r2 K v4 [OF p(2)] by (simp add: program_node_def)
  with e1 have "kv (world s2) = kv (world s1)" by (simp add: program_defs)
  with v1 v2 m1 m2 show ?thesis by simp
qed

subsection \<open>Removal\<close>

lemma warn_remove_simps [simp]:
  "world (warn_remove (call op s)) = snd (op (world s))"
  "sys_metrics (warn_remove (call op s)) =
     (if fst (op (world s)) = None then sys_metrics s else inc_remove_errors (sys_metrics s))"
  by (auto simp: warn_remove_def call_def split: prod.splits option.splits)

lemma RemoveRemoteNode_ok:
  assumes "RemoveRemoteNode nl podCIDR nodeIP (v, s) = (None, (v', s'))"
  obtains link ip net e1 w1 e2 w2 e3 where
    "GetLink (iface v) = Some link" "ParseIP nodeIP = Some ip" "ParseCIDR podCIDR = Some net"
    "RouteDel nl (route_key (Index link) net) (world s) = (e1, w1)"
    "NeighDel nl (arp_key (Index link) ip) w1 = (e2, w2)"
    "NeighDel nl (fdb_key (Index link) ip) w2 = (e3, world s')"
    "v' = v\<lparr>nodes := nodes v |-| {|nodeIP|}\<rparr>"
    "sys_metrics s' = (sys_metrics s)\<lparr>VTEPRemoveTotal := VTEPRemoveTotal (sys_metrics s) + 1,
        VTEPRemoveErrorsTotal := VTEPRemoveErrorsTotal (sys_metrics s)
           + (if e1 = None then 0 else 1) + (if e2 = None then 0 else 1) + (if e3 = None then 0 else 1),
        HybridNodesConfigured := fcard (nodes v')\<rparr>"
proof -
  from assms obtain link ip net where
    p: "GetLink (iface v) = Some link" "ParseIP nodeIP = Some ip" "ParseCIDR podCIDR = Some net"
    by (auto simp: RemoveRemoteNode_def Let_def split: option.splits)
  obtain e1 w1 where r1: "RouteDel nl (route_key (Index link) net) (world s) = (e1, w1)" by fastforce
  obtain e2 w2 where r2: "NeighDel nl (arp_key (Index link) ip) w1 = (e2, w2)" by fastforce
  obtain e3 w3 where r3: "NeighDel nl (fdb_key (Index link) ip) w2 = (e3, w3)" by fastforce
  from assms p r1 r2 r3 have s': "world s' = w3" "v' = v\<lparr>nodes := nodes v |-| {|nodeIP|}\<rparr>"
    by (auto simp: RemoveRemoteNode_def Let_def)
  from assms p r1 r2 r3 have "sys_metrics s' = (sys_metrics s)\<lparr>VTEPRemoveTotal := VTEPRemoveTotal (sys_metrics s) + 1,
        VTEPRemoveErrorsTotal := VTEPRemoveErrorsTotal (sys_metrics s)
           + (if e1 = None then 0 else 1) + (if e2 = None then 0 else 1) + (if e3 = None then 0 else 1),
        HybridNodesConfigured := fcard (nodes v')\<rparr>"
    by (auto simp: RemoveRemoteNode_def Let_def inc_remove_errors_def)
  with that p r1 r2 r3 s' show ?thesis by blast
qed

text \<open>RemoveRemoteNode reports success and counts a successful removal whenever its arguments
  parse, whatever the kernel answers: each of the up to three failed deletions adds one to the
  error counter, the node is dropped from the configured set and the gauge follows the set.\<close>

theorem RemoveRemoteNode_always_succeeds:
  assumes "GetLink (iface v) = Some link" and "ParseIP nodeIP = Some ip" and "ParseCIDR podCIDR = Some net"
  shows "\<exists>v' s' k. RemoveRemoteNode nl podCIDR nodeIP (v, s) = (None, (v', s'))
           \<and> nodes v' = nodes v |-| {|nodeIP|} \<and> k \<le> 3
           \<and> sys_metrics s' = (sys_metrics s)\<lparr>VTEPRemoveTotal := VTEPRemoveTotal (sys_metrics s) + 1,
               VTEPRemoveErrorsTotal := VTEPRemoveErrorsTotal (sys_metrics s) + k,
               HybridNodesConfigured := fcard (nodes v')\<rparr>
           \<and> (k = 3 \<longleftrightarrow> (\<exists>e1 w1 e2 w2 e3 w3.
                RouteDel nl (route_key (Index link) net) (world s) = (Some e1, w1)
                \<and> NeighDel nl (arp_key (Index link) ip) w1 = (Some e2, w2)
                \<and> NeighDel nl (fdb_key (Index link) ip) w2 = (Some e3, w3)))"
proof -
  from assms have "fst (RemoveRemoteNode nl podCIDR nodeIP (v, s)) = None"
    by (simp add: RemoveRemoteNode_def Let_def)
  then obtain v' s' where r: "RemoveRemoteNode nl podCIDR nodeIP (v, s) = (None, (v', s'))"
    by (metis prod.collapse)
  then obtain e1 w1 e2 w2 e3 where
    "RouteDel nl (route_key (Index link) net) (world s) = (e1, w1)"
    "NeighDel nl (arp_key (Index link) ip) w1 = (e2, w2)"
    "NeighDel nl (fdb_key (Index link) ip) w2 = (e3, world s')"
    "v' = v\<lparr>nodes := nodes v |-| {|nodeIP|}\<rparr>"
    "sys_metrics s' = (sys_metrics s)\<lparr>VTEPRemoveTotal := VTEPRemoveTotal (sys_metrics s) + 1,
        VTEPRemoveErrorsTotal := VTEPRemoveErrorsTotal (sys_metrics s)
           + ((if e1 = None then 0 else 1) + (if e2 = None then 0 else 1) + (if e3 = None then 0 else 1)),
        HybridNodesConfigured := fcard (nodes v')\<rparr>"
    by (rule RemoveRemoteNode_ok) (use assms in \<open>auto simp: add.assoc\<close>)
  with r show ?thesis
    by (intro exI [of _ v'] exI [of _ s']
        exI [of _ "(if e1 = None then 0 else 1) + (if e2 = None then 0 else 1) + (if e3 = None then 0 else 1)"])
       auto
qed

lemma kernel_del_requests:
  assumes "kernel_laws nl kv"
  shows "RouteDel nl (route_key idx net) w = (e, w') \<Longrightarrow>
           kv w' = (if e = None then (kv w)\<lparr>kroutes := (kroutes (kv w))(net := None)\<rparr> else kv w)"
    and "NeighDel nl (arp_key idx ip) w = (e, w') \<Longrightarrow> To4 ip \<noteq> None \<Longrightarrow>
           kv w' = (if e = None then (kv w)\<lparr>karp := (karp (kv w))((idx, ip) := None)\<rparr> else kv w)"
  using kernel_laws_route(2) [OF assms, of "route_key idx net" w w']
    kernel_laws_error(2) [OF assms, of "route_key idx net" w _ w']
    kernel_laws_neigh(3) [OF assms, of "arp_key idx ip" w w']
    kernel_laws_error(4) [OF assms, of "arp_key idx ip" w _ w']
  by (cases e; simp add: vtep_request_defs)+

text \<open>C31: The forwarding entry of a removed node stays behind.  The deletion request that
  RemoveRemoteNode sends names no hardware address, and the kernel rejects such requests: after
  the removal the whole forwarding database is what it was, and the error counter has grown.\<close>

theorem RemoveRemoteNode_leaves_fdb:
  assumes laws: "kernel_laws nl kv" and fdb: "fdb_del_law nl"
    and rem: "RemoveRemoteNode nl podCIDR nodeIP (v, s) = (None, (v', s'))"
    and v4: "\<And>ip. ParseIP nodeIP = Some ip \<Longrightarrow> To4 ip \<noteq> None"
  shows "kfdb (kv (world s')) = kfdb (kv (world s))
         \<and> VTEPRemoveErrorsTotal (sys_metrics s) < VTEPRemoveErrorsTotal (sys_metrics s')"
proof -
  from rem obtain link :: Link and ip net e1 w1 e2 w2 e3 where
    r: "ParseIP nodeIP = Some ip"
      "RouteDel nl (route_key (Index link) net) (world s) = (e1, w1)"
      "NeighDel nl (arp_key (Index link) ip) w1 = (e2, w2)"
      "NeighDel nl (fdb_key (Index link) ip) w2 = (e3, world s')"
    and m: "sys_metrics s' = (sys_metrics s)\<lparr>VTEPRemoveTotal := VTEPRemoveTotal (sys_metrics s) + 1,
        VTEPRemoveErrorsTotal := VTEPRemoveErrorsTotal (sys_metrics s)
           + (if e1 = None then 0 else 1) + (if e2 = None then 0 else 1) + (if e3 = None then 0 else 1),
        HybridNodesConfigured := fcard (nodes v')\<rparr>"
    by (rule RemoveRemoteNode_ok) blast
  have "n_Family (fdb_key (Index link) ip) = af_bridge" "n_HardwareAddr (fdb_key (Index link) ip) = None"
    by (simp_all add: vtep_request_defs)
  with fdb have "fst (NeighDel nl (fdb_key (Index link) ip) w2) \<noteq> None" by (simp add: fdb_del_law_def)
  with r(4) obtain n where e3: "e3 = Some n" by auto
  have "kv (world s') = kv w2" using kernel_laws_error(4) [OF laws] r(4) e3 by auto
  moreover have "kfdb (kv w2) = kfdb (kv w1)" "kfdb (kv w1) = kfdb (kv (world s))"
    using kernel_del_requests(1) [OF laws r(2)] kernel_del_requests(2) [OF laws r(3) v4 [OF r(1)]] by simp_all
  ultimately show ?thesis using m e3 by simp
qed

text \<open>C29: After RemoveRemoteNode, if the kernel deleted the route, packets for the pod CIDR have no
  tunnel endpoint any more, while every pod network served by another node keeps its own.\<close>

theorem RemoveRemoteNode_unroutes:
  assumes laws: "kernel_laws nl kv" and fdb: "fdb_del_law nl"
    and rem: "RemoveRemoteNode nl podCIDR nodeIP (v, s) = (None, (v', s'))"
    and v: "GetLink (iface v) = Some link" "ParseIP nodeIP = Some ip" "ParseCIDR podCIDR = Some net"
    and v4: "To4 ip \<noteq> None"
    and ok: "tables_ok (Index link) (kv (world s))"
    and del: "RouteDel nl (route_key (Index link) net) (world s) = (None, w1)"
  shows "tunnel_endpoint (Index link) (kv (world s')) net = None
         \<and> (\<forall>net' x. net' \<noteq> net \<longrightarrow> x \<noteq> ip \<longrightarrow> tunnel_endpoint (Index link) (kv (world s)) net' = Some x
              \<longrightarrow> tunnel_endpoint (Index link) (kv (world s')) net' = Some x)"
proof -
  let ?i = "Index link"
  from rem obtain e2 w2 e3 where
    r: "NeighDel nl (arp_key ?i ip) w1 = (e2, w2)" "NeighDel nl (fdb_key ?i ip) w2 = (e3, world s')"
    by (rule RemoveRemoteNode_ok) (use v del in auto)
  have "n_Family (fdb_key ?i ip) = af_bridge" "n_HardwareAddr (fdb_key ?i ip) = None"
    by (simp_all add: vtep_request_defs)
  with fdb have "fst (NeighDel nl (fdb_key ?i ip) w2) \<noteq> None" by (simp add: fdb_del_law_def)
  with r(2) obtain n where e3: "e3 = Some n" by auto
  have k1: "kv w1 = (kv (world s))\<lparr>kroutes := (kroutes (kv (world s)))(net := None)\<rparr>"
    using kernel_del_requests(1) [OF laws del] by simp
  have k2: "kv (world s') = kv w2" using kernel_laws_error(4) [OF laws] r(2) e3 by auto
  have k3: "kv w2 = (if e2 = None then (kv w1)\<lparr>karp := (karp (kv w1))((?i, ip) := None)\<rparr> else kv w1)"
    using kernel_del_requests(2) [OF laws r(1) v4] .
  have "tunnel_endpoint ?i (kv (world s')) net' = Some x"
    if h: "net' \<noteq> net" "x \<noteq> ip" "tunnel_endpoint ?i (kv (world s)) net' = Some x" for net' x
  proof -
    from tables_ok_endpoint [OF ok h(3)] obtain rt where
      "kroutes (kv (world s)) net' = Some rt" "rt_Gw rt = Some x" by blast
    with h k1 k2 k3 show ?thesis by (auto simp: tunnel_endpoint_def split: option.splits)
  qed
  moreover have "tunnel_endpoint ?i (kv (world s')) net = None"
    using k1 k2 k3 by (simp add: tunnel_endpoint_def)
  ultimately show ?thesis by blast
qed

subsection \<open>Runs of operations\<close>

datatype vtep_op = AddNode string string | RemoveNode string string

fun vtep_step :: "'w netlink \<Rightarrow> 'w vtep_state \<Rightarrow> vtep_op \<Rightarrow> 'w vtep_state" where
  "vtep_step nl vs (AddNode c ip) = snd (AddRemoteNode nl c ip vs)"
| "vtep_step nl vs (RemoveNode c ip) = snd (RemoveRemoteNode nl c ip vs)"

definition gauge_ok :: "'w vtep_state \<Rightarrow> bool" where
  "gauge_ok vs \<longleftrightarrow> HybridNodesConfigured (sys_metrics (snd vs)) = fcard (nodes (fst vs))"

lemma AddRemoteNode_gauge: "gauge_ok vs \<Longrightarrow> gauge_ok (snd (AddRemoteNode nl c ip vs))"
  by (cases vs) (auto simp: AddRemoteNode_def gauge_ok_def Let_def call_eq_iff inc_add_errors_def
      split: option.splits prod.splits)

lemma RemoveRemoteNode_gauge: "gauge_ok vs \<Longrightarrow> gauge_ok (snd (RemoveRemoteNode nl c ip vs))"
  by (cases vs) (auto simp: RemoveRemoteNode_def gauge_ok_def Let_def split: option.splits)

interpretation vtep_runs: invariant_system "vtep_step nl" gauge_ok for nl :: "'w netlink"
proof
  fix s :: "'w vtep_state" and x
  assume "gauge_ok s"
  then show "gauge_ok (vtep_step nl s x)"
    by (cases x) (simp_all add: AddRemoteNode_gauge RemoveRemoteNode_gauge)
qed

text \<open>C30: In every state that additions and removals can reach from a new VTEP, whatever the kernel
  answers to their requests, the gauge of configured hybrid nodes is the size of the node set.\<close>

theorem HybridNodesConfigured_exact:
  "gauge_ok (run (vtep_step nl) (NewVTEP i, \<lparr>sys_metrics = metrics_init, world = w\<rparr>) ops)"
  by (rule vtep_runs.run_good) (simp add: gauge_ok_def NewVTEP_def metrics_init_def)

subsection \<open>What the node reconciler relies on\<close>

locale node_table =
  fixes add :: "string \<Rightarrow> string \<Rightarrow> 's \<Rightarrow> 'e option \<times> 's"
    and remove :: "string \<Rightarrow> string \<Rightarrow> 's \<Rightarrow> 'e option \<times> 's"
    and configured :: "'s \<Rightarrow> string fset"
  assumes add_ok: "add c ip s = (None, s') \<Longrightarrow> configured s' = finsert ip (configured s)"
    and add_error: "add c ip s = (Some e, s') \<Longrightarrow> configured s' = configured s"
    and remove_ok: "remove c ip s = (None, s') \<Longrightarrow> configured s' = configured s |-| {|ip|}"
    and remove_error: "remove c ip s = (Some e, s') \<Longrightarrow> configured s' = configured s"
begin

lemma add_configures: "add c ip s = (None, s') \<Longrightarrow> ip |\<in>| configured s'"
  by (simp add: add_ok)

lemma remove_forgets: "remove c ip s = (None, s') \<Longrightarrow> ip |\<notin>| configured s'"
  by (simp add: remove_ok)

lemma add_other: "x \<noteq> ip \<Longrightarrow> x |\<in>| configured (snd (add c ip s)) \<longleftrightarrow> x |\<in>| configured s"
  using add_ok [of c ip s] add_error [of c ip s] by (cases "add c ip s"; cases "fst (add c ip s)") auto

lemma remove_other: "x \<noteq> ip \<Longrightarrow> x |\<in>| configured (snd (remove c ip s)) \<longleftrightarrow> x |\<in>| configured s"
  using remove_ok [of c ip s] remove_error [of c ip s]
  by (cases "remove c ip s"; cases "fst (remove c ip s)") auto

end

definition configured_nodes :: "'w vtep_state \<Rightarrow> string fset" where
  "configured_nodes vs = nodes (fst vs)"

interpretation vtep_table: node_table "AddRemoteNode nl" "RemoveRemoteNode nl" configured_nodes
  for nl :: "'w netlink"
proof
  fix c ip and s s' :: "'w vtep_state" and e
  show "AddRemoteNode nl c ip s = (None, s') \<Longrightarrow> configured_nodes s' = finsert ip (configured_nodes s)"
    by (cases s; cases s') (auto simp: configured_nodes_def elim: AddRemoteNode_ok)
  show "AddRemoteNode nl c ip s = (Some e, s') \<Longrightarrow> configured_nodes s' = configured_nodes s"
    by (cases s; cases s')
       (auto simp: configured_nodes_def AddRemoteNode_def Let_def split: option.splits prod.splits)
  show "RemoveRemoteNode nl c ip s = (None, s') \<Longrightarrow> configured_nodes s' = configured_nodes s |-| {|ip|}"
    by (cases s; cases s') (auto simp: configured_nodes_def elim: RemoveRemoteNode_ok)
  show "RemoveRemoteNode nl c ip s = (Some e, s') \<Longrightarrow> configured_nodes s' = configured_nodes s"
    by (cases s; cases s')
       (auto simp: configured_nodes_def RemoveRemoteNode_def Let_def split: option.splits)
qed

subsection \<open>Witnesses\<close>

definition ex_link :: Link where
  "ex_link = \<lparr>Index = 7, lk_Name = DefaultVXLANInterface, lk_FlagUp = True, OperState = OperUp, Statistics = None\<rparr>"

definition ex_vtep :: VTEP where
  "ex_vtep = NewVTEP ((NewInterface example_config)\<lparr>if_link := Some ex_link\<rparr>)"

definition ex_sys :: "host sys" where
  "ex_sys = \<lparr>sys_metrics = metrics_init, world = host0\<rparr>"

definition ex_ip :: IP where
  "ex_ip = v4InV6Prefix @ [10, 1, 2, 3]"

definition ex_net :: IPNet where
  "ex_net = \<lparr>net_IP = [10, 86, 232, 0], net_Mask = [255, 255, 255, 128]\<rparr>"

text \<open>A kernel that refuses every neighbour request.\<close>

definition no_neigh :: "host netlink" where
  "no_neigh = linux\<lparr>NeighSet := (\<lambda>_ h. (Some 12, h))\<rparr>"

lemma no_neigh_laws: "kernel_laws no_neigh h_kernel"
  using linux_laws
  by (auto simp: no_neigh_def kernel_laws_def atomic_requests_def route_laws_def neigh_laws_def)

lemma ex_parse_ip: "ParseIP ''10.1.2.3'' = Some ex_ip"
  by (simp add: ParseIP_def ParseAddr_def is_dig_def dig_val_def ex_ip_def)

lemma ex_parse_cidr: "ParseCIDR ''10.86.232.0/25'' = Some ex_net"
  by (simp add: ParseCIDR_def ParseAddr_def is_dig_def dig_val_def dtoi_def CIDRMask_def IP_Mask_def
      v4InV6Prefix_def ex_net_def)

lemma ex_v4: "To4 ex_ip \<noteq> None"
  by (simp add: ex_ip_def)

lemma ex_get_link: "GetLink (iface ex_vtep) = Some ex_link"
  by (simp add: ex_vtep_def NewVTEP_def GetLink_def)

lemma ex_tables_ok: "tables_ok (Index ex_link) (h_kernel (world ex_sys))"
  by (simp add: tables_ok_def ex_sys_def host0_def)

lemma linux_add:
  assumes "GetLink (iface v) = Some link" "ParseIP c = Some ip" "ParseCIDR d = Some net"
  shows "\<exists>v' s'. AddRemoteNode linux d c (v, s) = (None, (v', s')) \<and> iface v' = iface v"
  using assms by (simp add: AddRemoteNode_def Let_def call_def linux_def vtep_request_defs)

lemma linux_remove:
  assumes "GetLink (iface v) = Some link" "ParseIP c = Some ip" "ParseCIDR d = Some net"
  shows "\<exists>v' s'. RemoveRemoteNode linux d c (v, s) = (None, (v', s'))"
  using assms by (simp add: RemoveRemoteNode_def Let_def)

lemmas ex_args = ex_get_link ex_parse_ip ex_parse_cidr

theorem generateMACFromIP_unique_witness:
  "generateMACFromIP ex_ip = generateMACFromIP ex_ip \<longleftrightarrow> ex_ip = ex_ip"
  by (rule generateMACFromIP_unique [OF ex_parse_ip ex_parse_ip ex_v4 ex_v4])

theorem generateMACFromIP_ipv6_collide_witness:
  "To4 [0, 0, 0, 0, 0, 0, 0, 0, 0, 0, 0, 0, 0, 0, 0, 1] = None \<and> To4 [0, 0, 0, 0, 0, 0, 0, 0, 0, 0, 0, 0, 0, 0, 0, 2] = None
   \<and> generateMACFromIP [0, 0, 0, 0, 0, 0, 0, 0, 0, 0, 0, 0, 0, 0, 0, 1] = generateMACFromIP [0, 0, 0, 0, 0, 0, 0, 0, 0, 0, 0, 0, 0, 0, 0, 2]"
proof -
  have n: "To4 [0, 0, 0, 0, 0, 0, 0, 0, 0, 0, 0, 0, 0, 0, 0, 1] = None" "To4 [0, 0, 0, 0, 0, 0, 0, 0, 0, 0, 0, 0, 0, 0, 0, 2] = None"
    by (simp_all add: To4_def v4InV6Prefix_def)
  with generateMACFromIP_ipv6_collide [OF n] show ?thesis by simp
qed

theorem AddRemoteNode_programs_path_witness:
  "\<exists>v' s'. AddRemoteNode linux ''10.86.232.0/25'' ''10.1.2.3'' (ex_vtep, ex_sys) = (None, (v', s'))
     \<and> tunnel_endpoint (Index ex_link) (h_kernel (world s')) ex_net = Some ex_ip"
proof -
  obtain v' s' where a: "AddRemoteNode linux ''10.86.232.0/25'' ''10.1.2.3'' (ex_vtep, ex_sys) = (None, (v', s'))"
    using linux_add [OF ex_args] by blast
  from AddRemoteNode_programs_path [OF linux_laws a ex_args ex_v4 ex_tables_ok] a show ?thesis by blast
qed

theorem AddRemoteNode_error_safe_witness:
  "\<exists>s'. AddRemoteNode no_neigh ''10.86.232.0/25'' ''10.1.2.3'' (ex_vtep, ex_sys)
          = (Some (ARPError ''10.1.2.3'' 12), (ex_vtep, s'))
     \<and> sys_metrics s' = inc_add_errors (sys_metrics ex_sys)"
proof -
  obtain v' s' where a: "AddRemoteNode no_neigh ''10.86.232.0/25'' ''10.1.2.3'' (ex_vtep, ex_sys)
      = (Some (ARPError ''10.1.2.3'' 12), (v', s'))"
    by (simp add: AddRemoteNode_def Let_def call_def no_neigh_def linux_def ex_args)
  have h: "\<And>ip. ParseIP ''10.1.2.3'' = Some ip \<Longrightarrow> To4 ip \<noteq> None"
    "\<And>link. GetLink (iface ex_vtep) = Some link \<Longrightarrow> tables_ok (Index link) (h_kernel (world ex_sys))"
    using ex_parse_ip ex_v4 ex_get_link ex_tables_ok by auto
  from AddRemoteNode_error_safe [OF no_neigh_laws a h] a show ?thesis by simp
qed

theorem AddRemoteNode_idempotent_witness:
  "\<exists>v1 s1 v2 s2. AddRemoteNode linux ''10.86.232.0/25'' ''10.1.2.3'' (ex_vtep, ex_sys) = (None, (v1, s1))
     \<and> AddRemoteNode linux ''10.86.232.0/25'' ''10.1.2.3'' (v1, s1) = (None, (v2, s2))
     \<and> h_kernel (world s2) = h_kernel (world s1) \<and> v2 = v1"
proof -
  obtain v1 s1 where a: "AddRemoteNode linux ''10.86.232.0/25'' ''10.1.2.3'' (ex_vtep, ex_sys) = (None, (v1, s1))"
    and i: "iface v1 = iface ex_vtep"
    using linux_add [OF ex_args] by blast
  obtain v2 s2 where b: "AddRemoteNode linux ''10.86.232.0/25'' ''10.1.2.3'' (v1, s1) = (None, (v2, s2))"
    using linux_add [of v1, OF _ ex_parse_ip ex_parse_cidr] i ex_get_link by fastforce
  have h: "\<And>ip. ParseIP ''10.1.2.3'' = Some ip \<Longrightarrow> To4 ip \<noteq> None" using ex_parse_ip ex_v4 by auto
  from AddRemoteNode_idempotent [OF linux_laws a b h] a b show ?thesis by blast
qed

theorem RemoveRemoteNode_always_succeeds_witness:
  "\<exists>v' s'. RemoveRemoteNode linux ''10.86.232.0/25'' ''10.1.2.3'' (ex_vtep, ex_sys) = (None, (v', s'))
     \<and> VTEPRemoveTotal (sys_metrics s') = 1"
proof -
  have "VTEPRemoveTotal (sys_metrics ex_sys) = 0" by (simp add: ex_sys_def metrics_init_def)
  with RemoveRemoteNode_always_succeeds [OF ex_args, of linux ex_sys] show ?thesis by auto
qed

theorem RemoveRemoteNode_leaves_fdb_witness:
  "\<exists>v' s'. RemoveRemoteNode linux ''10.86.232.0/25'' ''10.1.2.3'' (ex_vtep, ex_sys) = (None, (v', s'))
     \<and> kfdb (h_kernel (world s')) = kfdb (h_kernel (world ex_sys)) \<and> 0 < VTEPRemoveErrorsTotal (sys_metrics s')"
proof -
  obtain v' s' where r: "RemoveRemoteNode linux ''10.86.232.0/25'' ''10.1.2.3'' (ex_vtep, ex_sys) = (None, (v', s'))"
    using linux_remove [OF ex_args] by blast
  have h: "\<And>ip. ParseIP ''10.1.2.3'' = Some ip \<Longrightarrow> To4 ip \<noteq> None" using ex_parse_ip ex_v4 by auto
  from RemoveRemoteNode_leaves_fdb [OF linux_laws linux_fdb_del r h] r show ?thesis by auto
qed

theorem RemoveRemoteNode_unroutes_witness:
  "\<exists>v1 s1 v2 s2. AddRemoteNode linux ''10.86.232.0/25'' ''10.1.2.3'' (ex_vtep, ex_sys) = (None, (v1, s1))
     \<and> RemoveRemoteNode linux ''10.86.232.0/25'' ''10.1.2.3'' (v1, s1) = (None, (v2, s2))
     \<and> tunnel_endpoint (Index ex_link) (h_kernel (world s1)) ex_net = Some ex_ip
     \<and> tunnel_endpoint (Index ex_link) (h_kernel (world s2)) ex_net = None"
proof -
  obtain v1 s1 where a: "AddRemoteNode linux ''10.86.232.0/25'' ''10.1.2.3'' (ex_vtep, ex_sys) = (None, (v1, s1))"
    and i: "iface v1 = iface ex_vtep"
    using linux_add [OF ex_args] by blast
  have l: "GetLink (iface v1) = Some ex_link" using i ex_get_link by simp
  obtain v2 s2 where b: "RemoveRemoteNode linux ''10.86.232.0/25'' ''10.1.2.3'' (v1, s1) = (None, (v2, s2))"
    using linux_remove [OF l ex_parse_ip ex_parse_cidr] by blast
  have k: "h_kernel (world s1) = program_node (Index ex_link) ex_net ex_ip (h_kernel (world ex_sys))"
    using a kernel_add_requests [OF linux_laws] ex_v4
    by (auto simp: program_node_def ex_args elim!: AddRemoteNode_ok)
  have ok: "tables_ok (Index ex_link) (h_kernel (world s1))"
    unfolding k program_node_def
    by (intro program_ok ex_tables_ok ex_v4 ParseIP_length [OF ex_parse_ip])
  have "kroutes (h_kernel (world s1)) ex_net \<noteq> None" by (simp add: k program_defs)
  then obtain w1 where d: "RouteDel linux (route_key (Index ex_link) ex_net) (world s1) = (None, w1)"
    by (simp add: linux_def route_key_def)
  from RemoveRemoteNode_unroutes [OF linux_laws linux_fdb_del b l ex_parse_ip ex_parse_cidr ex_v4 ok d]
    a b k show ?thesis by (auto simp: program_node_endpoint)
qed

end
