(* ===== verification/Controllers.thy ===== *)
theory Controllers
  imports Vtep Cilium_Config
begin

text \<open>
  \<^verbatim>\<open>internal/controller\<close>: the two reconcilers.  \<open>NodeReconcile\<close> (\<^verbatim>\<open>node.go\<close>) keeps the tunnel endpoints of
  the hybrid nodes in step with the cluster's CiliumNode objects; \<open>VTEPConfigReconcile\<close>
  (\<^verbatim>\<open>vtepconfig.go\<close>) restores the CiliumVTEPConfig object.  A reconciler's result value is always the
  empty \<^verbatim>\<open>ctrl.Result\<close>, so only its error is kept.  Reading a CiliumNode is the parameter \<open>getNode\<close>;
  building a controller is the parameter \<open>complete\<close>.
\<close>

definition HybridNodeLabel :: string where "HybridNodeLabel = ''eks.amazonaws.com/compute-type''"
definition HybridNodeValue :: string where "HybridNodeValue = ''hybrid''"

datatype AddressType = NodeInternalIP | NodeExternalIP | NodeHostName | NodeCiliumInternalIP | OtherAddress string

record CiliumNode =
  cn_Name :: string
  Labels :: "string \<rightharpoonup> string"
  DeletionTimestamp :: "duration option" \<comment> \<open>None is the zero time\<close>
  Addresses :: "(AddressType \<times> string) list"
  PodCIDRs :: "string list"

datatype reconcile_error =
    NodeGetError k8s_error
  | NoInternalIP string
  | NoPodCIDRs string
  | VtepFailed vtep_error

definition IsHybridNode :: "CiliumNode \<Rightarrow> bool" where
  "IsHybridNode node \<longleftrightarrow> (case Labels node HybridNodeLabel of None \<Rightarrow> [] | Some v \<Rightarrow> v) = HybridNodeValue"

fun first_internal :: "(AddressType \<times> string) list \<Rightarrow> string" where
  "first_internal [] = []"
| "first_internal ((t, ip) # addrs) = (if t = NodeInternalIP then ip else first_internal addrs)"

definition GetNodeInternalIP :: "CiliumNode \<Rightarrow> string" where
  "GetNodeInternalIP node = first_internal (Addresses node)"

definition GetPodCIDR :: "CiliumNode \<Rightarrow> reconcile_error + string" where
  "GetPodCIDR node = (case PodCIDRs node of [] \<Rightarrow> Inl (NoPodCIDRs (cn_Name node)) | c # _ \<Rightarrow> Inr c)"

definition NodeReconcile ::
  "'w netlink \<Rightarrow> (string \<Rightarrow> 'w \<Rightarrow> (k8s_error + CiliumNode) \<times> 'w) \<Rightarrow> string \<Rightarrow> 'w vtep_state \<Rightarrow>
     reconcile_error option \<times> 'w vtep_state" where
  "NodeReconcile nl getNode req vs =
     (let (v, s) = vs in
      case call (getNode req) s of
        (Inl err, s1) \<Rightarrow> if err = NotFound then (None, (v, s1)) else (Some (NodeGetError err), (v, s1))
      | (Inr node, s1) \<Rightarrow>
          if \<not> IsHybridNode node then (None, (v, s1))
          else
            (let nodeIP = GetNodeInternalIP node in
             if nodeIP = [] then (Some (NoInternalIP (cn_Name node)), (v, s1))
             else case GetPodCIDR node of
               Inl err \<Rightarrow> (Some err, (v, s1))
             | Inr podCIDR \<Rightarrow>
                 if DeletionTimestamp node \<noteq> None then
                   (case RemoveRemoteNode nl podCIDR nodeIP (v, s1) of
                      (Some err, vs2) \<Rightarrow> (Some (VtepFailed err), vs2)
                    | (None, vs2) \<Rightarrow> (None, vs2))
                 else
                   (case AddRemoteNode nl podCIDR nodeIP (v, s1) of
                      (Some err, vs2) \<Rightarrow> (Some (VtepFailed err), vs2)
                    | (None, vs2) \<Rightarrow> (None, vs2))))"

record VTEPConfigReconciler =
  VxlanIface :: Interface
  NodeIP :: IP
  VpcCIDRs :: "string list"

definition VTEPConfigReconcile ::
  "unstruct \<Rightarrow> 'w k8s \<Rightarrow> VTEPConfigReconciler \<Rightarrow> string \<Rightarrow> 'w \<Rightarrow> upsert_error option \<times> 'w" where
  "VTEPConfigReconcile u k r req w =
     (if req \<noteq> CiliumVTEPConfigName then (None, w)
      else case UpsertCiliumVTEPConfig u k (VxlanIface r) (NodeIP r) (VpcCIDRs r) w of
        (Some err, w1) \<Rightarrow> (Some err, w1)
      | (None, w1) \<Rightarrow> (None, w1))"

subsection \<open>Registration\<close>

datatype watched = WatchCiliumNode | WatchUnstructured GroupVersionKind

record ControllerSpec =
  cs_For :: watched
  cs_NeedLeaderElection :: bool

text \<open>What a controller is completed with: the reconciler object, with the client and the components it holds.\<close>

datatype 'w reconciler =
    NodeReconciler "'w k8s" VTEP
  | ConfigReconciler "'w k8s" VTEPConfigReconciler

definition NodeReconciler_SetupWithManager ::
  "'w k8s \<Rightarrow> VTEP \<Rightarrow> (ControllerSpec \<Rightarrow> 'w reconciler \<Rightarrow> 'w \<Rightarrow> 'e option \<times> 'w) \<Rightarrow> 'w \<Rightarrow> 'e option \<times> 'w" where
  "NodeReconciler_SetupWithManager client vtep complete w =
     (let leaderElectionNotRequired = False in
      complete \<lparr>cs_For = WatchCiliumNode, cs_NeedLeaderElection = leaderElectionNotRequired\<rparr> (NodeReconciler client vtep) w)"

definition VTEPConfigReconciler_SetupWithManager ::
  "'w k8s \<Rightarrow> VTEPConfigReconciler \<Rightarrow> (ControllerSpec \<Rightarrow> 'w reconciler \<Rightarrow> 'w \<Rightarrow> 'e option \<times> 'w) \<Rightarrow> 'w \<Rightarrow> 'e option \<times> 'w" where
  "VTEPConfigReconciler_SetupWithManager client r complete w =
     complete \<lparr>cs_For = WatchUnstructured \<lparr>Group = ''cilium.io'', Version = ''v2'', Kind = ''CiliumVTEPConfig''\<rparr>,
       cs_NeedLeaderElection = True\<rparr> (ConfigReconciler client r) w"

subsection \<open>Reconciling nodes\<close>

text \<open>The node set that one observation of the cluster asks for.\<close>

definition observed_set :: "k8s_error + CiliumNode \<Rightarrow> string fset \<Rightarrow> string fset" where
  "observed_set g ns =
     (case g of
        Inl _ \<Rightarrow> ns
      | Inr node \<Rightarrow>
          if \<not> IsHybridNode node then ns
          else if DeletionTimestamp node \<noteq> None then ns |-| {|GetNodeInternalIP node|}
          else finsert (GetNodeInternalIP node) ns)"

lemma NodeReconcile_cases:
  assumes "NodeReconcile nl getNode req (v, s) = (r, vs')"
  obtains (missing) s1 where "call (getNode req) s = (Inl NotFound, s1)" and "r = None" and "vs' = (v, s1)"
    | (unread) e s1 where "call (getNode req) s = (Inl e, s1)" and "e \<noteq> NotFound" and "r = Some (NodeGetError e)"
        and "vs' = (v, s1)"
    | (foreign) node s1 where "call (getNode req) s = (Inr node, s1)" and "\<not> IsHybridNode node" and "r = None"
        and "vs' = (v, s1)"
    | (invalid) node s1 where "call (getNode req) s = (Inr node, s1)" and "IsHybridNode node" and "r \<noteq> None"
        and "GetNodeInternalIP node = [] \<or> PodCIDRs node = []" and "vs' = (v, s1)"
    | (removal) node s1 c cs r0 where "call (getNode req) s = (Inr node, s1)" and "IsHybridNode node"
        and "PodCIDRs node = c # cs" and "DeletionTimestamp node \<noteq> None" and "GetNodeInternalIP node \<noteq> []"
        and "RemoveRemoteNode nl c (GetNodeInternalIP node) (v, s1) = (r0, vs')" and "r = map_option VtepFailed r0"
    | (addition) node s1 c cs r0 where "call (getNode req) s = (Inr node, s1)" and "IsHybridNode node"
        and "PodCIDRs node = c # cs" and "DeletionTimestamp node = None" and "GetNodeInternalIP node \<noteq> []"
        and "AddRemoteNode nl c (GetNodeInternalIP node) (v, s1) = (r0, vs')" and "r = map_option VtepFailed r0"
proof -
  obtain g s1 where g: "call (getNode req) s = (g, s1)" by fastforce
  show thesis
  proof (cases g)
    case (Inl e)
    with g assms missing unread show thesis by (cases "e = NotFound") (simp_all add: NodeReconcile_def)
  next
    case (Inr node)
    show thesis
    proof (cases "IsHybridNode node \<and> GetNodeInternalIP node \<noteq> [] \<and> PodCIDRs node \<noteq> []")
      case True
      then obtain c cs where c: "PodCIDRs node = c # cs" by (auto simp: neq_Nil_conv)
      with True Inr g assms removal addition show thesis
        by (cases "DeletionTimestamp node")
           (auto simp: NodeReconcile_def Let_def GetPodCIDR_def split: prod.splits option.splits)
    next
      case False
      with Inr g assms foreign invalid show thesis
        by (auto simp: NodeReconcile_def Let_def GetPodCIDR_def split: if_splits list.splits)
    qed
  qed
qed

text \<open>C12: NodeReconcile implements its specification on the set of configured nodes: a successful run leaves
  exactly the set that the observed CiliumNode asks for (the hybrid node added, or removed when it is being
  deleted; nothing for other nodes), and a failed run leaves the set as it was and reports its error, so that
  the request is retried.\<close>

theorem NodeReconcile_refines:
  assumes "NodeReconcile nl getNode req (v, s) = (r, (v', s'))"
  shows "nodes v' = (if r = None then observed_set (fst (getNode req (world s))) (nodes v) else nodes v)"
  using assms
proof (cases rule: NodeReconcile_cases)
  case (removal node s1 c cs r0)
  then have g: "fst (getNode req (world s)) = Inr node" by (metis call_fst fst_conv)
  show ?thesis
    using removal g vtep_table.remove_ok [of nl c "GetNodeInternalIP node" "(v, s1)" "(v', s')"]
      vtep_table.remove_error [of nl c "GetNodeInternalIP node" "(v, s1)" _ "(v', s')"]
    by (cases r0) (auto simp: observed_set_def configured_nodes_def)
next
  case (addition node s1 c cs r0)
  then have g: "fst (getNode req (world s)) = Inr node" by (metis call_fst fst_conv)
  show ?thesis
    using addition g vtep_table.add_ok [of nl c "GetNodeInternalIP node" "(v, s1)" "(v', s')"]
      vtep_table.add_error [of nl c "GetNodeInternalIP node" "(v, s1)" _ "(v', s')"]
    by (cases r0) (auto simp: observed_set_def configured_nodes_def)
qed (auto simp: observed_set_def call_eq_iff)

text \<open>Reading a CiliumNode does not touch the kernel.\<close>

definition reads_only :: "(string \<Rightarrow> 'w \<Rightarrow> 'r \<times> 'w) \<Rightarrow> ('w \<Rightarrow> 'k) \<Rightarrow> bool" where
  "reads_only get kv \<longleftrightarrow> (\<forall>req w. kv (snd (get req w)) = kv w)"

text \<open>C11: A successful reconciliation of a live hybrid node connects it: afterwards the kernel tunnels packets
  for the node's pod CIDR to the node's internal IP address, and every other pod network keeps its path.\<close>

theorem NodeReconcile_connects:
  assumes laws: "kernel_laws nl kv" and reads: "reads_only getNode kv"
    and run: "NodeReconcile nl getNode req (v, s) = (None, (v', s'))"
    and seen: "fst (getNode req (world s)) = Inr node" "IsHybridNode node" "DeletionTimestamp node = None"
    and node: "PodCIDRs node = c # cs" "ParseCIDR c = Some net" "ParseIP (GetNodeInternalIP node) = Some ip" "To4 ip \<noteq> None"
    and link: "GetLink (iface v) = Some link" and ok: "tables_ok (Index link) (kv (world s))"
  shows "tunnel_endpoint (Index link) (kv (world s')) net = Some ip
    \<and> (\<forall>net' x. net' \<noteq> net \<longrightarrow> tunnel_endpoint (Index link) (kv (world s)) net' = Some x
         \<longrightarrow> tunnel_endpoint (Index link) (kv (world s')) net' = Some x)
    \<and> tables_ok (Index link) (kv (world s'))"
  using run
proof (cases rule: NodeReconcile_cases)
  case (addition node' s1 c' cs' r0)
  have "node' = node" "world s1 = snd (getNode req (world s))"
    using addition(1) seen(1) by (auto simp: call_eq_iff)
  with reads have *: "node' = node" "kv (world s1) = kv (world s)" by (simp_all add: reads_only_def)
  with addition node have "AddRemoteNode nl c (GetNodeInternalIP node) (v, s1) = (None, (v', s'))" by simp
  from AddRemoteNode_path [OF laws this link node(3,2,4)] ok * show ?thesis by simp
qed (use seen node in \<open>auto simp: call_eq_iff\<close>)

definition reconcile_step ::
  "'w netlink \<Rightarrow> (string \<Rightarrow> 'w \<Rightarrow> (k8s_error + CiliumNode) \<times> 'w) \<Rightarrow> 'w vtep_state \<Rightarrow> string \<Rightarrow> 'w vtep_state" where
  "reconcile_step nl getNode vs req = snd (NodeReconcile nl getNode req vs)"

definition gone :: "(string \<Rightarrow> 'w \<Rightarrow> (k8s_error + CiliumNode) \<times> 'w) \<Rightarrow> string \<Rightarrow> bool" where
  "gone getNode ip \<longleftrightarrow> (\<forall>req w node. fst (getNode req w) = Inr node \<longrightarrow> GetNodeInternalIP node \<noteq> ip)"

lemma NodeReconcile_keeps:
  assumes g: "gone getNode ip" and c: "ip |\<in>| configured_nodes (v, s)"
  shows "ip |\<in>| configured_nodes (snd (NodeReconcile nl getNode req (v, s)))"
proof -
  obtain r vs' where run: "NodeReconcile nl getNode req (v, s) = (r, vs')" by (cases "NodeReconcile nl getNode req (v, s)")
  from run show ?thesis
  proof (cases rule: NodeReconcile_cases)
    case (removal node s1 cidr cs r0)
    then have "GetNodeInternalIP node \<noteq> ip" using g by (metis call_fst fst_conv gone_def)
    with removal(6) run c vtep_table.remove_other [of ip "GetNodeInternalIP node" nl cidr "(v, s1)"]
    show ?thesis by (simp add: configured_nodes_def)
  next
    case (addition node s1 cidr cs r0)
    then have "GetNodeInternalIP node \<noteq> ip" using g by (metis call_fst fst_conv gone_def)
    with addition(6) run c vtep_table.add_other [of ip "GetNodeInternalIP node" nl cidr "(v, s1)"]
    show ?thesis by (simp add: configured_nodes_def)
  qed (use run c in \<open>simp_all add: configured_nodes_def\<close>)
qed

interpretation reconcile_runs: invariant_system "reconcile_step nl getNode"
    "\<lambda>vs. gone getNode ip \<longrightarrow> ip |\<in>| configured_nodes vs"
  for nl :: "'w netlink" and getNode ip
  by unfold_locales (auto simp: reconcile_step_def intro: NodeReconcile_keeps)

text \<open>C36: A node whose object has disappeared before a reconciliation saw its deletion timestamp is never
  removed: through every later sequence of reconcile requests it stays in the set of configured nodes.\<close>

theorem NodeReconcile_leaks:
  assumes "gone getNode ip" and "ip |\<in>| configured_nodes vs"
  shows "ip |\<in>| configured_nodes (run (reconcile_step nl getNode) vs reqs)"
  using assms reconcile_runs.run_good by blast

subsection \<open>Restoring the CiliumVTEPConfig\<close>

text \<open>The reconciler of the CiliumVTEPConfig heals it: for the gateway's object, whether it was deleted or
  changed by someone, a reconciliation returns nil and the stored object advertises this gateway again;
  requests for other objects change nothing.\<close>

theorem VTEPConfigReconcile_heals:
  assumes "unstruct_laws u" and "api_laws u k store" and "get_fresh k store" and "api_up u k store"
    and "GetMac (VxlanIface r) \<noteq> []" and "[] \<notin> set (VpcCIDRs r)"
  shows "(\<exists>w' ob. VTEPConfigReconcile u k r CiliumVTEPConfigName w = (None, w') \<and> store w' = Some ob
            \<and> advertises ob (IP_String (NodeIP r)) (GetMac (VxlanIface r)) (VpcCIDRs r))
         \<and> (req \<noteq> CiliumVTEPConfigName \<longrightarrow> VTEPConfigReconcile u k r req w = (None, w))"
  using Upsert_publishes [OF assms(1,5,6,2,3,4), of "NodeIP r" w] by (auto simp: VTEPConfigReconcile_def)

subsection \<open>Witnesses\<close>

definition node0 :: CiliumNode where
  "node0 = \<lparr>cn_Name = ''n1'', Labels = [HybridNodeLabel \<mapsto> HybridNodeValue], DeletionTimestamp = None,
     Addresses = [(NodeHostName, ''h1''), (NodeInternalIP, ''10.1.2.3'')], PodCIDRs = [''10.86.232.0/25'']\<rparr>"

definition cluster0 :: "string \<Rightarrow> host \<Rightarrow> (k8s_error + CiliumNode) \<times> host" where
  "cluster0 req h = (if req = ''n1'' then Inr node0 else Inl NotFound, h)"

lemma node0_simps [simp]:
  "IsHybridNode node0" "GetNodeInternalIP node0 = ''10.1.2.3''" "PodCIDRs node0 = [''10.86.232.0/25'']"
  "DeletionTimestamp node0 = None"
  by (simp_all add: node0_def IsHybridNode_def GetNodeInternalIP_def)

lemma cluster0_add:
  "\<exists>v' s'. NodeReconcile linux cluster0 ''n1'' (ex_vtep, ex_sys) = (None, (v', s'))"
proof -
  obtain v' s' where "AddRemoteNode linux ''10.86.232.0/25'' ''10.1.2.3'' (ex_vtep, ex_sys) = (None, (v', s'))"
    using linux_add [OF ex_args] by blast
  then show ?thesis by (simp add: NodeReconcile_def call_def cluster0_def GetPodCIDR_def)
qed

theorem NodeReconcile_refines_witness:
  "\<exists>v' s'. NodeReconcile linux cluster0 ''n1'' (ex_vtep, ex_sys) = (None, (v', s')) \<and> nodes v' = {|''10.1.2.3''|}"
proof -
  obtain v' s' where run: "NodeReconcile linux cluster0 ''n1'' (ex_vtep, ex_sys) = (None, (v', s'))"
    using cluster0_add by blast
  from NodeReconcile_refines [OF run] run show ?thesis
    by (simp add: observed_set_def cluster0_def ex_vtep_def NewVTEP_def)
qed

theorem NodeReconcile_connects_witness:
  "\<exists>v' s'. NodeReconcile linux cluster0 ''n1'' (ex_vtep, ex_sys) = (None, (v', s'))
     \<and> tunnel_endpoint (Index ex_link) (h_kernel (world s')) ex_net = Some ex_ip"
proof -
  obtain v' s' where run: "NodeReconcile linux cluster0 ''n1'' (ex_vtep, ex_sys) = (None, (v', s'))"
    using cluster0_add by blast
  have "reads_only cluster0 h_kernel" by (simp add: reads_only_def cluster0_def)
  from NodeReconcile_connects [OF linux_laws this run _ _ _ _ ex_parse_cidr _ ex_v4 ex_get_link ex_tables_ok, of node0 "[]"] run
  show ?thesis by (simp add: cluster0_def ex_parse_ip)
qed

theorem NodeReconcile_leaks_witness:
  "''10.9.9.9'' |\<in>| configured_nodes (run (reconcile_step linux cluster0)
     (ex_vtep\<lparr>nodes := {|''10.9.9.9''|}\<rparr>, ex_sys) [''n1'', ''n2'', ''n1''])"
  by (rule NodeReconcile_leaks) (simp_all add: gone_def cluster0_def configured_nodes_def split: if_splits)

theorem VTEPConfigReconcile_heals_witness:
  "(\<exists>w' ob. VTEPConfigReconcile tree_ops mem_k8s \<lparr>VxlanIface = iface0, NodeIP = ip0, VpcCIDRs = [''10.1.0.0/16'']\<rparr>
        CiliumVTEPConfigName (None, 1) = (None, w') \<and> fst w' = Some ob
      \<and> advertises ob (IP_String ip0) (GetMac iface0) [''10.1.0.0/16''])
   \<and> VTEPConfigReconcile tree_ops mem_k8s \<lparr>VxlanIface = iface0, NodeIP = ip0, VpcCIDRs = [''10.1.0.0/16'']\<rparr>
        ''other'' (None, 1) = (None, (None, 1))"
  using VTEPConfigReconcile_heals [OF tree_ops_laws mem_k8s_laws(1-3),
      of "\<lparr>VxlanIface = iface0, NodeIP = ip0, VpcCIDRs = [''10.1.0.0/16'']\<rparr>" "(None, 1)" "''other''"]
  by (simp add: CiliumVTEPConfigName_def)

end
