(* ===== verification/Network_Collector.thy ===== *)
theory Network_Collector
  imports Vtep Go_Time
begin

text \<open>
  \<^verbatim>\<open>internal/metrics/collector.go\<close>: the collector that reads the kernel's interface counters whenever
  Prometheus scrapes the gateway.  A channel is the list of what is sent to it, in order.
  \<^verbatim>\<open>prometheus.MustNewConstMetric\<close> is third-party code, the parameter \<open>mustNew\<close>; it may panic, and the element at which it
  does, where the scrape ends, is \<open>None\<close>.  Counter values are 64-bit words converted to float64,
  which rounds to 53 significant bits (\<open>float64\<close> of \<^verbatim>\<open>Go_Time\<close>).
\<close>

record Desc =
  d_fqName :: string
  d_help :: string
  d_variableLabels :: "string list"

definition NewDesc :: "string \<Rightarrow> string \<Rightarrow> string list \<Rightarrow> Desc" where
  "NewDesc name help labels = \<lparr>d_fqName = name, d_help = help, d_variableLabels = labels\<rparr>"

definition fqName :: "(string \<Rightarrow> string \<Rightarrow> string \<Rightarrow> string) \<Rightarrow> string \<Rightarrow> string \<Rightarrow> string" where
  "fqName build sub name = build namespace sub name"

definition vxlanRxBytesDesc :: "(string \<Rightarrow> string \<Rightarrow> string \<Rightarrow> string) \<Rightarrow> Desc" where
  "vxlanRxBytesDesc build = NewDesc (fqName build ''vxlan'' ''rx_bytes_total'')
     ''Total bytes received on the VXLAN interface (hybrid_vxlan0).'' []"

definition vxlanTxBytesDesc :: "(string \<Rightarrow> string \<Rightarrow> string \<Rightarrow> string) \<Rightarrow> Desc" where
  "vxlanTxBytesDesc build = NewDesc (fqName build ''vxlan'' ''tx_bytes_total'')
     ''Total bytes transmitted on the VXLAN interface (hybrid_vxlan0).'' []"

definition vxlanRxPacketsDesc :: "(string \<Rightarrow> string \<Rightarrow> string \<Rightarrow> string) \<Rightarrow> Desc" where
  "vxlanRxPacketsDesc build = NewDesc (fqName build ''vxlan'' ''rx_packets_total'')
     ''Total packets received on the VXLAN interface.'' []"

definition vxlanTxPacketsDesc :: "(string \<Rightarrow> string \<Rightarrow> string \<Rightarrow> string) \<Rightarrow> Desc" where
  "vxlanTxPacketsDesc build = NewDesc (fqName build ''vxlan'' ''tx_packets_total'')
     ''Total packets transmitted on the VXLAN interface.'' []"

definition vxlanRxDroppedDesc :: "(string \<Rightarrow> string \<Rightarrow> string \<Rightarrow> string) \<Rightarrow> Desc" where
  "vxlanRxDroppedDesc build = NewDesc (fqName build ''vxlan'' ''rx_dropped_total'')
     ''Total packets dropped on receive by the VXLAN interface.'' []"

definition vxlanTxDroppedDesc :: "(string \<Rightarrow> string \<Rightarrow> string \<Rightarrow> string) \<Rightarrow> Desc" where
  "vxlanTxDroppedDesc build = NewDesc (fqName build ''vxlan'' ''tx_dropped_total'')
     ''Total packets dropped on transmit by the VXLAN interface.'' []"

definition vxlanRxErrorsDesc :: "(string \<Rightarrow> string \<Rightarrow> string \<Rightarrow> string) \<Rightarrow> Desc" where
  "vxlanRxErrorsDesc build = NewDesc (fqName build ''vxlan'' ''rx_errors_total'')
     ''Total receive errors on the VXLAN interface.'' []"

definition vxlanTxErrorsDesc :: "(string \<Rightarrow> string \<Rightarrow> string \<Rightarrow> string) \<Rightarrow> Desc" where
  "vxlanTxErrorsDesc build = NewDesc (fqName build ''vxlan'' ''tx_errors_total'')
     ''Total transmit errors on the VXLAN interface.'' []"

definition vxlanIfUpDesc :: "(string \<Rightarrow> string \<Rightarrow> string \<Rightarrow> string) \<Rightarrow> Desc" where
  "vxlanIfUpDesc build = NewDesc (fqName build ''vxlan'' ''interface_up'')
     ''1 if the VXLAN interface (hybrid_vxlan0) is UP, 0 otherwise.'' []"

definition vxlanFDBDesc :: "(string \<Rightarrow> string \<Rightarrow> string \<Rightarrow> string) \<Rightarrow> Desc" where
  "vxlanFDBDesc build = NewDesc (fqName build ''vxlan'' ''fdb_entries'')
     ''Current number of FDB (forwarding database) entries on hybrid_vxlan0.'' []"

definition vxlanRouteDesc :: "(string \<Rightarrow> string \<Rightarrow> string \<Rightarrow> string) \<Rightarrow> Desc" where
  "vxlanRouteDesc build = NewDesc (fqName build ''vxlan'' ''route_count'')
     ''Current number of routes via the VXLAN interface.'' []"

definition nicRxBytesDesc :: "(string \<Rightarrow> string \<Rightarrow> string \<Rightarrow> string) \<Rightarrow> Desc" where
  "nicRxBytesDesc build = NewDesc (fqName build ''primary_nic'' ''rx_bytes_total'')
     ''Total bytes received on the primary network interface.'' []"

definition nicTxBytesDesc :: "(string \<Rightarrow> string \<Rightarrow> string \<Rightarrow> string) \<Rightarrow> Desc" where
  "nicTxBytesDesc build = NewDesc (fqName build ''primary_nic'' ''tx_bytes_total'')
     ''Total bytes transmitted on the primary network interface.'' []"

definition nicRxPacketsDesc :: "(string \<Rightarrow> string \<Rightarrow> string \<Rightarrow> string) \<Rightarrow> Desc" where
  "nicRxPacketsDesc build = NewDesc (fqName build ''primary_nic'' ''rx_packets_total'')
     ''Total packets received on the primary network interface.'' []"

definition nicTxPacketsDesc :: "(string \<Rightarrow> string \<Rightarrow> string \<Rightarrow> string) \<Rightarrow> Desc" where
  "nicTxPacketsDesc build = NewDesc (fqName build ''primary_nic'' ''tx_packets_total'')
     ''Total packets transmitted on the primary network interface.'' []"

definition nicRxDroppedDesc :: "(string \<Rightarrow> string \<Rightarrow> string \<Rightarrow> string) \<Rightarrow> Desc" where
  "nicRxDroppedDesc build = NewDesc (fqName build ''primary_nic'' ''rx_dropped_total'')
     ''Total packets dropped on receive by the primary NIC.'' []"

definition nicTxDroppedDesc :: "(string \<Rightarrow> string \<Rightarrow> string \<Rightarrow> string) \<Rightarrow> Desc" where
  "nicTxDroppedDesc build = NewDesc (fqName build ''primary_nic'' ''tx_dropped_total'')
     ''Total packets dropped on transmit by the primary NIC.'' []"

definition nicRxErrorsDesc :: "(string \<Rightarrow> string \<Rightarrow> string \<Rightarrow> string) \<Rightarrow> Desc" where
  "nicRxErrorsDesc build = NewDesc (fqName build ''primary_nic'' ''rx_errors_total'')
     ''Total receive errors on the primary NIC.'' []"

definition nicTxErrorsDesc :: "(string \<Rightarrow> string \<Rightarrow> string \<Rightarrow> string) \<Rightarrow> Desc" where
  "nicTxErrorsDesc build = NewDesc (fqName build ''primary_nic'' ''tx_errors_total'')
     ''Total transmit errors on the primary NIC.'' []"

definition nicInfoDesc :: "(string \<Rightarrow> string \<Rightarrow> string \<Rightarrow> string) \<Rightarrow> Desc" where
  "nicInfoDesc build = NewDesc (fqName build ''primary_nic'' ''info'')
     ''Primary NIC name and speed info. Always 1.'' [''interface_name'']"

datatype value_type = CounterValue | GaugeValue

record Metric =
  m_desc :: Desc
  m_type :: value_type
  m_value :: nat
  m_labels :: "string list"

type_synonym const_metric = "Desc \<Rightarrow> value_type \<Rightarrow> nat \<Rightarrow> string list \<Rightarrow> Metric option"

record NetworkStatsCollector =
  vxlanInterface :: string
  primaryNICName :: string

subsection \<open>Finding the primary interface\<close>

fun find_link_with :: "'w netlink \<Rightarrow> IP \<Rightarrow> Link list \<Rightarrow> 'w \<Rightarrow> string option \<times> 'w" where
  "find_link_with nl nodeIP [] w = (None, w)"
| "find_link_with nl nodeIP (link # links) w =
     (case AddrList nl link 0 w of
        (Inl err, w1) \<Rightarrow> find_link_with nl nodeIP links w1
      | (Inr addrs, w1) \<Rightarrow>
          if list_ex (\<lambda>addr. IP_Equal addr nodeIP) addrs then (Some (lk_Name link), w1)
          else find_link_with nl nodeIP links w1)"

definition detectPrimaryNICByIP :: "'w netlink \<Rightarrow> IP \<Rightarrow> 'w \<Rightarrow> string \<times> 'w" where
  "detectPrimaryNICByIP nl nodeIP w =
     (if nodeIP = [] then ([], w)
      else case LinkList nl w of
        (Inl err, w1) \<Rightarrow> ([], w1)
      | (Inr links, w1) \<Rightarrow>
          (case find_link_with nl nodeIP links w1 of
             (Some name, w2) \<Rightarrow> (name, w2)
           | (None, w2) \<Rightarrow> (''eth0'', w2)))"

definition NewNetworkStatsCollector :: "'w netlink \<Rightarrow> string \<Rightarrow> IP \<Rightarrow> 'w \<Rightarrow> NetworkStatsCollector \<times> 'w" where
  "NewNetworkStatsCollector nl name nodeIP w =
     (let (primaryNIC, w1) = detectPrimaryNICByIP nl nodeIP w
      in (\<lparr>vxlanInterface = name, primaryNICName = primaryNIC\<rparr>, w1))"

subsection \<open>Describing and collecting\<close>

definition Describe :: "(string \<Rightarrow> string \<Rightarrow> string \<Rightarrow> string) \<Rightarrow> Desc list" where
  "Describe build =
     [vxlanRxBytesDesc build,
      vxlanTxBytesDesc build,
      vxlanRxPacketsDesc build,
      vxlanTxPacketsDesc build,
      vxlanRxDroppedDesc build,
      vxlanTxDroppedDesc build,
      vxlanRxErrorsDesc build,
      vxlanTxErrorsDesc build,
      vxlanIfUpDesc build,
      vxlanFDBDesc build,
      vxlanRouteDesc build,
      nicRxBytesDesc build,
      nicTxBytesDesc build,
      nicRxPacketsDesc build,
      nicTxPacketsDesc build,
      nicRxDroppedDesc build,
      nicTxDroppedDesc build,
      nicRxErrorsDesc build,
      nicTxErrorsDesc build,
      nicInfoDesc build]"

definition vxlan_stats :: "(string \<Rightarrow> string \<Rightarrow> string \<Rightarrow> string) \<Rightarrow> const_metric \<Rightarrow> LinkStatistics \<Rightarrow> Metric option list" where
  "vxlan_stats build mustNew stats =
     [mustNew (vxlanRxBytesDesc build) CounterValue (float64 (unat (RxBytes stats))) [],
      mustNew (vxlanTxBytesDesc build) CounterValue (float64 (unat (TxBytes stats))) [],
      mustNew (vxlanRxPacketsDesc build) CounterValue (float64 (unat (RxPackets stats))) [],
      mustNew (vxlanTxPacketsDesc build) CounterValue (float64 (unat (TxPackets stats))) [],
      mustNew (vxlanRxDroppedDesc build) CounterValue (float64 (unat (RxDropped stats))) [],
      mustNew (vxlanTxDroppedDesc build) CounterValue (float64 (unat (TxDropped stats))) [],
      mustNew (vxlanRxErrorsDesc build) CounterValue (float64 (unat (RxErrors stats))) [],
      mustNew (vxlanTxErrorsDesc build) CounterValue (float64 (unat (TxErrors stats))) []]"

definition collectVXLAN ::
  "(string \<Rightarrow> string \<Rightarrow> string \<Rightarrow> string) \<Rightarrow> const_metric \<Rightarrow> 'w netlink \<Rightarrow> NetworkStatsCollector \<Rightarrow> 'w \<Rightarrow> Metric option list \<times> 'w" where
  "collectVXLAN build mustNew nl c w =
     (case LinkByName nl (vxlanInterface c) w of
        (Inl err, w1) \<Rightarrow> ([mustNew (vxlanIfUpDesc build) GaugeValue 0 []], w1)
      | (Inr link, w1) \<Rightarrow>
          (let up = (if OperState link = OperUp \<or> lk_FlagUp link
                     then [mustNew (vxlanIfUpDesc build) GaugeValue 1 []]
                     else [mustNew (vxlanIfUpDesc build) GaugeValue 0 []]);
               stats = (case Statistics link of None \<Rightarrow> [] | Some st \<Rightarrow> vxlan_stats build mustNew st);
               (fdbEntries, w2) = NeighList nl (Index link) AF_BRIDGE w1;
               fdb = (case fdbEntries of
                        Inl err \<Rightarrow> []
                      | Inr es \<Rightarrow> [mustNew (vxlanFDBDesc build) GaugeValue (float64 (length es)) []]);
               (routes, w3) = RouteList nl link 0 w2;
               rts = (case routes of
                        Inl err \<Rightarrow> []
                      | Inr rs \<Rightarrow> [mustNew (vxlanRouteDesc build) GaugeValue (float64 (length rs)) []])
           in (up @ stats @ fdb @ rts, w3)))"

definition nic_stats :: "(string \<Rightarrow> string \<Rightarrow> string \<Rightarrow> string) \<Rightarrow> const_metric \<Rightarrow> LinkStatistics \<Rightarrow> Metric option list" where
  "nic_stats build mustNew stats =
     [mustNew (nicRxBytesDesc build) CounterValue (float64 (unat (RxBytes stats))) [],
      mustNew (nicTxBytesDesc build) CounterValue (float64 (unat (TxBytes stats))) [],
      mustNew (nicRxPacketsDesc build) CounterValue (float64 (unat (RxPackets stats))) [],
      mustNew (nicTxPacketsDesc build) CounterValue (float64 (unat (TxPackets stats))) [],
      mustNew (nicRxDroppedDesc build) CounterValue (float64 (unat (RxDropped stats))) [],
      mustNew (nicTxDroppedDesc build) CounterValue (float64 (unat (TxDropped stats))) [],
      mustNew (nicRxErrorsDesc build) CounterValue (float64 (unat (RxErrors stats))) [],
      mustNew (nicTxErrorsDesc build) CounterValue (float64 (unat (TxErrors stats))) []]"

definition collectPrimaryNIC ::
  "(string \<Rightarrow> string \<Rightarrow> string \<Rightarrow> string) \<Rightarrow> const_metric \<Rightarrow> 'w netlink \<Rightarrow> NetworkStatsCollector \<Rightarrow> 'w \<Rightarrow> Metric option list \<times> 'w" where
  "collectPrimaryNIC build mustNew nl c w =
     (if primaryNICName c = [] then ([], w)
      else
        (let info = mustNew (nicInfoDesc build) GaugeValue 1 [primaryNICName c] in
         case LinkByName nl (primaryNICName c) w of
           (Inl err, w1) \<Rightarrow> ([info], w1)
         | (Inr link, w1) \<Rightarrow>
             (info # (case Statistics link of None \<Rightarrow> [] | Some st \<Rightarrow> nic_stats build mustNew st), w1)))"

definition Collect ::
  "(string \<Rightarrow> string \<Rightarrow> string \<Rightarrow> string) \<Rightarrow> const_metric \<Rightarrow> 'w netlink \<Rightarrow> NetworkStatsCollector \<Rightarrow> 'w \<Rightarrow> Metric option list \<times> 'w" where
  "Collect build mustNew nl c w =
     (let (ms, w1) = collectVXLAN build mustNew nl c w; (ms', w2) = collectPrimaryNIC build mustNew nl c w1 in (ms @ ms', w2))"

text \<open>\<^verbatim>\<open>MustRegister\<close> panics with the error of a refused registration, which is its result here.\<close>

definition RegisterNetworkCollector ::
  "(NetworkStatsCollector \<Rightarrow> 'w \<Rightarrow> 'e option \<times> 'w) \<Rightarrow> NetworkStatsCollector \<Rightarrow> 'w \<Rightarrow> 'e option \<times> 'w" where
  "RegisterNetworkCollector mustRegister c w = mustRegister c w"

lemmas desc_defs [gw_defs] =
  vxlanRxBytesDesc_def vxlanTxBytesDesc_def vxlanRxPacketsDesc_def vxlanTxPacketsDesc_def vxlanRxDroppedDesc_def
  vxlanTxDroppedDesc_def vxlanRxErrorsDesc_def vxlanTxErrorsDesc_def vxlanIfUpDesc_def vxlanFDBDesc_def
  vxlanRouteDesc_def nicRxBytesDesc_def nicTxBytesDesc_def nicRxPacketsDesc_def nicTxPacketsDesc_def
  nicRxDroppedDesc_def nicTxDroppedDesc_def nicRxErrorsDesc_def nicTxErrorsDesc_def nicInfoDesc_def
  NewDesc_def fqName_def

subsection \<open>Names\<close>

text \<open>All metrics the gateway registers, the eleven of its own and the twenty of the collector, have
  pairwise different fully qualified names in the hybrid_gateway namespace, and the bucket bounds of the
  histograms increase, so registration at start-up does not panic.\<close>

theorem registered_names_distinct:
  assumes "fq_name_law build"
  shows "distinct (map (decl_fq build) Register @ map d_fqName (Describe build))
    \<and> list_all (\<lambda>n. take 15 n = ''hybrid_gateway_'') (map (decl_fq build) Register @ map d_fqName (Describe build))
    \<and> list_all buckets_ok Register"
  using assms by (simp add: gw_defs decl_fq_def Let_def Describe_def fq_name_law_def)

subsection \<open>What a scrape sends\<close>

text \<open>The order in which \<open>Collect\<close> sends when nothing is missing.\<close>

definition collect_order :: "(string \<Rightarrow> string \<Rightarrow> string \<Rightarrow> string) \<Rightarrow> Desc list" where
  "collect_order build =
     (vxlanIfUpDesc build # take 8 (Describe build) @ [vxlanFDBDesc build, vxlanRouteDesc build])
     @ nicInfoDesc build # take 8 (drop 11 (Describe build))"

lemma set_collect_order: "set (collect_order build) = set (Describe build)"
  by (auto simp: collect_order_def Describe_def)

lemma distinct_collect_order:
  assumes "fq_name_law build"
  shows "distinct (collect_order build)"
proof -
  have "distinct (map d_fqName (collect_order build))"
    using assms by (simp add: gw_defs collect_order_def Describe_def fq_name_law_def)
  then show ?thesis by (simp add: distinct_map)
qed

text \<open>
  UTF-8 as package \<^verbatim>\<open>unicode/utf8\<close> checks it: how many bytes a first byte announces and in which range the second one
  has to be; the others are continuation bytes.
\<close>

definition utf8_head :: "nat \<Rightarrow> nat \<times> nat \<times> nat" where
  "utf8_head b =
     (if b < 0x80 then (1, 0, 0)
      else if 0xC2 \<le> b \<and> b \<le> 0xDF then (2, 0x80, 0xBF)
      else if b = 0xE0 then (3, 0xA0, 0xBF)
      else if b = 0xED then (3, 0x80, 0x9F)
      else if 0xE1 \<le> b \<and> b \<le> 0xEF then (3, 0x80, 0xBF)
      else if b = 0xF0 then (4, 0x90, 0xBF)
      else if 0xF1 \<le> b \<and> b \<le> 0xF3 then (4, 0x80, 0xBF)
      else if b = 0xF4 then (4, 0x80, 0x8F)
      else (0, 0, 0))"

function utf8_bytes :: "nat list \<Rightarrow> bool" where
  "utf8_bytes [] = True"
| "utf8_bytes (b # bs) =
     (let (n, lo, hi) = utf8_head b; more = take (n - 1) bs in
      n > 0 \<and> length more = n - 1
      \<and> (case more of [] \<Rightarrow> True | c # cs \<Rightarrow> lo \<le> c \<and> c \<le> hi \<and> list_all (\<lambda>x. 0x80 \<le> x \<and> x \<le> 0xBF) cs)
      \<and> utf8_bytes (drop (n - 1) bs))"
  by pat_completeness auto
termination
  by (relation "measure length") auto

definition valid_utf8 :: "string \<Rightarrow> bool" where
  "valid_utf8 s = utf8_bytes (map of_char s)"

text \<open>
  What client\_golang documents of descriptors and constant metrics: with a well-formed metric name and well-formed,
  different label names, as many label values as names, and values that are UTF-8, the metric is made of
  the given parts; a number of values that does not fit, or a value that is not UTF-8, is refused, with a panic.
\<close>

definition name_chars :: string where
  "name_chars = ''abcdefghijklmnopqrstuvwxyzABCDEFGHIJKLMNOPQRSTUVWXYZ_''"

definition name_ok :: "string \<Rightarrow> bool" where
  "name_ok n \<longleftrightarrow>
     (case n of [] \<Rightarrow> False
      | c # cs \<Rightarrow> c \<in> set name_chars \<and> list_all (\<lambda>x. x \<in> set (name_chars @ ''0123456789'')) cs)"

definition desc_ok :: "Desc \<Rightarrow> bool" where
  "desc_ok d \<longleftrightarrow>
     name_ok (d_fqName d) \<and> list_all (\<lambda>l. name_ok l \<and> take 2 l \<noteq> ''__'') (d_variableLabels d) \<and> distinct (d_variableLabels d)"

definition const_metric_law :: "const_metric \<Rightarrow> bool" where
  "const_metric_law mustNew \<longleftrightarrow>
     (\<forall>d t x labels. desc_ok d \<longrightarrow> length labels = length (d_variableLabels d) \<longrightarrow> list_all valid_utf8 labels \<longrightarrow>
        mustNew d t x labels = Some \<lparr>m_desc = d, m_type = t, m_value = x, m_labels = labels\<rparr>) \<and>
     (\<forall>d t x labels. length labels \<noteq> length (d_variableLabels d) \<or> \<not> list_all valid_utf8 labels \<longrightarrow>
        mustNew d t x labels = None)"

definition build0 :: "string \<Rightarrow> string \<Rightarrow> string \<Rightarrow> string" where
  "build0 ns sub name = Join (filter (\<lambda>x. x \<noteq> []) [ns, sub, name]) CHR ''_''"

lemma build0_law: "fq_name_law build0"
  by (simp add: fq_name_law_def build0_def)

lemma Describe_build0: "fq_name_law build \<Longrightarrow> Describe build = Describe build0"
  by (simp add: Describe_def gw_defs fq_name_law_def build0_def)

text \<open>The collector's descriptors are well formed, and all but the last have no labels.\<close>

lemma Describe_ok: "fq_name_law build \<Longrightarrow> d \<in> set (Describe build) \<Longrightarrow> desc_ok d"
proof -
  have "list_all desc_ok (Describe build0)" by code_simp
  then show "fq_name_law build \<Longrightarrow> d \<in> set (Describe build) \<Longrightarrow> desc_ok d"
    by (simp add: Describe_build0 list_all_iff)
qed

lemma Describe_labels: "d \<in> set (take 19 (Describe build)) \<Longrightarrow> d_variableLabels d = []"
  by (auto simp: Describe_def gw_defs)

abbreviation sent_descs :: "Metric option list \<Rightarrow> Desc option list" where
  "sent_descs ms \<equiv> map (map_option m_desc) ms"

lemma const_metric_plain:
  assumes "const_metric_law mustNew" and "fq_name_law build" and "d \<in> set (take 19 (Describe build))"
  shows "mustNew d t x [] = Some \<lparr>m_desc = d, m_type = t, m_value = x, m_labels = []\<rparr>"
  using assms(1) Describe_ok [OF assms(2) in_set_takeD [OF assms(3)]] Describe_labels [OF assms(3)]
  by (simp add: const_metric_law_def)

lemma const_metric_info:
  assumes "const_metric_law mustNew" and "fq_name_law build"
  shows "mustNew (nicInfoDesc build) t x [n] =
    (if valid_utf8 n then Some \<lparr>m_desc = nicInfoDesc build, m_type = t, m_value = x, m_labels = [n]\<rparr> else None)"
proof -
  have "desc_ok (nicInfoDesc build)" by (rule Describe_ok [OF assms(2)]) (simp add: Describe_def)
  moreover have "length (d_variableLabels (nicInfoDesc build)) = 1" by (simp add: gw_defs)
  ultimately show ?thesis using assms(1) by (simp add: const_metric_law_def)
qed

lemma stats_descs:
  assumes "const_metric_law mustNew" and "fq_name_law build"
  shows "sent_descs (vxlan_stats build mustNew st) = map Some (take 8 (Describe build))"
    and "sent_descs (nic_stats build mustNew st) = map Some (take 8 (drop 11 (Describe build)))"
  by (simp_all add: vxlan_stats_def nic_stats_def const_metric_plain [OF assms] Describe_def)

lemma subseq_distinct_subset: "subseq xs ys \<Longrightarrow> distinct ys \<Longrightarrow> distinct xs \<and> set xs \<subseteq> set ys"
  by (auto simp: subseq_conv_nths distinct_nthsI dest: in_set_nthsD)

lemma collectVXLAN_descs:
  assumes laws: "const_metric_law mustNew" "fq_name_law build"
  shows "subseq (sent_descs (fst (collectVXLAN build mustNew nl c w)))
     (map Some (vxlanIfUpDesc build # take 8 (Describe build) @ [vxlanFDBDesc build, vxlanRouteDesc build]))"
proof -
  obtain l w1 where l: "LinkByName nl (vxlanInterface c) w = (l, w1)" by fastforce
  have new: "map_option m_desc (mustNew (vxlanIfUpDesc build) t x []) = Some (vxlanIfUpDesc build)"
    "map_option m_desc (mustNew (vxlanFDBDesc build) t x []) = Some (vxlanFDBDesc build)"
    "map_option m_desc (mustNew (vxlanRouteDesc build) t x []) = Some (vxlanRouteDesc build)" for t x
    by (simp_all add: const_metric_plain [OF laws] Describe_def)
  show ?thesis
  proof (cases l)
    case (Inl e)
    with l show ?thesis by (simp add: collectVXLAN_def new [simplified])
  next
    case (Inr link)
    obtain f w2 where f: "NeighList nl (Index link) AF_BRIDGE w1 = (f, w2)" by fastforce
    obtain r w3 where r: "RouteList nl link 0 w2 = (r, w3)" by fastforce
    let ?stats = "case Statistics link of None \<Rightarrow> [] | Some st \<Rightarrow> vxlan_stats build mustNew st"
    let ?fdb = "case f of Inl err \<Rightarrow> [] | Inr es \<Rightarrow> [mustNew (vxlanFDBDesc build) GaugeValue (float64 (length es)) []]"
    let ?rts = "case r of Inl err \<Rightarrow> [] | Inr rs \<Rightarrow> [mustNew (vxlanRouteDesc build) GaugeValue (float64 (length rs)) []]"
    have "subseq (sent_descs ?stats) (map Some (take 8 (Describe build)))"
      by (cases "Statistics link") (simp_all add: stats_descs [OF laws])
    moreover have "subseq (sent_descs ?fdb) (map Some [vxlanFDBDesc build])"
      "subseq (sent_descs ?rts) (map Some [vxlanRouteDesc build])"
      by (cases f; simp add: new) (cases r; simp add: new)
    ultimately have "subseq (sent_descs (?stats @ ?fdb @ ?rts))
        (map Some (take 8 (Describe build) @ [vxlanFDBDesc build] @ [vxlanRouteDesc build]))"
      unfolding map_append by (intro list_emb_append_mono)
    with l Inr f r show ?thesis by (simp add: collectVXLAN_def Let_def new [simplified])
  qed
qed

lemma collectPrimaryNIC_descs:
  assumes laws: "const_metric_law mustNew" "fq_name_law build"
  shows "if valid_utf8 (primaryNICName c)
    then subseq (sent_descs (fst (collectPrimaryNIC build mustNew nl c w)))
           (map Some (nicInfoDesc build # take 8 (drop 11 (Describe build))))
    else None \<in> set (fst (collectPrimaryNIC build mustNew nl c w))"
proof -
  obtain l w1 where l: "LinkByName nl (primaryNICName c) w = (l, w1)" by fastforce
  have "valid_utf8 []" by (simp add: valid_utf8_def)
  then show ?thesis
    by (cases l; cases "primaryNICName c = []")
       (auto simp: collectPrimaryNIC_def l const_metric_info [OF laws, simplified] stats_descs [OF laws] subseq_Cons2_iff
          split: option.splits)
qed

text \<open>C39: Whatever the kernel answers, a scrape sends only metrics that Describe announced, and no metric twice, so the registry
  accepts it, and it does not panic, provided that the name of the primary interface is valid UTF-8; the kernel allows
  other names, and with such a name every scrape panics.  What client\_golang promises of constant metrics and names is
  assumed; that the twenty descriptors meet its rules is part of the proof.\<close>

theorem Collect_consistent:
  assumes laws: "const_metric_law mustNew" "fq_name_law build"
  shows "(valid_utf8 (primaryNICName c) \<longrightarrow>
            distinct (sent_descs (fst (Collect build mustNew nl c w)))
            \<and> set (sent_descs (fst (Collect build mustNew nl c w))) \<subseteq> Some ` set (Describe build))
    \<and> (\<not> valid_utf8 (primaryNICName c) \<longrightarrow> None \<in> set (fst (Collect build mustNew nl c w)))"
proof -
  obtain ms w1 where v: "collectVXLAN build mustNew nl c w = (ms, w1)" by fastforce
  obtain ms' w2 where p: "collectPrimaryNIC build mustNew nl c w1 = (ms', w2)" by fastforce
  have all: "fst (Collect build mustNew nl c w) = ms @ ms'" by (simp add: Collect_def v p)
  show ?thesis
  proof (cases "valid_utf8 (primaryNICName c)")
    case True
    with collectPrimaryNIC_descs [OF laws, of c nl w1]
    have "subseq (sent_descs (fst (collectPrimaryNIC build mustNew nl c w1)))
        (map Some (nicInfoDesc build # take 8 (drop 11 (Describe build))))" by simp
    with collectVXLAN_descs [OF laws, of nl c w] have "subseq (sent_descs (ms @ ms')) (map Some (collect_order build))"
      unfolding collect_order_def map_append v p fst_conv by (rule list_emb_append_mono)
    moreover have "distinct (map Some (collect_order build))"
      using distinct_collect_order [OF laws(2)] by (simp add: distinct_map)
    ultimately show ?thesis
      using subseq_distinct_subset [of "sent_descs (ms @ ms')" "map Some (collect_order build)"] True all
      by (simp add: set_collect_order)
  next
    case False
    with collectPrimaryNIC_descs [OF laws, of c nl w1] p all show ?thesis by simp
  qed
qed

text \<open>The first thing a scrape sends is the interface gauge, and it is 1 exactly when the VXLAN interface
  exists and is operationally or administratively up.\<close>

theorem collectVXLAN_up:
  assumes laws: "const_metric_law mustNew" "fq_name_law build"
  shows "\<exists>rest. fst (collectVXLAN build mustNew nl c w) =
     Some \<lparr>m_desc = vxlanIfUpDesc build, m_type = GaugeValue,
       m_value = (case fst (LinkByName nl (vxlanInterface c) w) of
                    Inl _ \<Rightarrow> 0 | Inr link \<Rightarrow> if OperState link = OperUp \<or> lk_FlagUp link then 1 else 0),
       m_labels = []\<rparr> # rest"
proof -
  have "vxlanIfUpDesc build \<in> set (take 19 (Describe build))" by (simp add: Describe_def)
  from const_metric_plain [OF laws this] show ?thesis
    by (auto simp: collectVXLAN_def Let_def split: prod.splits sum.splits)
qed

subsection \<open>The primary interface\<close>

lemma find_link_with_find:
  assumes "\<forall>l w. fst (AddrList nl l 0 w) = av l"
  shows "fst (find_link_with nl ip links w) =
    map_option lk_Name (find (\<lambda>l. case av l of Inl _ \<Rightarrow> False | Inr as \<Rightarrow> list_ex (\<lambda>a. IP_Equal a ip) as) links)"
proof (induction links arbitrary: w)
  case Nil
  then show ?case by simp
next
  case (Cons l links)
  obtain r w1 where r: "AddrList nl l 0 w = (r, w1)" by fastforce
  with assms have "av l = r" by (metis fst_conv)
  with r Cons show ?case by (cases r) simp_all
qed

text \<open>The detected primary interface is the first listed one that carries the node's IP address, skipping
  interfaces whose addresses cannot be read; it is eth0 when there is none, and empty when the interfaces
  cannot be listed or there is no node IP.\<close>

theorem detectPrimaryNICByIP_first:
  assumes "\<forall>l w. fst (AddrList nl l 0 w) = av l"
  shows "fst (detectPrimaryNICByIP nl ip w) =
    (if ip = [] then []
     else case fst (LinkList nl w) of
       Inl _ \<Rightarrow> []
     | Inr links \<Rightarrow>
         (case find (\<lambda>l. case av l of Inl _ \<Rightarrow> False | Inr as \<Rightarrow> list_ex (\<lambda>a. IP_Equal a ip) as) links of
            Some l \<Rightarrow> lk_Name l | None \<Rightarrow> ''eth0''))"
proof -
  obtain r w1 where r: "LinkList nl w = (r, w1)" by fastforce
  show ?thesis
  proof (cases r)
    case (Inr links)
    with r find_link_with_find [OF assms, of ip links w1] show ?thesis
      by (auto simp: detectPrimaryNICByIP_def split: prod.splits option.splits)
  qed (simp add: detectPrimaryNICByIP_def r)
qed

subsection \<open>Witnesses\<close>

theorem registered_names_distinct_witness:
  "distinct (map (decl_fq build0) Register @ map d_fqName (Describe build0))"
  by (rule conjunct1 [OF registered_names_distinct [OF build0_law]])

text \<open>The law's own success condition as a function, for a scrape on the example host.\<close>

definition const_metric0 :: const_metric where
  "const_metric0 d t x labels =
     (if desc_ok d \<and> length labels = length (d_variableLabels d) \<and> list_all valid_utf8 labels
      then Some \<lparr>m_desc = d, m_type = t, m_value = x, m_labels = labels\<rparr> else None)"

lemma const_metric0_law: "const_metric_law const_metric0"
  by (auto simp: const_metric_law_def const_metric0_def)

theorem Collect_consistent_witness:
  "distinct (sent_descs (fst (Collect build0 const_metric0 linux \<lparr>vxlanInterface = ''hybrid_vxlan0'', primaryNICName = ''eth0''\<rparr> host0)))
   \<and> None \<in> set (fst (Collect build0 const_metric0 linux \<lparr>vxlanInterface = ''hybrid_vxlan0'', primaryNICName = [CHR 0xFF]\<rparr> host0))"
proof -
  have "valid_utf8 ''eth0''" "\<not> valid_utf8 [CHR 0xFF]" by code_simp+
  with Collect_consistent [OF const_metric0_law build0_law, of "\<lparr>vxlanInterface = ''hybrid_vxlan0'', primaryNICName = ''eth0''\<rparr>" linux host0]
    Collect_consistent [OF const_metric0_law build0_law, of "\<lparr>vxlanInterface = ''hybrid_vxlan0'', primaryNICName = [CHR 0xFF]\<rparr>" linux host0]
  show ?thesis by simp
qed

definition two_nics :: "host netlink" where
  "two_nics = linux\<lparr>LinkList := \<lambda>w. (Inr [\<lparr>Index = 1, lk_Name = ''lo'', lk_FlagUp = True, OperState = OperUp, Statistics = None\<rparr>,
       \<lparr>Index = 2, lk_Name = ''ens5'', lk_FlagUp = True, OperState = OperUp, Statistics = None\<rparr>], w),
     AddrList := \<lambda>l _ w. (if lk_Name l = ''lo'' then Inl 13 else Inr [[10, 0, 0, 1]], w)\<rparr>"

theorem detectPrimaryNICByIP_first_witness:
  "fst (detectPrimaryNICByIP two_nics [10, 0, 0, 1] host0) = ''ens5''"
  using detectPrimaryNICByIP_first [of two_nics "\<lambda>l. if lk_Name l = ''lo'' then Inl 13 else Inr [[10, 0, 0, 1]]" "[10, 0, 0, 1]" host0]
  by (simp add: two_nics_def IP_Equal_def)

end
