(* ===== verification/Health_Server.thy ===== *)
theory Health_Server
  imports Gateway_Prelude
begin

text \<open>
  \<^verbatim>\<open>internal/health/server.go\<close>: the two flags behind the Kubernetes probes.  The atomic booleans are
  fields of a record; a probe returns an error or nil.
\<close>

record Server =
  healthy :: bool
  ready :: bool

datatype probe_error = unhealthyError | notReadyError

definition NewServer :: Server where
  "NewServer = \<lparr>healthy = True, ready = False\<rparr>"

definition SetReady :: "bool \<Rightarrow> Server \<Rightarrow> Server" where
  "SetReady b s = s\<lparr>ready := b\<rparr>"

definition SetHealthy :: "bool \<Rightarrow> Server \<Rightarrow> Server" where
  "SetHealthy b s = s\<lparr>healthy := b\<rparr>"

definition HealthCheck :: "Server \<Rightarrow> probe_error option" where
  "HealthCheck s = (if \<not> healthy s then Some unhealthyError else None)"

definition ReadyCheck :: "Server \<Rightarrow> probe_error option" where
  "ReadyCheck s = (if \<not> ready s then Some notReadyError else None)"

definition Error_string :: "probe_error \<Rightarrow> string" where
  "Error_string e = (case e of unhealthyError \<Rightarrow> ''not healthy'' | notReadyError \<Rightarrow> ''not ready'')"

datatype probe_op = Ready bool | Healthy bool

fun probe_step :: "Server \<Rightarrow> probe_op \<Rightarrow> Server" where
  "probe_step s (Ready b) = SetReady b s"
| "probe_step s (Healthy b) = SetHealthy b s"

fun last_ready :: "bool \<Rightarrow> probe_op list \<Rightarrow> bool" where
  "last_ready b [] = b"
| "last_ready b (Ready b' # ops) = last_ready b' ops"
| "last_ready b (Healthy _ # ops) = last_ready b ops"

fun last_healthy :: "bool \<Rightarrow> probe_op list \<Rightarrow> bool" where
  "last_healthy b [] = b"
| "last_healthy b (Healthy b' # ops) = last_healthy b' ops"
| "last_healthy b (Ready _ # ops) = last_healthy b ops"

lemma run_probe:
  "run probe_step s ops = \<lparr>healthy = last_healthy (healthy s) ops, ready = last_ready (ready s) ops\<rparr>"
proof (induction ops arbitrary: s)
  case Nil
  then show ?case by simp
next
  case (Cons x ops)
  then show ?case by (cases x) (simp_all add: SetReady_def SetHealthy_def)
qed

text \<open>After any sequence of updates the probes report the last value set, each flag independently of the
  other; before the first update a new server is healthy and not ready.\<close>

theorem probes_report_last:
  "(HealthCheck (run probe_step NewServer ops) = None \<longleftrightarrow> last_healthy True ops)
   \<and> (ReadyCheck (run probe_step NewServer ops) = None \<longleftrightarrow> last_ready False ops)"
  by (simp add: run_probe NewServer_def HealthCheck_def ReadyCheck_def)

end
