(* ===== verification/Imds.thy ===== *)
theory Imds
  imports Gateway_Prelude Go_Strings
begin

text \<open>
  \<^verbatim>\<open>internal/aws/metadata.go\<close> and the two functions of \<^verbatim>\<open>internal/aws/routetable.go\<close> that use it: the
  client of the EC2 instance metadata service (IMDSv2), from which the gateway learns its instance
  and its region.  The service answers through \<open>Do\<close>, a field of the record \<open>http\<close>, and \<open>parse_url\<close> is
  the error, if any, with which a URL is rejected before a request is sent.  A response body is what
  reading it to the end yields.
\<close>

type_synonym http_error = string

record http_Client =
  Timeout :: duration

record Request =
  req_Method :: string
  req_URL :: string
  req_Header :: "string \<rightharpoonup> string list"

record Response =
  StatusCode :: int
  Body :: "http_error + string"

record 'w http =
  parse_url :: "string \<Rightarrow> http_error option"
  Do :: "http_Client \<Rightarrow> Request \<Rightarrow> 'w \<Rightarrow> (http_error + Response) \<times> 'w"

record ec2MetadataClient =
  baseURL :: string
  client :: "http_Client option"

datatype imds_error =
    RequestError http_error
  | TokenError http_error
  | TokenStatus int
  | BodyError http_error
  | MetadataError string http_error
  | MetadataStatus string int
  | InvalidZone string
  | InstanceIDError imds_error
  | RegionError imds_error

subsection \<open>Requests\<close>

definition is_lower :: "char \<Rightarrow> bool" where
  "is_lower c \<longleftrightarrow> 97 \<le> (of_char c :: nat) \<and> of_char c \<le> (122 :: nat)"

definition is_upper :: "char \<Rightarrow> bool" where
  "is_upper c \<longleftrightarrow> 65 \<le> (of_char c :: nat) \<and> of_char c \<le> (90 :: nat)"

definition header_byte :: "char \<Rightarrow> bool" where
  "header_byte c \<longleftrightarrow> is_lower c \<or> is_upper c \<or> (48 \<le> (of_char c :: nat) \<and> of_char c \<le> (57 :: nat))
     \<or> c \<in> set ''!#$%&*+-.^_|~'' \<or> of_char c = (39 :: nat) \<or> of_char c = (96 :: nat)"

fun canonical_from :: "bool \<Rightarrow> string \<Rightarrow> string" where
  "canonical_from upper [] = []"
| "canonical_from upper (c # cs) =
     (let c' = (if upper \<and> is_lower c then char_of (of_char c - 32 :: nat)
                else if \<not> upper \<and> is_upper c then char_of (of_char c + 32 :: nat) else c)
      in c' # canonical_from (c' = CHR ''-'') cs)"

definition CanonicalHeaderKey :: "string \<Rightarrow> string" where
  "CanonicalHeaderKey k = (if list_all header_byte k then canonical_from True k else k)"

definition Header_Set :: "string \<Rightarrow> string \<Rightarrow> Request \<Rightarrow> Request" where
  "Header_Set k v req = req\<lparr>req_Header := (req_Header req)(CanonicalHeaderKey k \<mapsto> [v])\<rparr>"

definition NewRequest :: "'w http \<Rightarrow> string \<Rightarrow> string \<Rightarrow> http_error + Request" where
  "NewRequest h meth url =
     (case parse_url h url of
        Some err \<Rightarrow> Inl err
      | None \<Rightarrow> Inr \<lparr>req_Method = meth, req_URL = url, req_Header = Map.empty\<rparr>)"

subsection \<open>The metadata client\<close>

definition ensure_client :: "ec2MetadataClient \<Rightarrow> ec2MetadataClient \<times> http_Client" where
  "ensure_client c =
     (case client c of
        None \<Rightarrow> (let hc = \<lparr>Timeout = 2 * 1000000000\<rparr> in (c\<lparr>client := Some hc\<rparr>, hc))
      | Some hc \<Rightarrow> (c, hc))"

definition getToken :: "'w http \<Rightarrow> ec2MetadataClient \<Rightarrow> 'w \<Rightarrow> (imds_error + string) \<times> ec2MetadataClient \<times> 'w" where
  "getToken h c w =
     (let (c1, hc) = ensure_client c in
      case NewRequest h ''PUT'' (baseURL c1 @ ''/latest/api/token'') of
        Inl err \<Rightarrow> (Inl (RequestError err), c1, w)
      | Inr req \<Rightarrow>
          (let req1 = Header_Set ''X-aws-ec2-metadata-token-ttl-seconds'' ''21600'' req in
           case Do h hc req1 w of
             (Inl err, w1) \<Rightarrow> (Inl (TokenError err), c1, w1)
           | (Inr resp, w1) \<Rightarrow>
               if StatusCode resp \<noteq> 200 then (Inl (TokenStatus (StatusCode resp)), c1, w1)
               else (case Body resp of
                       Inl err \<Rightarrow> (Inl (BodyError err), c1, w1)
                     | Inr token \<Rightarrow> (Inr token, c1, w1))))"

definition getMetadata ::
  "'w http \<Rightarrow> ec2MetadataClient \<Rightarrow> string \<Rightarrow> 'w \<Rightarrow> (imds_error + string) \<times> ec2MetadataClient \<times> 'w" where
  "getMetadata h c path w =
     (let (c0, _) = ensure_client c in
      case getToken h c0 w of
        (Inl err, c1, w1) \<Rightarrow> (Inl err, c1, w1)
      | (Inr token, c1, w1) \<Rightarrow>
          (case NewRequest h ''GET'' (baseURL c1 @ path) of
             Inl err \<Rightarrow> (Inl (RequestError err), c1, w1)
           | Inr req \<Rightarrow>
               (let req1 = Header_Set ''X-aws-ec2-metadata-token'' token req; (c2, hc) = ensure_client c1 in
                case Do h hc req1 w1 of
                  (Inl err, w2) \<Rightarrow> (Inl (MetadataError path err), c2, w2)
                | (Inr resp, w2) \<Rightarrow>
                    if StatusCode resp \<noteq> 200 then (Inl (MetadataStatus path (StatusCode resp)), c2, w2)
                    else (case Body resp of
                            Inl err \<Rightarrow> (Inl (BodyError err), c2, w2)
                          | Inr data \<Rightarrow> (Inr data, c2, w2)))))"

definition getInstanceID :: "'w http \<Rightarrow> ec2MetadataClient \<Rightarrow> 'w \<Rightarrow> (imds_error + string) \<times> ec2MetadataClient \<times> 'w" where
  "getInstanceID h c w = getMetadata h c ''/latest/meta-data/instance-id'' w"

definition getRegion :: "'w http \<Rightarrow> ec2MetadataClient \<Rightarrow> 'w \<Rightarrow> (imds_error + string) \<times> ec2MetadataClient \<times> 'w" where
  "getRegion h c w =
     (case getMetadata h c ''/latest/meta-data/placement/availability-zone'' w of
        (Inl err, c1, w1) \<Rightarrow> (Inl err, c1, w1)
      | (Inr az, c1, w1) \<Rightarrow>
          if length az < 2 then (Inl (InvalidZone az), c1, w1)
          else (Inr (take (length az - 1) az), c1, w1))"

definition GetCurrentInstanceID :: "'w http \<Rightarrow> 'w \<Rightarrow> (imds_error + string) \<times> 'w" where
  "GetCurrentInstanceID h w =
     (case getInstanceID h \<lparr>baseURL = ''http://169.254.169.254'', client = None\<rparr> w of
        (Inl err, _, w1) \<Rightarrow> (Inl (InstanceIDError err), w1)
      | (Inr instanceID, _, w1) \<Rightarrow> (Inr instanceID, w1))"

definition GetCurrentRegion :: "'w http \<Rightarrow> 'w \<Rightarrow> (imds_error + string) \<times> 'w" where
  "GetCurrentRegion h w =
     (case getRegion h \<lparr>baseURL = ''http://169.254.169.254'', client = None\<rparr> w of
        (Inl err, _, w1) \<Rightarrow> (Inl (RegionError err), w1)
      | (Inr reg, _, w1) \<Rightarrow> (Inr reg, w1))"

subsection \<open>The session protocol\<close>

definition token_request :: "string \<Rightarrow> Request" where
  "token_request base = \<lparr>req_Method = ''PUT'', req_URL = base @ ''/latest/api/token'',
     req_Header = [''X-Aws-Ec2-Metadata-Token-Ttl-Seconds'' \<mapsto> [''21600'']]\<rparr>"

definition data_request :: "string \<Rightarrow> string \<Rightarrow> string \<Rightarrow> Request" where
  "data_request base path token = \<lparr>req_Method = ''GET'', req_URL = base @ path,
     req_Header = [''X-Aws-Ec2-Metadata-Token'' \<mapsto> [token]]\<rparr>"

lemma canonical_keys:
  "CanonicalHeaderKey ''X-aws-ec2-metadata-token-ttl-seconds'' = ''X-Aws-Ec2-Metadata-Token-Ttl-Seconds''"
  "CanonicalHeaderKey ''X-aws-ec2-metadata-token'' = ''X-Aws-Ec2-Metadata-Token''"
  by (simp_all add: CanonicalHeaderKey_def header_byte_def is_lower_def is_upper_def Let_def char_of_def bit_0)

definition ok_response :: "http_error + Response \<Rightarrow> string \<Rightarrow> bool" where
  "ok_response r body \<longleftrightarrow> (\<exists>resp. r = Inr resp \<and> StatusCode resp = 200 \<and> Body resp = Inr body)"

lemma ensure_client_twice:
  "ensure_client c = (c1, hc) \<Longrightarrow> ensure_client c1 = (c1, hc) \<and> baseURL c1 = baseURL c \<and> client c1 = Some hc"
  by (auto simp: ensure_client_def Let_def split: option.splits)

lemma getToken_ok:
  assumes c: "ensure_client c = (c1, hc)"
  shows "getToken h c w = (Inr token, c2, w1) \<longleftrightarrow>
    c2 = c1 \<and> parse_url h (baseURL c @ ''/latest/api/token'') = None
    \<and> (\<exists>r. Do h hc (token_request (baseURL c)) w = (r, w1) \<and> ok_response r token)"
  using ensure_client_twice [OF c] c
  by (auto simp: getToken_def NewRequest_def Header_Set_def canonical_keys token_request_def ok_response_def Let_def
      split: option.splits prod.splits sum.splits if_splits)

lemma getToken_client:
  "ensure_client c = (c1, hc) \<Longrightarrow> getToken h c w = (r, c2, w1) \<Longrightarrow> c2 = c1"
  by (auto simp: getToken_def Let_def split: prod.splits sum.splits if_splits)

lemma getMetadata_exchange:
  assumes c: "ensure_client c = (c1, hc)"
  shows "getMetadata h c path w = (Inr data, c2, w2) \<longleftrightarrow>
    c2 = c1 \<and> parse_url h (baseURL c @ ''/latest/api/token'') = None \<and> parse_url h (baseURL c @ path) = None
    \<and> (\<exists>token r w1 r'. Do h hc (token_request (baseURL c)) w = (r, w1) \<and> ok_response r token
         \<and> Do h hc (data_request (baseURL c) path token) w1 = (r', w2) \<and> ok_response r' data)"
proof -
  note c1 = ensure_client_twice [OF c]
  obtain g c3 w1 where g: "getToken h c1 w = (g, c3, w1)" by (metis prod_cases3)
  have c3: "c3 = c1" using getToken_client [OF _ g] c1 by auto
  show ?thesis
  proof (cases g)
    case (Inl e)
    then have "\<not> (parse_url h (baseURL c @ ''/latest/api/token'') = None
        \<and> (\<exists>token r w1. Do h hc (token_request (baseURL c)) w = (r, w1) \<and> ok_response r token))"
      using getToken_ok [of c1 c1 hc h w] c1 g by auto
    with Inl g c show ?thesis by (auto simp: getMetadata_def)
  next
    case (Inr token)
    with g c3 have *: "parse_url h (baseURL c @ ''/latest/api/token'') = None"
      "\<exists>r. Do h hc (token_request (baseURL c)) w = (r, w1) \<and> ok_response r token"
      using getToken_ok [of c1 c1 hc h w token c3 w1] c1 by auto
    then show ?thesis
      using Inr g c c1 c3
      by (auto simp: getMetadata_def NewRequest_def Header_Set_def canonical_keys data_request_def ok_response_def Let_def
          split: option.splits prod.splits sum.splits if_splits)
  qed
qed

text \<open>C38: getMetadata returns a value exactly when it completed the IMDSv2 exchange: a PUT for a session token
  answered with status 200, then a GET of the path that carries this very token, also answered with 200;
  the value is the body of the second answer.\<close>

theorem getMetadata_session:
  assumes c: "ensure_client c = (c1, hc)"
  shows "getMetadata h c path w = (Inr data, c2, w2) \<longleftrightarrow>
    c2 = c1 \<and> parse_url h (baseURL c @ ''/latest/api/token'') = None \<and> parse_url h (baseURL c @ path) = None
    \<and> (\<exists>token r w1 r'. Do h hc (token_request (baseURL c)) w = (r, w1) \<and> ok_response r token
         \<and> Do h hc (data_request (baseURL c) path token) w1 = (r', w2) \<and> ok_response r' data)"
  by (rule getMetadata_exchange [OF c])

subsection \<open>What the gateway learns\<close>

text \<open>
  The documented service: a PUT yields a token that is valid from then on, and a GET with a valid
  token yields the data of the path.
\<close>

abbreviation "imds_base \<equiv> ''http://169.254.169.254''"
abbreviation "id_path \<equiv> ''/latest/meta-data/instance-id''"
abbreviation "zone_path \<equiv> ''/latest/meta-data/placement/availability-zone''"

definition imds_laws :: "'w http \<Rightarrow> ('w \<Rightarrow> string \<Rightarrow> bool) \<Rightarrow> (string \<rightharpoonup> string) \<Rightarrow> bool" where
  "imds_laws h valid data \<longleftrightarrow>
     (\<forall>path \<in> insert ''/latest/api/token'' (dom data). parse_url h (imds_base @ path) = None) \<and>
     (\<forall>hc w. \<exists>token w'. Do h hc (token_request imds_base) w = (Inr \<lparr>StatusCode = 200, Body = Inr token\<rparr>, w')
        \<and> valid w' token) \<and>
     (\<forall>hc w token path v. valid w token \<longrightarrow> data path = Some v \<longrightarrow>
        (\<exists>w'. Do h hc (data_request imds_base path token) w = (Inr \<lparr>StatusCode = 200, Body = Inr v\<rparr>, w')))"

lemma getMetadata_reads:
  assumes laws: "imds_laws h valid data" and v: "data path = Some v"
    and c: "c = \<lparr>baseURL = imds_base, client = None\<rparr>"
  shows "\<exists>c' w'. getMetadata h c path w = (Inr v, c', w')"
proof -
  obtain c1 hc where e: "ensure_client c = (c1, hc)" by fastforce
  obtain token w1 where t: "Do h hc (token_request imds_base) w = (Inr \<lparr>StatusCode = 200, Body = Inr token\<rparr>, w1)"
    and val: "valid w1 token" using laws unfolding imds_laws_def by blast
  obtain w2 where d: "Do h hc (data_request imds_base path token) w1 = (Inr \<lparr>StatusCode = 200, Body = Inr v\<rparr>, w2)"
    using laws val v unfolding imds_laws_def by blast
  have p: "parse_url h (imds_base @ ''/latest/api/token'') = None" "parse_url h (imds_base @ path) = None"
    using laws v unfolding imds_laws_def by blast+
  have "getMetadata h c path w = (Inr v, c1, w2)"
  proof (rule getMetadata_exchange [OF e, THEN iffD2], intro conjI exI)
    show "Do h hc (token_request (baseURL c)) w = (Inr \<lparr>StatusCode = 200, Body = Inr token\<rparr>, w1)"
      using t c by simp
    show "Do h hc (data_request (baseURL c) path token) w1 = (Inr \<lparr>StatusCode = 200, Body = Inr v\<rparr>, w2)"
      using d c by simp
  qed (use p c in \<open>simp_all add: ok_response_def\<close>)
  then show ?thesis by blast
qed

text \<open>Against a working metadata service the gateway obtains its instance identifier as it is, and as its
  region the availability zone without its last character: the region itself for a zone that is the
  region with a letter appended.\<close>

theorem GetCurrent_identity:
  assumes laws: "imds_laws h valid data" and i: "data id_path = Some inst"
    and z: "data zone_path = Some (reg @ [letter])" and "reg \<noteq> []"
  shows "fst (GetCurrentInstanceID h w) = Inr inst \<and> fst (GetCurrentRegion h w) = Inr reg"
  using getMetadata_reads [OF laws i refl, of w] getMetadata_reads [OF laws z refl, of w] \<open>reg \<noteq> []\<close>
  by (auto simp: GetCurrentInstanceID_def GetCurrentRegion_def getInstanceID_def getRegion_def neq_Nil_conv)

text \<open>In a local zone, whose name is the region followed by a location and a number, the detected region
  is not the region: it keeps the location suffix.\<close>

theorem GetCurrentRegion_local_zone:
  assumes laws: "imds_laws h valid data" and z: "data zone_path = Some (reg @ loc @ [letter])" and "loc \<noteq> []"
  shows "fst (GetCurrentRegion h w) = Inr (reg @ loc) \<and> reg @ loc \<noteq> reg"
  using getMetadata_reads [OF laws z refl, of w] \<open>loc \<noteq> []\<close>
  by (auto simp: GetCurrentRegion_def getRegion_def neq_Nil_conv)

text \<open>An instance of the service: one token, and the given data.\<close>

definition imds0 :: "(string \<rightharpoonup> string) \<Rightarrow> unit http" where
  "imds0 data =
     \<lparr>parse_url = (\<lambda>_. None),
      Do = (\<lambda>_ req w.
        if req = token_request imds_base then (Inr \<lparr>StatusCode = 200, Body = Inr ''tok''\<rparr>, w)
        else case data (drop (length imds_base) (req_URL req)) of
          Some v \<Rightarrow> if req_Header req ''X-Aws-Ec2-Metadata-Token'' = Some [''tok'']
                    then (Inr \<lparr>StatusCode = 200, Body = Inr v\<rparr>, w)
                    else (Inr \<lparr>StatusCode = 401, Body = Inr []\<rparr>, w)
        | None \<Rightarrow> (Inr \<lparr>StatusCode = 404, Body = Inr []\<rparr>, w))\<rparr>"

lemma imds0_laws: "imds_laws (imds0 data) (\<lambda>_ t. t = ''tok'') data"
  by (auto simp: imds_laws_def imds0_def data_request_def token_request_def)

theorem GetCurrent_identity_witness:
  "fst (GetCurrentInstanceID (imds0 [id_path \<mapsto> ''i-1'', zone_path \<mapsto> ''us-west-2a'']) ()) = Inr ''i-1''
   \<and> fst (GetCurrentRegion (imds0 [id_path \<mapsto> ''i-1'', zone_path \<mapsto> ''us-west-2a'']) ()) = Inr ''us-west-2''"
  using GetCurrent_identity [OF imds0_laws, of "[id_path \<mapsto> ''i-1'', zone_path \<mapsto> ''us-west-2a'']" "''i-1''"
      "''us-west-2''" "CHR ''a''" "()"]
  by simp

theorem GetCurrentRegion_local_zone_witness:
  "fst (GetCurrentRegion (imds0 [zone_path \<mapsto> ''us-west-2-lax-1a'']) ()) = Inr ''us-west-2-lax-1''
   \<and> ''us-west-2-lax-1'' \<noteq> ''us-west-2''"
  using GetCurrentRegion_local_zone [OF imds0_laws, of "[zone_path \<mapsto> ''us-west-2-lax-1a'']" "''us-west-2''"
      "''-lax-1''" "CHR ''a''" "()"]
  by simp

theorem getMetadata_session_witness:
  "getMetadata (imds0 [''/p'' \<mapsto> ''v'']) \<lparr>baseURL = imds_base, client = Some \<lparr>Timeout = 7\<rparr>\<rparr> ''/p'' () =
     (Inr ''v'', \<lparr>baseURL = imds_base, client = Some \<lparr>Timeout = 7\<rparr>\<rparr>, ())"
  by (subst getMetadata_session [where ?c1.0 = "\<lparr>baseURL = imds_base, client = Some \<lparr>Timeout = 7\<rparr>\<rparr>" and hc = "\<lparr>Timeout = 7\<rparr>"])
     (auto simp: ensure_client_def imds0_def ok_response_def data_request_def token_request_def)

end
