(* ===== verification/Gateway_Main.thy ===== *)
theory Gateway_Main
  imports Gateway_Flags Leader_Setup Controllers Network_Collector Health_Server Imds
begin

text \<open>
  \<^verbatim>\<open>cmd/gateway/main.go\<close>: start-up.  \<open>process\<close> is the whole program: the package's \<open>init\<close>, the command line of
  \<^verbatim>\<open>Gateway_Flags\<close> and \<open>main\<close> on the values of the flags.  \<open>prepare\<close> is the part of \<open>main\<close> up to the start of the controller manager:
  it builds all components and hands them to the manager, or it ends the process, which is the left value: with
  \<^verbatim>\<open>os.Exit(1)\<close>, which runs no deferred function, or with a panic (\<open>MainPanicked\<close>), which runs the deferred removal of the
  interface and then exits with status 2.  \<open>main\<close> then starts the manager and, when it ends without an error, tears the interface down.
  Everything outside the repository that start-up calls is a field of \<open>deps\<close>.
\<close>

record ManagerOptions =
  opt_MetricsBindAddress :: string
  opt_HealthProbeBindAddress :: string
  opt_LeaderElection :: bool
  opt_LeaderElectionID :: string
  opt_LeaseDuration :: duration
  opt_RenewDeadline :: duration
  opt_RetryPeriod :: duration
  opt_SyncPeriod :: duration
  opt_ByObject :: "(GroupVersionKind \<times> (string \<times> string)) list"

datatype probe = HealthProbe | ReadyProbe

type_synonym go_error = string

record 'w Manager =
  GetClient :: "'w k8s"
  mgr_Add :: "'w GatewaySetup \<Rightarrow> 'w \<Rightarrow> go_error option \<times> 'w"
  AddHealthzCheck :: "string \<Rightarrow> probe \<Rightarrow> 'w \<Rightarrow> go_error option \<times> 'w"
  AddReadyzCheck :: "string \<Rightarrow> probe \<Rightarrow> 'w \<Rightarrow> go_error option \<times> 'w"
  Complete :: "ControllerSpec \<Rightarrow> 'w reconciler \<Rightarrow> 'w \<Rightarrow> go_error option \<times> 'w"

text \<open>What \<open>main\<close> itself still holds when it starts the manager: the manager, the probes' server, and the interface of the deferred removal.\<close>

record 'w running =
  run_manager :: "'w Manager"
  run_health :: Server
  run_iface :: Interface

record 'w deps =
  Getenv :: "string \<Rightarrow> string"
  ReadFile :: "string \<Rightarrow> 'w \<Rightarrow> errno + string"
  dep_netlink :: "'w netlink"
  dep_http :: "'w http"
  newEC2Client :: "string \<Rightarrow> 'w \<Rightarrow> (aws_error + 'w ec2) \<times> 'w"
  NewManager :: "ManagerOptions \<Rightarrow> 'w \<Rightarrow> (go_error + 'w Manager) \<times> 'w"
  withLabelValues :: "string list \<Rightarrow> go_error option" \<comment> \<open>the panic of \<^verbatim>\<open>GatewayInfo.WithLabelValues\<close>, if any\<close>
  mustRegister :: "NetworkStatsCollector \<Rightarrow> 'w \<Rightarrow> go_error option \<times> 'w"
  mgr_Start :: "'w running \<Rightarrow> 'w sys \<Rightarrow> go_error option \<times> 'w sys"

datatype fatal =
    NodeIPRequired
  | InvalidNodeIP string
  | VXLANSetupFailed iface_error
  | CIDRsRequired
  | RegionFailed imds_error
  | InstanceIDFailed imds_error
  | NoValidRouteTables
  | RouteTableManagerFailed rt_error
  | RouteTableAccessFailed rt_error
  | ManagerFailed go_error
  | AddSetupFailed go_error
  | HealthCheckFailed go_error
  | ReadyCheckFailed go_error
  | NodeControllerFailed go_error
  | VTEPControllerFailed go_error
  | MainPanicked Interface go_error
  | RunFailed go_error

subsection \<open>The route table manager\<close>

definition detect_region :: "'w deps \<Rightarrow> Flags \<Rightarrow> 'w \<Rightarrow> (fatal + string) \<times> 'w" where
  "detect_region d fl w =
     (if awsRegion fl = [] then
        (case GetCurrentRegion (dep_http d) w of
           (Inl err, w1) \<Rightarrow> (Inl (RegionFailed err), w1)
         | (Inr r, w1) \<Rightarrow> (Inr r, w1))
      else (Inr (awsRegion fl), w))"

definition detect_instance :: "'w deps \<Rightarrow> Flags \<Rightarrow> 'w \<Rightarrow> (fatal + string) \<times> 'w" where
  "detect_instance d fl w =
     (if awsInstanceID fl = [] then
        (case GetCurrentInstanceID (dep_http d) w of
           (Inl err, w1) \<Rightarrow> (Inl (InstanceIDFailed err), w1)
         | (Inr i, w1) \<Rightarrow> (Inr i, w1))
      else (Inr (awsInstanceID fl), w))"

definition make_route_manager :: "'w deps \<Rightarrow> Flags \<Rightarrow> 'w \<Rightarrow> (fatal + 'w RouteTableManager option) \<times> 'w" where
  "make_route_manager d fl w =
     (if fl_routeTableIDs fl = [] then (Inr None, w)
      else case detect_region d fl w of
        (Inl err, w1) \<Rightarrow> (Inl err, w1)
      | (Inr reg, w1) \<Rightarrow>
     (case detect_instance d fl w1 of
        (Inl err, w2) \<Rightarrow> (Inl err, w2)
      | (Inr inst, w2) \<Rightarrow>
     (let rtIDs = ParseRouteTableIDs (fl_routeTableIDs fl) in
      if length rtIDs = 0 then (Inl NoValidRouteTables, w2)
      else case NewRouteTableManager (newEC2Client d) rtIDs inst reg w2 of
        (Inl err, w3) \<Rightarrow> (Inl (RouteTableManagerFailed err), w3)
      | (Inr rtm, w3) \<Rightarrow>
     (case VerifyRouteTableAccess rtm w3 of
        (Some err, w4) \<Rightarrow> (Inl (RouteTableAccessFailed err), w4)
      | (None, w4) \<Rightarrow> (Inr (Some rtm), w4)))))"

subsection \<open>Components\<close>

definition manager_options :: "Flags \<Rightarrow> ManagerOptions" where
  "manager_options fl =
     \<lparr>opt_MetricsBindAddress = metricsAddr fl, opt_HealthProbeBindAddress = probeAddr fl,
      opt_LeaderElection = True, opt_LeaderElectionID = leaderElectionID fl,
      opt_LeaseDuration = leaseDuration fl, opt_RenewDeadline = renewDeadline fl, opt_RetryPeriod = retryPeriod fl,
      opt_SyncPeriod = 3600 * 1000000000,
      opt_ByObject = [(\<lparr>Group = ''cilium.io'', Version = ''v2'', Kind = ''CiliumVTEPConfig''\<rparr>,
                       (''metadata.name'', CiliumVTEPConfigName))]\<rparr>"

definition vxlan_config :: "IP \<Rightarrow> Config" where
  "vxlan_config localIP =
     \<lparr>InterfaceName = DefaultVXLANInterface, VNI = DefaultVNI, Port = DefaultPort, LocalIP = localIP\<rparr>"

definition gateway_labels :: "'w deps \<Rightarrow> Flags \<Rightarrow> string list" where
  "gateway_labels d fl =
     [fl_nodeIP fl, Getenv d ''NODE_NAME'', DefaultVXLANInterface, fl_vpcCIDR fl, fl_podCIDRs fl]"

text \<open>From the creation of the manager to the registration of the collector.\<close>

definition assemble ::
  "'w deps \<Rightarrow> Flags \<Rightarrow> IP \<Rightarrow> Interface \<Rightarrow> 'w RouteTableManager option \<Rightarrow> 'w sys \<Rightarrow> (fatal + 'w running) \<times> 'w sys" where
  "assemble d fl localIP vxlanIface rtm s =
     (case call (NewManager d (manager_options fl)) s of
        (Inl err, s1) \<Rightarrow> (Inl (ManagerFailed err), s1)
      | (Inr mgr, s1) \<Rightarrow>
     (let gatewaySetup = NewSetup rtm (parseCIDRs (fl_podCIDRs fl)) (GetClient mgr) vxlanIface localIP
                           (parseCIDRs (fl_vpcCIDR fl))
      in case call (mgr_Add mgr gatewaySetup) s1 of
        (Some err, s2) \<Rightarrow> (Inl (AddSetupFailed err), s2)
      | (None, s2) \<Rightarrow>
     (let healthServer = NewServer
      in case call (AddHealthzCheck mgr ''healthz'' HealthProbe) s2 of
        (Some err, s3) \<Rightarrow> (Inl (HealthCheckFailed err), s3)
      | (None, s3) \<Rightarrow>
     (case call (AddReadyzCheck mgr ''readyz'' ReadyProbe) s3 of
        (Some err, s4) \<Rightarrow> (Inl (ReadyCheckFailed err), s4)
      | (None, s4) \<Rightarrow>
     (let vtep = NewVTEP vxlanIface
      in case call (NodeReconciler_SetupWithManager (GetClient mgr) vtep (Complete mgr)) s4 of
        (Some err, s5) \<Rightarrow> (Inl (NodeControllerFailed err), s5)
      | (None, s5) \<Rightarrow>
     (let vtepConfig = \<lparr>VxlanIface = vxlanIface, NodeIP = localIP, VpcCIDRs = parseCIDRs (fl_vpcCIDR fl)\<rparr>
      in case call (VTEPConfigReconciler_SetupWithManager (GetClient mgr) vtepConfig (Complete mgr)) s5 of
        (Some err, s6) \<Rightarrow> (Inl (VTEPControllerFailed err), s6)
      | (None, s6) \<Rightarrow>
     (let healthServer1 = SetReady True healthServer
      in case withLabelValues d (gateway_labels d fl) of
        Some err \<Rightarrow> (Inl (MainPanicked vxlanIface err), s6)
      | None \<Rightarrow>
     (let s7 = count (\<lambda>m. m\<lparr>GatewayInfo := (GatewayInfo m)(gateway_labels d fl \<mapsto> 1)\<rparr>) s6;
          (statsCollector, s8) = call (NewNetworkStatsCollector (dep_netlink d) DefaultVXLANInterface localIP) s7
      in case call (RegisterNetworkCollector (mustRegister d) statsCollector) s8 of
        (Some err, s9) \<Rightarrow> (Inl (MainPanicked vxlanIface err), s9)
      | (None, s9) \<Rightarrow> (Inr \<lparr>run_manager = mgr, run_health = healthServer1, run_iface = vxlanIface\<rparr>, s9)))))))))"

definition setup_vxlan :: "'w deps \<Rightarrow> IP \<Rightarrow> 'w \<Rightarrow> (iface_error option \<times> Interface) \<times> 'w" where
  "setup_vxlan d localIP w =
     (case Vxlan_Interface.Setup (ReadFile d) (dep_netlink d) (NewInterface (vxlan_config localIP)) w of
        (err, vxlanIface, w1) \<Rightarrow> ((err, vxlanIface), w1))"

definition prepare :: "'w deps \<Rightarrow> Flags \<Rightarrow> 'w sys \<Rightarrow> (fatal + 'w running) \<times> 'w sys" where
  "prepare d fl s =
     (if fl_nodeIP fl = [] then (Inl NodeIPRequired, s)
      else case ParseIP (fl_nodeIP fl) of
        None \<Rightarrow> (Inl (InvalidNodeIP (fl_nodeIP fl)), s)
      | Some localIP \<Rightarrow>
     (case call (setup_vxlan d localIP) s of
        ((Some err, _), s1) \<Rightarrow> (Inl (VXLANSetupFailed err), s1)
      | ((None, vxlanIface), s1) \<Rightarrow>
          if fl_podCIDRs fl = [] \<or> fl_vpcCIDR fl = [] then (Inl CIDRsRequired, s1)
          else case call (make_route_manager d fl) s1 of
            (Inl err, s2) \<Rightarrow> (Inl err, s2)
          | (Inr rtm, s2) \<Rightarrow> assemble d fl localIP vxlanIface rtm s2))"

definition main :: "'w deps \<Rightarrow> Flags \<Rightarrow> 'w sys \<Rightarrow> fatal option \<times> 'w sys" where
  "main d fl s =
     (case prepare d fl s of
        (Inl (MainPanicked vxlanIface err), s1) \<Rightarrow>
          (Some (MainPanicked vxlanIface err), snd (call (Teardown (dep_netlink d) vxlanIface) s1))
      | (Inl err, s1) \<Rightarrow> (Some err, s1)
      | (Inr components, s1) \<Rightarrow>
          (case mgr_Start d components s1 of
             (Some err, s2) \<Rightarrow> (Some (RunFailed err), s2)
           | (None, s2) \<Rightarrow> (None, snd (call (Teardown (dep_netlink d) (run_iface components)) s2))))"

subsection \<open>The whole program\<close>






subsection \<open>What start-up builds\<close>

text \<open>The CIDR lists and the route table list of the command line are read in the same way: every entry is
  non-empty, trimmed and free of commas, and writing a list out with commas and reading it again gives the
  same list.\<close>

theorem parseCIDRs_normal:
  "list_all entry_ok (parseCIDRs str) \<and> parseCIDRs (Join (parseCIDRs str) CHR '','') = parseCIDRs str
   \<and> ParseRouteTableIDs str = parseCIDRs str"
  by (simp add: list_all_iff cidr_list.parse_entry cidr_list.parse_normal) (simp add: ParseRouteTableIDs_eq parseCIDRs_def)

lemma hex_mac_not_Nil: "HardwareAddr_String (generateDeterministicMAC ip) \<noteq> []"
proof -
  obtain b bs where "generateDeterministicMAC ip = b # bs" using generateDeterministicMAC_Cons by blast
  then have "map hex2 (generateDeterministicMAC ip) \<noteq> []" "[] \<notin> set (map hex2 (generateDeterministicMAC ip))"
    by (auto simp: hex2_def dest: sym)
  then show ?thesis unfolding HardwareAddr_String_def by (rule Join_not_Nil)
qed

lemma make_route_manager_ok:
  assumes "make_route_manager d fl w = (Inr rtm, w')"
  shows "if fl_routeTableIDs fl = [] then rtm = None
         else \<exists>m w1. rtm = Some m \<and> routeTableIDs m = ParseRouteTableIDs (fl_routeTableIDs fl)
                \<and> routeTableIDs m \<noteq> [] \<and> VerifyRouteTableAccess m w1 = (None, w')"
  using assms
  by (fastforce simp: make_route_manager_def NewRouteTableManager_def Let_def
      split: if_splits prod.splits sum.splits option.splits)

lemma assemble_ok:
  assumes "assemble d fl ip i rtm s = (Inr c, s')"
  shows "run_iface c = i \<and> run_health c = SetReady True NewServer"
  using assms by (auto simp: assemble_def Let_def split: prod.splits sum.splits option.splits)

lemma prepare_ok:
  assumes "prepare d fl s = (Inr c, s')"
  obtains ip i w1 rtm w2 s2 where "fl_podCIDRs fl \<noteq> []" and "fl_vpcCIDR fl \<noteq> []" and "ParseIP (fl_nodeIP fl) = Some ip"
    and "Vxlan_Interface.Setup (ReadFile d) (dep_netlink d) (NewInterface (vxlan_config ip)) (world s) = (None, i, w1)"
    and "make_route_manager d fl w1 = (Inr rtm, w2)"
    and "assemble d fl ip i rtm s2 = (Inr c, s')"
  using assms
  by (auto simp: prepare_def setup_vxlan_def call_eq_iff split: if_splits prod.splits sum.splits option.splits)

lemma make_route_manager_error: "fst (make_route_manager d fl w) \<noteq> Inl CIDRsRequired"
  by (auto simp: make_route_manager_def detect_region_def detect_instance_def Let_def
      split: prod.splits sum.splits option.splits)

lemma assemble_error: "fst (assemble d fl ip i rtm s) \<noteq> Inl CIDRsRequired"
  by (auto simp: assemble_def Let_def split: prod.splits sum.splits option.splits)

lemma prepare_no_cidrs:
  assumes "prepare d fl s = (Inl CIDRsRequired, s')"
  obtains ip i w1 where
    "Vxlan_Interface.Setup (ReadFile d) (dep_netlink d) (NewInterface (vxlan_config ip)) (world s) = (None, i, w1)"
    and "world s' = w1"
proof -
  have mr: "make_route_manager d fl w = (Inl CIDRsRequired, w') \<Longrightarrow> False" for w w'
    using make_route_manager_error [of d fl w] by simp
  have as: "assemble d fl ip i rtm s1 = (Inl CIDRsRequired, s2) \<Longrightarrow> False" for ip i rtm s1 s2
    using assemble_error [of d fl ip i rtm s1] by simp
  from assms show thesis
    by (auto simp: prepare_def setup_vxlan_def call_eq_iff intro: that dest: mr as
        split: if_splits prod.splits sum.splits option.splits)
qed

text \<open>
  What controller-runtime documents of a manager: it starts with nothing registered, and what it accepts is
  registered from then on.  The view \<open>reg\<close> is the list of registrations, each as \<open>note\<close> records it.  Nothing else that start-up
  calls registers anything with it.
\<close>

datatype 'w registration =
    Runnable "'w GatewaySetup"
  | Healthz string probe
  | Readyz string probe
  | Controller ControllerSpec "'w reconciler"

definition manager_laws :: "('w registration \<Rightarrow> 'n) \<Rightarrow> 'w Manager \<Rightarrow> ('w \<Rightarrow> 'n list) \<Rightarrow> bool" where
  "manager_laws note mgr reg \<longleftrightarrow>
     (\<forall>g w w'. mgr_Add mgr g w = (None, w') \<longrightarrow> reg w' = reg w @ [note (Runnable g)]) \<and>
     (\<forall>n p w w'. AddHealthzCheck mgr n p w = (None, w') \<longrightarrow> reg w' = reg w @ [note (Healthz n p)]) \<and>
     (\<forall>n p w w'. AddReadyzCheck mgr n p w = (None, w') \<longrightarrow> reg w' = reg w @ [note (Readyz n p)]) \<and>
     (\<forall>spec r w w'. Complete mgr spec r w = (None, w') \<longrightarrow> reg w' = reg w @ [note (Controller spec r)])"

definition startup_laws :: "('w registration \<Rightarrow> 'n) \<Rightarrow> 'w deps \<Rightarrow> ('w \<Rightarrow> 'n list) \<Rightarrow> bool" where
  "startup_laws note d reg \<longleftrightarrow>
     (\<forall>opts w mgr w'. NewManager d opts w = (Inr mgr, w') \<longrightarrow> reg w' = [] \<and> manager_laws note mgr reg) \<and>
     (\<forall>w. reg (snd (LinkList (dep_netlink d) w)) = reg w) \<and>
     (\<forall>l f w. reg (snd (AddrList (dep_netlink d) l f w)) = reg w) \<and>
     (\<forall>c w. reg (snd (mustRegister d c w)) = reg w)"

lemma find_link_with_keeps:
  assumes "\<And>l f w. g (snd (AddrList nl l f w)) = g w"
  shows "g (snd (find_link_with nl ip links w)) = g w"
proof (induction links arbitrary: w)
  case (Cons l links)
  obtain r w1 where r: "AddrList nl l 0 w = (r, w1)" by fastforce
  with assms [of l 0 w] Cons [of w1] show ?case by (cases r) auto
qed simp

lemma NewNetworkStatsCollector_keeps:
  assumes "\<And>w. g (snd (LinkList nl w)) = g w" and "\<And>l f w. g (snd (AddrList nl l f w)) = g w"
  shows "g (snd (NewNetworkStatsCollector nl name ip w)) = g w"
proof -
  obtain r w1 where r: "LinkList nl w = (r, w1)" by fastforce
  have "g w1 = g w" using assms(1) [of w] r by simp
  moreover have "g (snd (find_link_with nl ip links w1)) = g w1" for links by (rule find_link_with_keeps [OF assms(2)])
  moreover have "g (snd (case p of (None, v) \<Rightarrow> (''eth0'', v) | (Some n, v) \<Rightarrow> (n, v))) = g (snd p)" for p
    by (auto split: prod.split option.split)
  ultimately have "g (snd (detectPrimaryNICByIP nl ip w)) = g w"
    using r by (cases r) (auto simp: detectPrimaryNICByIP_def)
  then show ?thesis
    by (auto simp: NewNetworkStatsCollector_def split: prod.splits sum.splits)
qed

text \<open>What a gateway hands to its manager.\<close>

definition registrations :: "'w RouteTableManager option \<Rightarrow> Flags \<Rightarrow> 'w k8s \<Rightarrow> Interface \<Rightarrow> IP \<Rightarrow> 'w registration list" where
  "registrations rtm fl k i ip =
     [Runnable \<lparr>gs_routeTableManager = rtm, gs_podCIDRs = parseCIDRs (fl_podCIDRs fl), gs_k8sClient = k,
        gs_vxlanIface = i, gs_nodeIP = ip, gs_vpcCIDRs = parseCIDRs (fl_vpcCIDR fl)\<rparr>,
      Healthz ''healthz'' HealthProbe, Readyz ''readyz'' ReadyProbe,
      Controller \<lparr>cs_For = WatchCiliumNode, cs_NeedLeaderElection = False\<rparr> (NodeReconciler k \<lparr>iface = i, nodes = {||}\<rparr>),
      Controller \<lparr>cs_For = WatchUnstructured ciliumVTEPConfigGVK, cs_NeedLeaderElection = True\<rparr>
        (ConfigReconciler k \<lparr>VxlanIface = i, NodeIP = ip, VpcCIDRs = parseCIDRs (fl_vpcCIDR fl)\<rparr>)]"

lemma assemble_registers:
  assumes laws: "startup_laws note d reg" and run: "assemble d fl ip i rtm s = (Inr c, s')"
  shows "reg (world s') = map note (registrations rtm fl (GetClient (run_manager c)) i ip)"
proof -
  have nc: "reg w' = reg w" if "NewNetworkStatsCollector (dep_netlink d) name ip w = (x, w')" for name w x w'
    using NewNetworkStatsCollector_keeps [of reg "dep_netlink d" name ip w] laws that by (simp add: startup_laws_def)
  have mr: "reg w' = reg w" if "mustRegister d x w = (r, w')" for x w r w'
    using laws that by (metis startup_laws_def snd_conv)
  have nm: "reg w' = [] \<and> manager_laws note mgr reg" if "NewManager d o' w = (Inr mgr, w')" for o' w mgr w'
    using laws that by (simp add: startup_laws_def)
  from run show ?thesis
    by (auto simp: assemble_def Let_def call_eq_iff RegisterNetworkCollector_def NodeReconciler_SetupWithManager_def
        VTEPConfigReconciler_SetupWithManager_def manager_laws_def registrations_def NewSetup_def NewVTEP_def ciliumVTEPConfigGVK_def
        dest!: nm nc mr split: prod.splits sum.splits option.splits)
qed

text \<open>C19: Whenever start-up gets as far as running the manager, exactly five things are registered with it, and they agree: the leader's
  set-up, the health and the readiness probe, the node controller, which runs on every gateway, and the controller of
  the CiliumVTEPConfig, which runs on the leader.  Set-up and reconcilers have the manager's client, the interface that Setup
  created, with a link and a MAC address, the node IP of the flags and the same VPC CIDRs; no CIDR is empty.  There is
  a route table manager exactly when route tables are configured, with at least one table, and its access check has
  passed; and both probes succeed.\<close>

theorem prepare_components:
  assumes laws: "startup_laws note d reg" and run: "prepare d fl s = (Inr c, s')"
  shows "\<exists>ip i w1 rtm. ParseIP (fl_nodeIP fl) = Some ip
    \<and> Vxlan_Interface.Setup (ReadFile d) (dep_netlink d) (NewInterface (vxlan_config ip)) (world s) = (None, i, w1)
    \<and> GetLink i \<noteq> None \<and> GetMac i \<noteq> [] \<and> run_iface c = i
    \<and> reg (world s') = map note (registrations rtm fl (GetClient (run_manager c)) i ip)
    \<and> [] \<notin> set (parseCIDRs (fl_podCIDRs fl)) \<and> [] \<notin> set (parseCIDRs (fl_vpcCIDR fl))
    \<and> (rtm = None \<longleftrightarrow> fl_routeTableIDs fl = [])
    \<and> (case rtm of None \<Rightarrow> True | Some m \<Rightarrow> routeTableIDs m = ParseRouteTableIDs (fl_routeTableIDs fl) \<and> routeTableIDs m \<noteq> []
         \<and> (\<exists>w2. fst (VerifyRouteTableAccess m w2) = None))
    \<and> HealthCheck (run_health c) = None \<and> ReadyCheck (run_health c) = None"
proof -
  from run obtain ip i w1 rtm w2 s2 where
    p: "ParseIP (fl_nodeIP fl) = Some ip"
      "Vxlan_Interface.Setup (ReadFile d) (dep_netlink d) (NewInterface (vxlan_config ip)) (world s) = (None, i, w1)"
      "make_route_manager d fl w1 = (Inr rtm, w2)" "assemble d fl ip i rtm s2 = (Inr c, s')"
    by (rule prepare_ok)
  note c = assemble_ok [OF p(4)] and m = make_route_manager_ok [OF p(3)]
  have "GetLink i \<noteq> None \<and> GetMac i \<noteq> []"
    using p(2) by (rule Setup_success) (simp add: GetLink_def GetMac_def hex_mac_not_Nil)
  moreover have "(rtm = None \<longleftrightarrow> fl_routeTableIDs fl = [])
    \<and> (case rtm of None \<Rightarrow> True | Some m \<Rightarrow> routeTableIDs m = ParseRouteTableIDs (fl_routeTableIDs fl) \<and> routeTableIDs m \<noteq> []
         \<and> (\<exists>w2. fst (VerifyRouteTableAccess m w2) = None))"
    using m by (cases "fl_routeTableIDs fl = []") (auto, metis fst_conv)
  moreover have "HealthCheck (run_health c) = None" "ReadyCheck (run_health c) = None"
    using c by (simp_all add: HealthCheck_def ReadyCheck_def SetReady_def NewServer_def)
  ultimately show ?thesis
    using p(1,2) c assemble_registers [OF laws p(4)] parseCIDRs_not_empty by blast
qed




lemma Teardown_removes:
  assumes laws: "link_laws nl lv"
    and set: "Vxlan_Interface.Setup rf nl (NewInterface (vxlan_config ip)) w = (None, i, w1)"
    and down: "fst (Teardown nl i w2) = None"
  shows "lv (snd (Teardown nl i w2)) DefaultVXLANInterface = None"
proof -
  from Setup_interface [OF laws set] obtain l where l: "if_link i = Some l" "lk_Name l = DefaultVXLANInterface"
    by (auto simp: GetLink_def NewInterface_def vxlan_config_def)
  obtain w3 where "LinkDel nl l w2 = (None, w3)" using down l by (auto simp: Teardown_def split: prod.splits option.splits)
  with l link_lawsD(3) [OF laws, of l w2 w3] show ?thesis by (simp add: Teardown_def)
qed


text \<open>C40: The VXLAN interface is removed only on the regular way out: when the manager ends without an error and the
  kernel accepts the deletion, the interface is gone, but when start-up stops because the pod or VPC CIDRs are
  missing, which it notices after creating the interface, the process exits and the interface stays up.\<close>

theorem main_interface_cleanup:
  assumes laws: "link_laws (dep_netlink d) lv"
  shows "(main d fl s = (Some CIDRsRequired, s') \<longrightarrow>
            (\<exists>k. lv (world s') DefaultVXLANInterface = Some k \<and> lk_FlagUp (kl_link k)))
    \<and> (main d fl s = (None, s') \<longrightarrow>
         (\<exists>c s1 s2. prepare d fl s = (Inr c, s1) \<and> mgr_Start d c s1 = (None, s2)
            \<and> (fst (Teardown (dep_netlink d) (run_iface c) (world s2)) = None \<longrightarrow> lv (world s') DefaultVXLANInterface = None)))"
proof (intro conjI impI)
  assume m: "main d fl s = (Some CIDRsRequired, s')"
  then have "prepare d fl s = (Inl CIDRsRequired, s')"
    by (auto simp: main_def split: prod.splits sum.splits option.splits fatal.splits)
  then obtain ip i w1 where
    "Vxlan_Interface.Setup (ReadFile d) (dep_netlink d) (NewInterface (vxlan_config ip)) (world s) = (None, i, w1)" "world s' = w1"
    by (rule prepare_no_cidrs)
  with Setup_interface [OF laws this(1)]
  show "\<exists>k. lv (world s') DefaultVXLANInterface = Some k \<and> lk_FlagUp (kl_link k)"
    by (auto simp: NewInterface_def vxlan_config_def)
next
  assume m: "main d fl s = (None, s')"
  then obtain c s1 s2 where c: "prepare d fl s = (Inr c, s1)" "mgr_Start d c s1 = (None, s2)"
    "world s' = snd (Teardown (dep_netlink d) (run_iface c) (world s2))"
    by (auto simp: main_def split: prod.splits sum.splits option.splits fatal.splits)
  from c(1) obtain ip i w1 rtm w2 s3 where
    p: "Vxlan_Interface.Setup (ReadFile d) (dep_netlink d) (NewInterface (vxlan_config ip)) (world s) = (None, i, w1)"
      "assemble d fl ip i rtm s3 = (Inr c, s1)"
    by (rule prepare_ok)
  have "lv (world s') DefaultVXLANInterface = None"
    if "fst (Teardown (dep_netlink d) (run_iface c) (world s2)) = None"
    using Teardown_removes [OF laws p(1), of "world s2"] that c(3) assemble_ok [OF p(2)] by simp
  with c show "\<exists>c s1 s2. prepare d fl s = (Inr c, s1) \<and> mgr_Start d c s1 = (None, s2)
      \<and> (fst (Teardown (dep_netlink d) (run_iface c) (world s2)) = None \<longrightarrow> lv (world s') DefaultVXLANInterface = None)"
    by (intro exI [of _ c] exI [of _ s1] exI [of _ s2]) simp
qed

subsection \<open>Witnesses\<close>

text \<open>A manager that accepts everything, on the example host.\<close>

definition manager0 :: "host Manager" where
  "manager0 = \<lparr>GetClient = \<lparr>Get = (\<lambda>_ _ h. (Inl NotFound, h)), Create = (\<lambda>_ h. (None, h)), Update = (\<lambda>_ h. (None, h))\<rparr>,
     mgr_Add = (\<lambda>_ h. (None, h)), AddHealthzCheck = (\<lambda>_ _ h. (None, h)), AddReadyzCheck = (\<lambda>_ _ h. (None, h)),
     Complete = (\<lambda>_ _ h. (None, h))\<rparr>"

definition deps0 :: "host deps" where
  "deps0 = \<lparr>Getenv = (\<lambda>_. []), ReadFile = forwarding_on, dep_netlink = linux,
     dep_http = \<lparr>parse_url = (\<lambda>_. None), Do = (\<lambda>_ _ h. (Inl ''timeout'', h))\<rparr>,
     newEC2Client = (\<lambda>_ h. (Inl ''no credentials'', h)), NewManager = (\<lambda>_ h. (Inr manager0, h)),
     withLabelValues = (\<lambda>_. None), mustRegister = (\<lambda>_ h. (None, h)), mgr_Start = (\<lambda>_ s. (None, s))\<rparr>"

definition flags0 :: Flags where
  "flags0 = (flag_defaults (\<lambda>_. []))\<lparr>fl_nodeIP := ''10.0.2.99'', fl_podCIDRs := ''10.86.0.0/16'', fl_vpcCIDR := ''10.0.0.0/16''\<rparr>"

lemma flags0_simps [simp]:
  "fl_nodeIP flags0 = ''10.0.2.99''" "fl_podCIDRs flags0 = ''10.86.0.0/16''" "fl_vpcCIDR flags0 = ''10.0.0.0/16''"
  "fl_routeTableIDs flags0 = []"
  by (simp_all add: flags0_def flag_defaults_def)

lemma node_ip0: "ParseIP ''10.0.2.99'' = Some (v4InV6Prefix @ [10, 0, 2, 99])"
  by (simp add: ParseIP_def ParseAddr_def is_dig_def dig_val_def)

lemma vxlan_config0: "vxlan_config (v4InV6Prefix @ [10, 0, 2, 99]) = example_config"
  by (simp add: vxlan_config_def example_config_def)

text \<open>A world with a host and the list of what has been registered, by name.\<close>

definition on_host :: "'h netlink \<Rightarrow> ('h \<times> 'n) netlink" where
  "on_host nl =
     \<lparr>RouteReplace = (\<lambda>r. on_fst (RouteReplace nl r)), RouteDel = (\<lambda>r. on_fst (RouteDel nl r)),
      NeighSet = (\<lambda>n. on_fst (NeighSet nl n)), NeighDel = (\<lambda>n. on_fst (NeighDel nl n)),
      LinkByName = (\<lambda>n. on_fst (LinkByName nl n)), LinkAdd = (\<lambda>x. on_fst (LinkAdd nl x)),
      LinkDel = (\<lambda>l. on_fst (LinkDel nl l)), LinkSetHardwareAddr = (\<lambda>l m. on_fst (LinkSetHardwareAddr nl l m)),
      LinkSetUp = (\<lambda>l. on_fst (LinkSetUp nl l)), LinkList = on_fst (LinkList nl),
      AddrList = (\<lambda>l f. on_fst (AddrList nl l f)), NeighList = (\<lambda>i f. on_fst (NeighList nl i f)),
      RouteList = (\<lambda>l f. on_fst (RouteList nl l f))\<rparr>"

lemma Setup_on_host:
  "Vxlan_Interface.Setup (\<lambda>f w. rf f (fst w)) (on_host nl) i w =
     (case Vxlan_Interface.Setup rf nl i (fst w) of (e, i', h) \<Rightarrow> (e, i', (h, snd w)))"
  by (auto simp: Vxlan_Interface.Setup_def delete_existing_def CheckIPForwarding_def on_host_def on_fst_def Let_def
      split: prod.splits sum.splits option.splits)

fun note0 :: "(host \<times> string list) registration \<Rightarrow> string" where
  "note0 (Runnable g) = ''set-up''"
| "note0 (Healthz n p) = n"
| "note0 (Readyz n p) = n"
| "note0 (Controller spec r) = (if cs_NeedLeaderElection spec then ''leader controller'' else ''controller'')"

definition manager1 :: "(host \<times> string list) Manager" where
  "manager1 = \<lparr>GetClient = \<lparr>Get = (\<lambda>_ _ w. (Inl NotFound, w)), Create = (\<lambda>_ w. (None, w)), Update = (\<lambda>_ w. (None, w))\<rparr>,
     mgr_Add = (\<lambda>g w. (None, (fst w, snd w @ [note0 (Runnable g)]))),
     AddHealthzCheck = (\<lambda>n p w. (None, (fst w, snd w @ [note0 (Healthz n p)]))),
     AddReadyzCheck = (\<lambda>n p w. (None, (fst w, snd w @ [note0 (Readyz n p)]))),
     Complete = (\<lambda>spec r w. (None, (fst w, snd w @ [note0 (Controller spec r)])))\<rparr>"

definition deps1 :: "(host \<times> string list) deps" where
  "deps1 = \<lparr>Getenv = (\<lambda>_. []), ReadFile = (\<lambda>f w. forwarding_on f (fst w)), dep_netlink = on_host linux,
     dep_http = \<lparr>parse_url = (\<lambda>_. None), Do = (\<lambda>_ _ h. (Inl ''timeout'', h))\<rparr>,
     newEC2Client = (\<lambda>_ h. (Inl ''no credentials'', h)), NewManager = (\<lambda>_ w. (Inr manager1, (fst w, []))),
     withLabelValues = (\<lambda>_. None), mustRegister = (\<lambda>_ w. (None, w)), mgr_Start = (\<lambda>_ s. (None, s))\<rparr>"

definition sys1 :: "(host \<times> string list) sys" where
  "sys1 = \<lparr>sys_metrics = metrics_init, world = (host0, [])\<rparr>"

lemma deps1_laws: "startup_laws note0 deps1 snd"
  by (simp add: startup_laws_def manager_laws_def deps1_def manager1_def on_host_def)

lemma prepare1: "\<exists>c s'. prepare deps1 flags0 sys1 = (Inr c, s')"
proof -
  obtain i w1 where "Vxlan_Interface.Setup forwarding_on linux (NewInterface example_config) host0 = (None, i, w1)"
    using example_Setup by blast
  then have set: "Vxlan_Interface.Setup (ReadFile deps1) (dep_netlink deps1) (NewInterface example_config) (world sys1) = (None, i, (w1, []))"
    using Setup_on_host [of forwarding_on linux "NewInterface example_config" "(host0, [])"] by (simp add: deps1_def sys1_def)
  have "\<exists>c s'. assemble deps1 fl ip i rtm s = (Inr c, s')" for fl ip i rtm s
    by (simp add: assemble_def deps1_def manager1_def call_def Let_def NodeReconciler_SetupWithManager_def
        VTEPConfigReconciler_SetupWithManager_def RegisterNetworkCollector_def split: prod.splits)
  with set show ?thesis
    by (simp add: prepare_def setup_vxlan_def call_def node_ip0 vxlan_config0 make_route_manager_def)
qed

theorem prepare_components_witness:
  "\<exists>c s'. prepare deps1 flags0 sys1 = (Inr c, s') \<and> ReadyCheck (run_health c) = None
     \<and> snd (world s') = [''set-up'', ''healthz'', ''readyz'', ''controller'', ''leader controller'']"
proof -
  obtain c s' where p: "prepare deps1 flags0 sys1 = (Inr c, s')" using prepare1 by blast
  with prepare_components [OF deps1_laws p] show ?thesis by (auto simp: registrations_def)
qed

lemma main0: "\<exists>s'. main deps0 (flags0\<lparr>fl_podCIDRs := []\<rparr>) ex_sys = (Some CIDRsRequired, s')"
proof -
  obtain i w1 where "Vxlan_Interface.Setup forwarding_on linux (NewInterface example_config) host0 = (None, i, w1)"
    using example_Setup by blast
  moreover have "ReadFile deps0 = forwarding_on" "dep_netlink deps0 = linux" "world ex_sys = host0"
    by (simp_all add: deps0_def ex_sys_def)
  ultimately show ?thesis
    by (simp add: main_def prepare_def setup_vxlan_def call_def node_ip0 vxlan_config0)
qed

theorem main_interface_cleanup_witness:
  "\<exists>s' k. main deps0 (flags0\<lparr>fl_podCIDRs := []\<rparr>) ex_sys = (Some CIDRsRequired, s')
     \<and> h_links (world s') DefaultVXLANInterface = Some k \<and> lk_FlagUp (kl_link k)"
proof -
  have laws: "link_laws (dep_netlink deps0) h_links" using linux_link_laws by (simp add: deps0_def)
  obtain s' where m: "main deps0 (flags0\<lparr>fl_podCIDRs := []\<rparr>) ex_sys = (Some CIDRsRequired, s')" using main0 by blast
  with main_interface_cleanup [OF laws, of "flags0\<lparr>fl_podCIDRs := []\<rparr>" ex_sys s'] show ?thesis by blast
qed




end
