(* ===== verification/Leader_Race.thy ===== *)
theory Leader_Race
  imports Leader_Setup Controllers
begin

text \<open>
  \<open>UpdateRoutes\<close> at the granularity at which it meets the outside: one EC2 call per step.  Between two calls anything may
  happen to the tables, in particular a gateway that lost its lease may still be running its own pass.
  \<open>pass_step\<close> is the loop of \<^verbatim>\<open>internal/aws/routetable.go\<close> cut at its calls; run without interruption it is
  \<open>UpdateRoutes\<close>.  \<open>race_step\<close> interleaves the passes of several gateways.
\<close>

subsection \<open>A pass in small steps\<close>

text \<open>
  \<open>Todo\<close>: about to read the route of the first pair.  \<open>Writing\<close>: the route was read, and its replacement or
  creation is the next call.  \<open>Ended\<close>: \<open>UpdateRoutes\<close> has returned.
\<close>

datatype pass =
    Todo "(string \<times> string) list"
  | Writing bool string string "(string \<times> string) list"
  | Ended "rt_error option"

definition pass_init :: "'w RouteTableManager \<Rightarrow> string list \<Rightarrow> pass" where
  "pass_init m podCIDRs = Todo (List.product (routeTableIDs m) podCIDRs)"

fun pass_step :: "'w RouteTableManager \<Rightarrow> pass \<times> 'w \<Rightarrow> pass \<times> 'w" where
  "pass_step m (Todo [], w) = (Ended None, w)"
| "pass_step m (Todo ((i, c) # ps), w) =
     (case getRoute m i c w of
        (Inl err, w1) \<Rightarrow> (Ended (Some (UpdateRouteError c i err)), w1)
      | (Inr (Some existing), w1) \<Rightarrow>
          if NetworkInterfaceId existing = Some (primaryENI m) then (Todo ps, w1) else (Writing True i c ps, w1)
      | (Inr None, w1) \<Rightarrow> (Writing False i c ps, w1))"
| "pass_step m (Writing exists i c ps, w) =
     (case (if exists then replaceRoute m i c w else createRoute m i c w) of
        (Some err, w1) \<Rightarrow> (Ended (Some (UpdateRouteError c i err)), w1)
      | (None, w1) \<Rightarrow> (Todo ps, w1))"
| "pass_step m (Ended r, w) = (Ended r, w)"

text \<open>Two steps at most deal with the first pair.\<close>

lemma pass_step_pair:
  assumes "update_body m i c w = (r, w')"
  shows "\<exists>k \<le> 2. (pass_step m ^^ k) (Todo ((i, c) # ps), w) = ((case r of None \<Rightarrow> Todo ps | Some e \<Rightarrow> Ended (Some e)), w')"
proof -
  obtain r0 where u: "updateRoute m i c w = (r0, w')" and r: "r = map_option (UpdateRouteError c i) r0"
    using assms by (auto simp: update_body_def split: prod.splits option.splits)
  from u show ?thesis
  proof (cases rule: updateRoute_cases)
    case (failed e)
    with r show ?thesis by (intro exI [of _ 1]) simp
  next
    case (correct x)
    with r show ?thesis by (intro exI [of _ 1]) simp
  next
    case (replace x w1)
    with r show ?thesis by (intro exI [of _ 2]) (simp add: numeral_2_eq_2 split: option.splits)
  next
    case (create w1)
    with r show ?thesis by (intro exI [of _ 2]) (simp add: numeral_2_eq_2 split: option.splits)
  qed
qed

lemma pass_steps_loop:
  assumes "for_each (\<lambda>(i, c). update_body m i c) ps w = (r, w')"
  shows "\<exists>k \<le> 2 * length ps + 1. (pass_step m ^^ k) (Todo ps, w) = (Ended r, w')"
  using assms
proof (induction ps arbitrary: w)
  case Nil
  then show ?case by (intro exI [of _ 1]) simp
next
  case (Cons p ps)
  obtain i c where p: "p = (i, c)" by (cases p)
  obtain r0 w1 where b: "update_body m i c w = (r0, w1)" by fastforce
  from pass_step_pair [OF b, of ps] obtain k where k: "k \<le> 2"
    "(pass_step m ^^ k) (Todo ((i, c) # ps), w) = ((case r0 of None \<Rightarrow> Todo ps | Some e \<Rightarrow> Ended (Some e)), w1)" by blast
  show ?case
  proof (cases r0)
    case (Some e)
    with k b Cons.prems show ?thesis by (intro exI [of _ k]) (simp add: p)
  next
    case None
    with b Cons.prems have "for_each (\<lambda>(i, c). update_body m i c) ps w1 = (r, w')" by (simp add: p)
    from Cons.IH [OF this] obtain l where "l \<le> 2 * length ps + 1" "(pass_step m ^^ l) (Todo ps, w1) = (Ended r, w')" by blast
    with k None show ?thesis
      by (intro exI [of _ "l + k"]) (simp add: p funpow_add)
  qed
qed

lemma funpow_Ended: "(pass_step m ^^ k) s = (Ended r, w) \<Longrightarrow> k \<le> n \<Longrightarrow> (pass_step m ^^ n) s = (Ended r, w)"
  using funpow_add [of "n - k" k "pass_step m"] funpow_fixed [of "pass_step m" "(Ended r, w)" "n - k"] by simp

text \<open>C13: Cut into steps of one EC2 call each, the pass over all tables and CIDRs is UpdateRoutes: without interruption it
  ends within $2 \cdot |tables| \cdot |CIDRs| + 1$ steps, with the same result and the same effect on the outside.\<close>

theorem pass_runs_UpdateRoutes:
  "(pass_step m ^^ (2 * (length (routeTableIDs m) * length cidrs) + 1)) (pass_init m cidrs, w)
     = (Ended (fst (UpdateRoutes m cidrs w)), snd (UpdateRoutes m cidrs w))"
proof -
  obtain r w' where u: "UpdateRoutes m cidrs w = (r, w')" by fastforce
  from pass_steps_loop [OF u [unfolded UpdateRoutes_pairs]] obtain k where
    "k \<le> 2 * (length (routeTableIDs m) * length cidrs) + 1" "(pass_step m ^^ k) (pass_init m cidrs, w) = (Ended r, w')"
    by (auto simp: pass_init_def)
  then show ?thesis unfolding u fst_conv snd_conv by (blast intro: funpow_Ended)
qed

subsection \<open>The number of calls\<close>

text \<open>The same manager on a client that counts its calls.\<close>

definition counting :: "('a \<Rightarrow> 'w \<Rightarrow> 'b \<times> 'w) \<Rightarrow> 'a \<Rightarrow> 'w \<times> nat \<Rightarrow> 'b \<times> 'w \<times> nat" where
  "counting f x s = (case f x (fst s) of (r, w) \<Rightarrow> (r, w, Suc (snd s)))"

definition count_calls :: "'w RouteTableManager \<Rightarrow> ('w \<times> nat) RouteTableManager" where
  "count_calls m =
     \<lparr>ec2Client = \<lparr>DescribeInstances = counting (DescribeInstances (ec2Client m)),
        DescribeRouteTables = counting (DescribeRouteTables (ec2Client m)),
        CreateRoute = counting (CreateRoute (ec2Client m)), ReplaceRoute = counting (ReplaceRoute (ec2Client m))\<rparr>,
      routeTableIDs = routeTableIDs m, instanceID = instanceID m, primaryENI = primaryENI m, region = region m\<rparr>"

lemma count_calls_getRoute:
  "getRoute (count_calls m) i c s = (case getRoute m i c (fst s) of (r, w) \<Rightarrow> (r, w, Suc (snd s)))"
  by (simp add: getRoute_def count_calls_def counting_def split: prod.splits sum.splits list.splits)

lemma count_calls_write:
  "replaceRoute (count_calls m) i c s = (case replaceRoute m i c (fst s) of (r, w) \<Rightarrow> (r, w, Suc (snd s)))"
  "createRoute (count_calls m) i c s = (case createRoute m i c (fst s) of (r, w) \<Rightarrow> (r, w, Suc (snd s)))"
  by (simp_all add: replaceRoute_def createRoute_def route_input_def count_calls_def counting_def split: prod.splits option.splits)

lemma count_calls_body:
  assumes "update_body m i c w = (r, w')"
  shows "\<exists>k. update_body (count_calls m) i c (w, n) = (r, w', n + k) \<and> 1 \<le> k \<and> k \<le> 2"
proof -
  obtain r0 where u: "updateRoute m i c w = (r0, w')" and r: "r = map_option (UpdateRouteError c i) r0"
    using assms by (auto simp: update_body_def split: prod.splits option.splits)
  have eni: "primaryENI (count_calls m) = primaryENI m" by (simp add: count_calls_def)
  from u have "\<exists>k. updateRoute (count_calls m) i c (w, n) = (r0, w', n + k) \<and> 1 \<le> k \<and> k \<le> 2"
  proof (cases rule: updateRoute_cases)
    case (failed e)
    then show ?thesis by (intro exI [of _ 1]) (simp add: updateRoute_def count_calls_getRoute)
  next
    case (correct x)
    then show ?thesis by (intro exI [of _ 1]) (simp add: updateRoute_def count_calls_getRoute eni)
  next
    case (replace x w1)
    then show ?thesis by (intro exI [of _ 2]) (simp add: updateRoute_def count_calls_getRoute count_calls_write eni)
  next
    case (create w1)
    then show ?thesis by (intro exI [of _ 2]) (simp add: updateRoute_def count_calls_getRoute count_calls_write)
  qed
  then show ?thesis by (auto simp: update_body_def r split: option.splits)
qed

lemma count_calls_loop:
  assumes "for_each (\<lambda>(i, c). update_body m i c) ps w = (r, w')"
  shows "\<exists>k. for_each (\<lambda>(i, c). update_body (count_calls m) i c) ps (w, n) = (r, w', n + k)
           \<and> k \<le> 2 * length ps \<and> (r = None \<longrightarrow> length ps \<le> k)"
  using assms
proof (induction ps arbitrary: w n)
  case Nil
  then show ?case by simp
next
  case (Cons p ps)
  obtain i c where p: "p = (i, c)" by (cases p)
  obtain r0 w1 where b: "update_body m i c w = (r0, w1)" by fastforce
  from count_calls_body [OF b, of n] obtain k where
    k: "update_body (count_calls m) i c (w, n) = (r0, w1, n + k)" "1 \<le> k" "k \<le> 2" by blast
  show ?case
  proof (cases r0)
    case (Some e)
    with b Cons.prems have "r = Some e" "w' = w1" by (simp_all add: p)
    with k Some show ?thesis by (intro exI [of _ k]) (simp add: p)
  next
    case None
    with b Cons.prems have "for_each (\<lambda>(i, c). update_body m i c) ps w1 = (r, w')" by (simp add: p)
    from Cons.IH [OF this, of "n + k"] obtain l where
      "for_each (\<lambda>(i, c). update_body (count_calls m) i c) ps (w1, n + k) = (r, w', n + k + l)"
      "l \<le> 2 * length ps" "r = None \<longrightarrow> length ps \<le> l" by blast
    with k None show ?thesis by (intro exI [of _ "k + l"]) (auto simp: p)
  qed
qed

text \<open>C24: The EC2 load of a leader set-up is bounded: UpdateRoutes makes at most two calls per table and CIDR, and when it
  succeeds at least one; counting the calls changes neither its result nor its effect.\<close>

theorem UpdateRoutes_call_bound:
  "\<exists>k. UpdateRoutes (count_calls m) cidrs (w, n) = (fst (UpdateRoutes m cidrs w), snd (UpdateRoutes m cidrs w), n + k)
     \<and> k \<le> 2 * (length (routeTableIDs m) * length cidrs)
     \<and> (if fst (UpdateRoutes m cidrs w) = None then length (routeTableIDs m) * length cidrs \<le> k else True)"
proof -
  obtain r w' where u: "UpdateRoutes m cidrs w = (r, w')" by fastforce
  have "routeTableIDs (count_calls m) = routeTableIDs m" by (simp add: count_calls_def)
  with count_calls_loop [OF u [unfolded UpdateRoutes_pairs], of n] obtain k where
    "UpdateRoutes (count_calls m) cidrs (w, n) = (r, w', n + k)" "k \<le> 2 * (length (routeTableIDs m) * length cidrs)"
    "r = None \<longrightarrow> length (routeTableIDs m) * length cidrs \<le> k" by (auto simp: UpdateRoutes_pairs)
  then show ?thesis by (auto simp: u)
qed

subsection \<open>What one step changes\<close>

fun pass_pairs :: "pass \<Rightarrow> (string \<times> string) set" where
  "pass_pairs (Todo ps) = set ps"
| "pass_pairs (Writing _ i c ps) = insert (i, c) (set ps)"
| "pass_pairs (Ended _) = {}"

lemma pass_init_pairs [simp]: "pass_pairs (pass_init m cidrs) = set (routeTableIDs m) \<times> set cidrs"
  by (simp add: pass_init_def)

text \<open>A step reads and moves on, or it sets one route that it still has to deal with.\<close>

lemma pass_step_effect:
  assumes laws: "ec2_laws (ec2Client m) tv canon" and step: "pass_step m (p, w) = (p', w')"
  shows "pass_pairs p' \<subseteq> pass_pairs p
    \<and> (tv w' = tv w \<or> (\<exists>i c. (i, c) \<in> pass_pairs p \<and> routes_set (tv w) (tv w') i (canon c) (primaryENI m)))"
proof -
  have d: "reads_frame (ec2Client m) tv" and wr: "write_laws (ec2Client m) tv canon"
    using laws by (simp_all add: ec2_laws_def)
  show ?thesis
  proof (cases p)
    case (Todo ps)
    show ?thesis
    proof (cases ps)
      case (Cons x qs)
      obtain i c where x: "x = (i, c)" by (cases x)
      obtain g w1 where g: "getRoute m i c w = (g, w1)" by fastforce
      from getRoute_frame [OF d g] g step show ?thesis
        by (auto simp: Todo Cons x split: sum.splits option.splits if_splits)
    qed (use step Todo in auto)
  next
    case (Writing ex i c ps)
    obtain r w1 where r: "(if ex then replaceRoute m i c w else createRoute m i c w) = (r, w1)" by fastforce
    with write_effect [OF wr, of i c w r w1]
    have "tv w1 = tv w \<or> routes_set (tv w) (tv w1) i (canon c) (primaryENI m)" by (auto split: if_splits)
    moreover have "w' = w1 \<and> pass_pairs p' \<subseteq> pass_pairs p"
      using r step by (cases r) (auto simp: Writing)
    ultimately show ?thesis by (auto simp: Writing)
  next
    case (Ended r)
    with step show ?thesis by simp
  qed
qed

text \<open>The pair that a step finishes points to this gateway afterwards.\<close>

lemma pass_step_finishes:
  assumes laws: "ec2_laws (ec2Client m) tv canon" and fresh: "fresh_reads (ec2Client m) tv" and step: "pass_step m (p, w) = (p', w')"
    and x: "(i, c) \<in> pass_pairs p" "(i, c) \<notin> pass_pairs p'" and ok: "\<forall>e. p' \<noteq> Ended (Some e)" and c: "canon c = c"
  shows "points_to (tv w') i c (primaryENI m)"
proof -
  have d: "reads_frame (ec2Client m) tv" and wr: "write_laws (ec2Client m) tv canon"
    using laws by (simp_all add: ec2_laws_def)
  show ?thesis
  proof (cases p)
    case (Todo ps)
    with x step ok obtain qs where ps: "ps = (i, c) # qs"
      by (cases ps) (auto split: prod.splits sum.splits option.splits if_splits)
    obtain g w1 where g: "getRoute m i c w = (g, w1)" by fastforce
    with step x ok obtain r where "g = Inr (Some r)" "NetworkInterfaceId r = Some (primaryENI m)" "w' = w1"
      by (auto simp: Todo ps split: sum.splits option.splits if_splits)
    with getRoute_frame [OF d g] getRoute_finds [OF fresh, of i c w "Some r" w1] g show ?thesis by (auto simp: points_to_def)
  next
    case (Writing ex j e ps)
    obtain r w1 where r: "(if ex then replaceRoute m j e w else createRoute m j e w) = (r, w1)" by fastforce
    then have none: "r = None" using step ok by (cases r) (auto simp: Writing)
    with step r have w: "w' = w1" "p' = Todo ps" by (simp_all add: Writing)
    from write_effect [OF wr, of j e w r w1] r none have "routes_set (tv w) (tv w1) j (canon e) (primaryENI m)"
      by (auto split: if_splits)
    moreover have "(i, c) = (j, e)" using x w(2) by (auto simp: Writing)
    ultimately show ?thesis using routes_set_points [of "tv w" "tv w1" j "canon e" "primaryENI m"] c w(1) by simp
  next
    case (Ended r)
    with x show ?thesis by simp
  qed
qed

subsection \<open>A pass among other changes\<close>

text \<open>
  While a pass runs, the rest of the world may do anything that leaves the routes it has set: the
  environment of the pass.
\<close>

definition env_step ::
  "'w RouteTableManager \<Rightarrow> string list \<Rightarrow> ('w \<Rightarrow> string \<rightharpoonup> ec2_route list) \<Rightarrow> pass \<times> 'w \<Rightarrow> pass \<times> 'w \<Rightarrow> bool" where
  "env_step m cidrs tv s s' \<longleftrightarrow>
     fst s' = fst s
     \<and> (\<forall>i c. i \<in> set (routeTableIDs m) \<longrightarrow> c \<in> set cidrs \<longrightarrow>
          points_to (tv (snd s)) i c (primaryENI m) \<longrightarrow> points_to (tv (snd s')) i c (primaryENI m))"

definition pass_good ::
  "'w RouteTableManager \<Rightarrow> string list \<Rightarrow> ('w \<Rightarrow> string \<rightharpoonup> ec2_route list) \<Rightarrow> (string \<Rightarrow> string) \<Rightarrow> pass \<times> 'w \<Rightarrow> bool" where
  "pass_good m cidrs tv canon s \<longleftrightarrow>
     ec2_laws (ec2Client m) tv canon \<and> fresh_reads (ec2Client m) tv \<and> (\<forall>c \<in> set cidrs. canon c = c)
     \<and> ((\<exists>e. fst s = Ended (Some e))
        \<or> (\<forall>i c. i \<in> set (routeTableIDs m) \<longrightarrow> c \<in> set cidrs \<longrightarrow> (i, c) \<notin> pass_pairs (fst s) \<longrightarrow>
             points_to (tv (snd s)) i c (primaryENI m)))"

interpretation open_pass: open_system "\<lambda>s s'. s' = pass_step m s" "env_step m cidrs tv" "pass_good m cidrs tv canon"
  for m :: "'w RouteTableManager" and cidrs tv canon
proof
  fix s t :: "pass \<times> 'w"
  assume good: "pass_good m cidrs tv canon s"
  show "pass_good m cidrs tv canon t" if "env_step m cidrs tv s t"
    using good that by (auto simp: pass_good_def env_step_def)
  assume t: "t = pass_step m s"
  obtain p w p' w' where s: "s = (p, w)" "t = (p', w')" by (cases s, cases t)
  have laws: "ec2_laws (ec2Client m) tv canon" and fresh: "fresh_reads (ec2Client m) tv"
    and canon: "\<forall>c \<in> set cidrs. canon c = c" using good by (auto simp: pass_good_def)
  note step = t [unfolded s, symmetric]
  show "pass_good m cidrs tv canon t"
  proof (cases "\<exists>e. p' = Ended (Some e)")
    case False
    then have "\<forall>e. p \<noteq> Ended (Some e)" using step by auto
    with good s have ok: "points_to (tv w) i c (primaryENI m)"
      if "i \<in> set (routeTableIDs m)" "c \<in> set cidrs" "(i, c) \<notin> pass_pairs p" for i c
      using that by (auto simp: pass_good_def)
    have "points_to (tv w') i c (primaryENI m)"
      if ic: "i \<in> set (routeTableIDs m)" "c \<in> set cidrs" "(i, c) \<notin> pass_pairs p'" for i c
    proof (cases "(i, c) \<in> pass_pairs p")
      case True
      with pass_step_finishes [OF laws fresh step True ic(3)] False canon ic(2) show ?thesis by blast
    next
      case out: False
      with ok ic have "points_to (tv w) i c (primaryENI m)" by blast
      with pass_step_effect [OF laws step] routes_set_points routes_set_frame show ?thesis
        unfolding points_to_def by metis
    qed
    with laws fresh canon s show ?thesis by (auto simp: pass_good_def)
  qed (use laws fresh canon s in \<open>auto simp: pass_good_def\<close>)
qed

text \<open>C6: A pass of UpdateRoutes succeeds in its purpose under concurrency: if it ends without an error, all its routes
  point to this gateway, whatever was read, written and changed between its calls, as long as its reads are up to date when
  they are made and nobody takes back a route that already pointed to this gateway.\<close>

theorem undisturbed_pass_publishes:
  assumes "ec2_laws (ec2Client m) tv canon" and fresh: "fresh_reads (ec2Client m) tv" and "\<forall>c \<in> set cidrs. canon c = c"
    and "(\<lambda>s s'. s' = pass_step m s \<or> env_step m cidrs tv s s')\<^sup>*\<^sup>* (pass_init m cidrs, w) (Ended None, w')"
    and "i \<in> set (routeTableIDs m)" and "c \<in> set cidrs"
  shows "points_to (tv w') i c (primaryENI m)"
proof -
  have "pass_good m cidrs tv canon (pass_init m cidrs, w)" using assms(1-3) by (simp add: pass_good_def)
  with open_pass.open_run_good [OF assms(4)] have "pass_good m cidrs tv canon (Ended None, w')" by blast
  with assms(5,6) show ?thesis by (simp add: pass_good_def)
qed

subsection \<open>Passes of several gateways\<close>

type_synonym 'w contender = "'w RouteTableManager \<times> string list"

inductive race_step :: "(nat \<Rightarrow> 'w contender) \<Rightarrow> (nat \<Rightarrow> pass) \<times> 'w \<Rightarrow> (nat \<Rightarrow> pass) \<times> 'w \<Rightarrow> bool" for gws where
  begin_pass: "ps i = Ended r \<Longrightarrow> race_step gws (ps, w) (ps(i := pass_init (fst (gws i)) (snd (gws i))), w)"
| advance: "pass_step (fst (gws i)) (ps i, w) = (p, w') \<Longrightarrow> race_step gws (ps, w) (ps(i := p), w')"

definition race_init :: "'w \<Rightarrow> (nat \<Rightarrow> pass) \<times> 'w" where
  "race_init w = (\<lambda>_. Ended None, w)"

definition manages :: "(string \<Rightarrow> string) \<Rightarrow> 'w contender \<Rightarrow> string \<Rightarrow> string \<Rightarrow> bool" where
  "manages canon g t c \<longleftrightarrow> t \<in> set (routeTableIDs (fst g)) \<and> c \<in> canon ` set (snd g)"

definition race_inv ::
  "(nat \<Rightarrow> 'w contender) \<Rightarrow> ('w \<Rightarrow> string \<rightharpoonup> ec2_route list) \<Rightarrow> (string \<Rightarrow> string) \<Rightarrow> 'w \<Rightarrow> (nat \<Rightarrow> pass) \<times> 'w \<Rightarrow> bool" where
  "race_inv gws tv canon w0 s \<longleftrightarrow>
     (\<forall>i. pass_pairs (fst s i) \<subseteq> set (routeTableIDs (fst (gws i))) \<times> set (snd (gws i)))
     \<and> (\<forall>t c. route_of (tv (snd s)) t c = route_of (tv w0) t c
          \<or> (\<exists>i. manages canon (gws i) t c \<and> points_to (tv (snd s)) t c (primaryENI (fst (gws i)))))"

lemma race_step_inv:
  assumes laws: "\<And>i. ec2_laws (ec2Client (fst (gws i))) tv canon"
    and inv: "race_inv gws tv canon w0 s" and step: "race_step gws s s'"
  shows "race_inv gws tv canon w0 s'"
  using step
proof cases
  case (begin_pass ps i r w)
  with inv show ?thesis by (auto simp: race_inv_def)
next
  case (advance i ps w p w')
  note eff = pass_step_effect [OF laws advance(3)]
  have pairs: "pass_pairs (ps i) \<subseteq> set (routeTableIDs (fst (gws i))) \<times> set (snd (gws i))"
    using inv advance(1) by (simp add: race_inv_def)
  have "route_of (tv w') t c = route_of (tv w0) t c
      \<or> (\<exists>i. manages canon (gws i) t c \<and> points_to (tv w') t c (primaryENI (fst (gws i))))" for t c
  proof (cases "route_of (tv w') t c = route_of (tv w) t c")
    case True
    with inv advance(1) show ?thesis by (simp add: race_inv_def points_to_def)
  next
    case False
    with eff obtain j d where jd: "(j, d) \<in> pass_pairs (ps i)" "routes_set (tv w) (tv w') j (canon d) (primaryENI (fst (gws i)))"
      by auto
    with False have "t = j" "c = canon d" using routes_set_frame by blast+
    with jd pairs routes_set_points [OF jd(2)] have "manages canon (gws i) t c" "points_to (tv w') t c (primaryENI (fst (gws i)))"
      by (auto simp: manages_def)
    then show ?thesis by blast
  qed
  moreover have "pass_pairs p \<subseteq> set (routeTableIDs (fst (gws i))) \<times> set (snd (gws i))"
    using eff pairs by (rule order_trans [OF conjunct1])
  ultimately show ?thesis using inv advance(1,2) by (simp add: race_inv_def)
qed

interpretation race: open_system "race_step gws" "\<lambda>_ _. False"
    "\<lambda>s. (\<forall>i. ec2_laws (ec2Client (fst (gws i))) tv canon) \<and> race_inv gws tv canon w0 s"
  for gws :: "nat \<Rightarrow> 'w contender" and tv canon w0
  by unfold_locales (auto intro: race_step_inv)

text \<open>C5: However the passes of competing gateways interleave, call by call and with any of the calls failing, every route is at
  any time the one that was there before or points to a gateway that manages it; routes that no gateway manages are
  never touched.\<close>

theorem race_routes_owned:
  assumes "\<forall>i. ec2_laws (ec2Client (fst (gws i))) tv canon" and "(race_step gws)\<^sup>*\<^sup>* (race_init w0) (ps, w)"
  shows "route_of (tv w) t c = route_of (tv w0) t c
    \<or> (\<exists>i. manages canon (gws i) t c \<and> points_to (tv w) t c (primaryENI (fst (gws i))))"
proof -
  have "race_inv gws tv canon w0 (race_init w0)" by (simp add: race_inv_def race_init_def)
  with race.open_run_good [of gws "race_init w0" "(ps, w)" tv canon w0] assms
  have "race_inv gws tv canon w0 (ps, w)" by simp
  then show ?thesis by (simp add: race_inv_def)
qed

subsection \<open>A late write\<close>

text \<open>
  Nothing takes a route back once a gateway waits as leader: its reconciler only maintains the CiliumVTEPConfig.
  So the environment that the theorem on undisturbed passes relies on matters.
\<close>

lemma reconcile_run_keeps:
  assumes "k8s_keeps k f"
  shows "f (run (\<lambda>w req. snd (VTEPConfigReconcile u k r req w)) w reqs) = f w"
proof (induction reqs arbitrary: w)
  case (Cons req reqs)
  have "f (snd (VTEPConfigReconcile u k r req w)) = f w"
    using Upsert_keeps [OF assms, of u "VxlanIface r" "NodeIP r" "VpcCIDRs r" w]
    by (auto simp: VTEPConfigReconcile_def split: prod.splits option.splits)
  with Cons show ?case by simp
qed simp

text \<open>C15: A write that a former leader had decided on before it lost the lease, and that reaches EC2 after its successor has
  finished (with reads that were up to date), takes the route away from the successor, and no later reconciliation of the successor takes it
  back: the routes are only updated once per leadership.\<close>

theorem late_write_steals_route:
  assumes laws: "ec2_laws (ec2Client old) tv canon" "ec2_laws (ec2Client new) tv canon"
    and fresh: "fresh_reads (ec2Client new) tv"
    and finished: "UpdateRoutes new cidrs w = (None, w1)"
    and pair: "i \<in> set (routeTableIDs new)" "c \<in> set cidrs" "canon c = c"
    and late: "pass_step old (Writing ex i c ps, w1) = (Todo ps, w2)"
    and enis: "primaryENI old \<noteq> primaryENI new" and keeps: "k8s_keeps k tv"
  shows "points_to (tv w1) i c (primaryENI new) \<and> points_to (tv w2) i c (primaryENI old)
    \<and> \<not> points_to (tv (run (\<lambda>w req. snd (VTEPConfigReconcile u k r req w)) w2 reqs)) i c (primaryENI new)"
proof -
  have "points_to (tv w1) i c (primaryENI new)"
    using routes.loop_reached [OF conjI [OF laws(2) fresh] finished [unfolded UpdateRoutes_pairs], of "(i, c)"] pair
    by (simp add: route_goal_def)
  moreover obtain r w' where r: "(if ex then replaceRoute old i c w1 else createRoute old i c w1) = (r, w')" by fastforce
  with late have "r = None" "w' = w2" by (auto split: option.splits)
  with r write_effect [of old tv canon i c w1 r w2] laws(1) pair(3)
  have "routes_set (tv w1) (tv w2) i c (primaryENI old)" by (auto simp: ec2_laws_def split: if_splits)
  then have "points_to (tv w2) i c (primaryENI old)" by (rule routes_set_points)
  moreover from this enis have "\<not> points_to (tv w2) i c (primaryENI new)" by (auto simp: points_to_def)
  ultimately show ?thesis by (simp add: reconcile_run_keeps [OF keeps])
qed

subsection \<open>Witnesses\<close>

text \<open>Two gateways, the old leader with interface \<^verbatim>\<open>eni-3\<close>, compete for the tables of the example.\<close>

definition old0 :: "(string \<rightharpoonup> ec2_route list) RouteTableManager" where
  "old0 = (mgr0 id)\<lparr>primaryENI := ''eni-3''\<rparr>"

lemma old0_simps [simp]: "ec2Client old0 = mem_ec2 id" "primaryENI old0 = ''eni-3''" "routeTableIDs old0 = [''rtb-1'', ''rtb-2'']"
  by (simp_all add: old0_def)

definition race0 :: "nat \<Rightarrow> (string \<rightharpoonup> ec2_route list) contender" where
  "race0 i = (if i = 0 then old0 else mgr0 id, [''10.0.0.0/16''])"

lemma rtranclp_funpow: "(\<And>s. R s (f s)) \<Longrightarrow> R\<^sup>*\<^sup>* s ((f ^^ n) s)"
  by (induction n) (auto intro: rtranclp.rtrancl_into_rtrancl)

theorem undisturbed_pass_publishes_witness: "points_to tables1 ''rtb-2'' ''10.0.0.0/16'' ''eni-1''"
proof -
  have "(\<lambda>s s'. s' = pass_step (mgr0 id) s \<or> env_step (mgr0 id) [''10.0.0.0/16''] (\<lambda>t. t) s s')\<^sup>*\<^sup>*
      (pass_init (mgr0 id) [''10.0.0.0/16''], tables0) ((pass_step (mgr0 id) ^^ 5) (pass_init (mgr0 id) [''10.0.0.0/16''], tables0))"
    by (rule rtranclp_funpow) simp
  moreover obtain k where "k \<le> 5"
      "(pass_step (mgr0 id) ^^ k) (pass_init (mgr0 id) [''10.0.0.0/16''], tables0) = (Ended None, tables1)"
    using pass_steps_loop [OF mgr0_run [unfolded UpdateRoutes_pairs]] by (auto simp: pass_init_def)
  ultimately have "(\<lambda>s s'. s' = pass_step (mgr0 id) s \<or> env_step (mgr0 id) [''10.0.0.0/16''] (\<lambda>t. t) s s')\<^sup>*\<^sup>*
      (pass_init (mgr0 id) [''10.0.0.0/16''], tables0) (Ended None, tables1)"
    using funpow_Ended [of k "mgr0 id" _ _ tables1 5] by simp
  from undisturbed_pass_publishes [OF _ _ _ this, of id "''rtb-2''" "''10.0.0.0/16''"] show ?thesis
    by (simp add: mem_ec2_laws mem_ec2_describe)
qed

text \<open>The old leader reads the first route and replaces it.\<close>

lemma race0_reads:
  "(race_step race0)\<^sup>*\<^sup>* (race_init tables0)
     ((\<lambda>_. Ended None)(0 := Writing True ''rtb-1'' ''10.0.0.0/16'' [(''rtb-2'', ''10.0.0.0/16'')]), tables0)"
proof -
  let ?p = "pass_init (fst (race0 0)) (snd (race0 0))"
  have 1: "race_step race0 (race_init tables0) ((\<lambda>_. Ended None)(0 := ?p), tables0)"
    unfolding race_init_def by (rule race_step.begin_pass) simp
  have "race_step race0 ((\<lambda>_. Ended None)(0 := ?p), tables0)
      (((\<lambda>_. Ended None)(0 := ?p))(0 := Writing True ''rtb-1'' ''10.0.0.0/16'' [(''rtb-2'', ''10.0.0.0/16'')]), tables0)"
    by (rule race_step.advance) (simp add: race0_def pass_init_def getRoute_def mem_ec2_def tables0_def find_route_def mem_route_def)
  with 1 show ?thesis by simp
qed

lemma race0_writes:
  "\<exists>ps t. (race_step race0)\<^sup>*\<^sup>* (race_init tables0) (ps, t) \<and> points_to t ''rtb-1'' ''10.0.0.0/16'' ''eni-3''"
proof -
  let ?ps = "(\<lambda>_ :: nat. Ended None)(0 := Writing True ''rtb-1'' ''10.0.0.0/16'' [(''rtb-2'', ''10.0.0.0/16'')])"
  obtain p t where t: "pass_step (fst (race0 0)) (?ps 0, tables0) = (p, t)" by fastforce
  then have "race_step race0 (?ps, tables0) (?ps(0 := p), t)" by (rule race_step.advance)
  with race0_reads have "(race_step race0)\<^sup>*\<^sup>* (race_init tables0) (?ps(0 := p), t)" by (rule rtranclp.rtrancl_into_rtrancl)
  moreover have "points_to t ''rtb-1'' ''10.0.0.0/16'' ''eni-3''"
    using t by (auto simp: race0_def replaceRoute_def route_input_def mem_ec2_def tables0_def find_route_def mem_route_def
        mem_replace_def points_to_def route_of_def)
  ultimately show ?thesis by blast
qed

theorem race_routes_owned_witness:
  "\<exists>ps t. (race_step race0)\<^sup>*\<^sup>* (race_init tables0) (ps, t) \<and> points_to t ''rtb-1'' ''10.0.0.0/16'' ''eni-3''
     \<and> route_of t ''rtb-1'' ''10.9.0.0/16'' = route_of tables0 ''rtb-1'' ''10.9.0.0/16''"
proof -
  obtain ps t where t: "(race_step race0)\<^sup>*\<^sup>* (race_init tables0) (ps, t)" "points_to t ''rtb-1'' ''10.0.0.0/16'' ''eni-3''"
    using race0_writes by blast
  have "\<forall>i. ec2_laws (ec2Client (fst (race0 i))) (\<lambda>t. t) id" by (simp add: race0_def mem_ec2_laws)
  from race_routes_owned [OF this t(1), of "''rtb-1''" "''10.9.0.0/16''"]
  have "route_of t ''rtb-1'' ''10.9.0.0/16'' = route_of tables0 ''rtb-1'' ''10.9.0.0/16''"
    by (simp add: manages_def race0_def)
  with t show ?thesis by blast
qed

lemma late_write0:
  "\<exists>t. pass_step old0 (Writing True ''rtb-1'' ''10.0.0.0/16'' [(''rtb-2'', ''10.0.0.0/16'')], tables1)
     = (Todo [(''rtb-2'', ''10.0.0.0/16'')], t)"
  by (simp add: replaceRoute_def route_input_def mem_ec2_def tables1_def find_route_def mem_route_def)

theorem late_write_steals_route_witness:
  "\<exists>t. pass_step old0 (Writing True ''rtb-1'' ''10.0.0.0/16'' [(''rtb-2'', ''10.0.0.0/16'')], tables1)
       = (Todo [(''rtb-2'', ''10.0.0.0/16'')], t)
     \<and> points_to tables1 ''rtb-1'' ''10.0.0.0/16'' ''eni-1'' \<and> points_to t ''rtb-1'' ''10.0.0.0/16'' ''eni-3''"
proof -
  let ?k = "\<lparr>Get = (\<lambda>_ _ t. (Inl NotFound, t)), Create = (\<lambda>_ t. (None, t)), Update = (\<lambda>_ t. (None, t))\<rparr>"
  obtain t where t: "pass_step old0 (Writing True ''rtb-1'' ''10.0.0.0/16'' [(''rtb-2'', ''10.0.0.0/16'')], tables1)
      = (Todo [(''rtb-2'', ''10.0.0.0/16'')], t)" using late_write0 by blast
  have "k8s_keeps ?k (\<lambda>t. t)" by (simp add: k8s_keeps_def)
  from late_write_steals_route [where tv = "\<lambda>t. t" and canon = id, OF _ _ _ mgr0_run _ _ _ t _ this] t show ?thesis
    by (simp add: mem_ec2_laws mem_ec2_describe)
qed

end
