(* ===== verification/Leader_Steps.thy ===== *)
theory Leader_Steps
  imports Leader_Race
begin

text \<open>
  \<open>Start\<close> (\<^verbatim>\<open>internal/gateway/setup.go\<close>) and \<open>UpsertCiliumVTEPConfig\<close> (\<^verbatim>\<open>internal/cilium/vtep.go\<close>) cut at their calls to the
  outside: one step makes at most one call to EC2 or to the API server, and between two steps everything
  else may move.  Run without interruption the steps are \<open>Start\<close> and \<open>UpsertCiliumVTEPConfig\<close>.  The theory also says what
  each step needs to succeed and what it keeps, for the cluster of gateways.
\<close>

subsection \<open>The upsert in steps\<close>

datatype upserting =
    Reading                           \<comment> \<open>about to read the object\<close>
  | Creating obj                      \<comment> \<open>none was found; the creation is the next call\<close>
  | Updating obj                      \<comment> \<open>one was read; its replacement is the next call\<close>
  | Upserted "upsert_error option"    \<comment> \<open>returned\<close>

fun upsert_step ::
  "unstruct \<Rightarrow> 'w k8s \<Rightarrow> Interface \<Rightarrow> IP \<Rightarrow> string list \<Rightarrow> upserting \<times> 'w \<Rightarrow> upserting \<times> 'w" where
  "upsert_step u k vxlanIface nodeIP vpcCIDRs (Reading, w) =
     (let macAddr = GetMac vxlanIface;
          desired = desired_config (IP_String nodeIP) macAddr vpcCIDRs
      in case Get k ciliumVTEPConfigGVK CiliumVTEPConfigName w of
        (Inl err, w1) \<Rightarrow>
          if err \<noteq> NotFound then (Upserted (Some (GettingError err)), w1)
          else (Creating (SetCreationTimestamp u 0 (SetGroupVersionKind u ciliumVTEPConfigGVK desired)), w1)
      | (Inr existing, w1) \<Rightarrow>
          if \<not> needsUpdate u existing (IP_String nodeIP) macAddr vpcCIDRs then (Upserted None, w1)
          else (Updating (SetName u CiliumVTEPConfigName (SetResourceVersion u (GetResourceVersion u existing)
                            (SetGroupVersionKind u ciliumVTEPConfigGVK desired))), w1))"
| "upsert_step u k vxlanIface nodeIP vpcCIDRs (Creating ob, w) =
     (case Create k ob w of
        (Some createErr, w1) \<Rightarrow>
          if createErr = AlreadyExists then (Upserted None, w1) else (Upserted (Some (CreatingError createErr)), w1)
      | (None, w1) \<Rightarrow> (Upserted None, w1))"
| "upsert_step u k vxlanIface nodeIP vpcCIDRs (Updating ob, w) =
     (case Update k ob w of
        (Some updateErr, w1) \<Rightarrow> (Upserted (Some (UpdatingError updateErr)), w1)
      | (None, w1) \<Rightarrow> (Upserted None, w1))"
| "upsert_step u k vxlanIface nodeIP vpcCIDRs (Upserted r, w) = (Upserted r, w)"

lemma upsert_steps:
  "(upsert_step u k i ip cidrs ^^ 2) (Reading, w) =
     (Upserted (fst (UpsertCiliumVTEPConfig u k i ip cidrs w)), snd (UpsertCiliumVTEPConfig u k i ip cidrs w))"
  by (simp add: numeral_2_eq_2 UpsertCiliumVTEPConfig_def Let_def split: prod.splits sum.splits option.splits)

fun upsert_fuel :: "upserting \<Rightarrow> nat" where
  "upsert_fuel Reading = 2"
| "upsert_fuel (Creating _) = 1"
| "upsert_fuel (Updating _) = 1"
| "upsert_fuel (Upserted _) = 0"

lemma upsert_fuel_0 [simp]: "upsert_fuel p = 0 \<longleftrightarrow> (\<exists>r. p = Upserted r)"
  by (cases p) auto

lemma upsert_step_fuel: "upsert_step u k i ip cidrs (p, w) = (p', w') \<Longrightarrow> upsert_fuel p' \<le> upsert_fuel p - 1"
  by (cases p) (auto simp: Let_def split: prod.splits sum.splits option.splits if_splits)

lemma upsert_step_keeps:
  assumes "k8s_keeps k f" and "upsert_step u k i ip cidrs (p, w) = (p', w')"
  shows "f w' = f w"
  using assms
  by (cases p) (auto simp: k8s_keeps_def Let_def split: prod.splits sum.splits option.splits if_splits, (metis snd_conv)+)

text \<open>
  Where an upsert stands that will succeed: what it is about to write still fits what the server has.
\<close>

fun upsert_track :: "unstruct \<Rightarrow> ('w \<Rightarrow> obj option) \<Rightarrow> 'w GatewaySetup \<Rightarrow> upserting \<times> 'w \<Rightarrow> bool" where
  "upsert_track u store g (Reading, w) = True"
| "upsert_track u store g (Creating ob, w) \<longleftrightarrow>
     store w = None \<and> ob ''spec'' = desired_config (IP_String (gs_nodeIP g)) (GetMac (gs_vxlanIface g)) (gs_vpcCIDRs g) ''spec''"
| "upsert_track u store g (Updating ob, w) \<longleftrightarrow>
     (\<exists>old. store w = Some old \<and> GetResourceVersion u old = GetResourceVersion u ob)
     \<and> ob ''spec'' = desired_config (IP_String (gs_nodeIP g)) (GetMac (gs_vxlanIface g)) (gs_vpcCIDRs g) ''spec''"
| "upsert_track u store g (Upserted r, w) \<longleftrightarrow> r = None \<and> config_published store g w"

lemma upsert_track_store: "store w' = store w \<Longrightarrow> upsert_track u store g (p, w) \<Longrightarrow> upsert_track u store g (p, w')"
  by (cases p) (auto simp: config_published_def)

lemma upsert_step_track:
  assumes ready: "config_ready u tv store g w0" and track: "upsert_track u store g (p, w)"
    and step: "upsert_step u (gs_k8sClient g) (gs_vxlanIface g) (gs_nodeIP g) (gs_vpcCIDRs g) (p, w) = (p', w')"
  shows "upsert_track u store g (p', w')"
proof -
  have u: "unstruct_laws u" and api: "api_laws u (gs_k8sClient g) store" and fresh: "get_fresh (gs_k8sClient g) store"
    and up: "api_up u (gs_k8sClient g) store" and args: "GetMac (gs_vxlanIface g) \<noteq> []" "[] \<notin> set (gs_vpcCIDRs g)"
    using ready by (auto simp: config_ready_def)
  show ?thesis
  proof (cases p)
    case Reading
    obtain r w1 where g: "Get (gs_k8sClient g) ciliumVTEPConfigGVK CiliumVTEPConfigName w = (r, w1)" by fastforce
    have r: "r = (case store w of None \<Rightarrow> Inl NotFound | Some ob \<Rightarrow> Inr ob)" and w1: "store w1 = store w"
      using fresh g api_getD [OF api g] by (metis get_fresh_def fst_conv)+
    show ?thesis
    proof (cases "store w")
      case None
      with step g r w1 create_object_spec [OF u] show ?thesis by (auto simp: Reading Let_def)
    next
      case (Some ob)
      with step g r w1 update_object [OF u] needsUpdate_advertises [OF u IP_String_not_Nil args] show ?thesis
        by (auto simp: Reading Let_def config_published_def split: if_splits)
    qed
  next
    case (Creating ob)
    obtain r w1 where c: "Create (gs_k8sClient g) ob w = (r, w1)" by fastforce
    with up track have "r = None" by (simp add: Creating api_up_def) (metis fst_conv)
    with step c api_createD [OF api c] track stored_advertises show ?thesis
      by (fastforce simp: Creating config_published_def)
  next
    case (Updating ob)
    obtain r w1 where c: "Update (gs_k8sClient g) ob w = (r, w1)" by fastforce
    with up track have "r = None" by (auto simp: Updating api_up_def) (metis fst_conv)
    with step c api_updateD [OF api c] track stored_advertises show ?thesis
      by (fastforce simp: Updating config_published_def)
  next
    case (Upserted r)
    with track step show ?thesis by auto
  qed
qed

subsection \<open>Start in steps\<close>

text \<open>
  \<open>Begun\<close>: the lease is won and \<open>Start\<close> is about to run.  \<open>Routing\<close>: in \<open>UpdateRoutes\<close>, with the clock readings of the set-up and of
  the update.  \<open>Publishing\<close>: in the upsert.  \<open>Blocked\<close>: at \<^verbatim>\<open><-ctx.Done()\<close>.
\<close>

datatype phase =
    Idle
  | Begun
  | Routing duration duration pass
  | Publishing duration upserting
  | Blocked
  | Stopped "start_error option"

definition publish_phase :: "'w GatewaySetup \<Rightarrow> duration \<Rightarrow> phase" where
  "publish_phase g setupStart =
     Publishing setupStart (if length (gs_vpcCIDRs g) > 0 then Reading else Upserted None)"

fun start_step :: "('w \<Rightarrow> duration \<times> 'w) \<Rightarrow> unstruct \<Rightarrow> 'w GatewaySetup \<Rightarrow> phase \<times> 'w sys \<Rightarrow> phase \<times> 'w sys" where
  "start_step now u g (Begun, s) =
     (let (setupStart, s0) = call now s;
          s1 = count (\<lambda>m. m\<lparr>LeaderIsActive := 1\<rparr>) s0
      in case gs_routeTableManager g of
           None \<Rightarrow> (publish_phase g setupStart, s1)
         | Some rtm \<Rightarrow> (let (rtStart, s2) = call now s1 in (Routing setupStart rtStart (pass_init rtm (gs_podCIDRs g)), s2)))"
| "start_step now u g (Routing setupStart rtStart (Ended (Some err)), s) =
     (Stopped (Some (RouteUpdateFailed err)),
      leave (count (\<lambda>m. m\<lparr>RouteTableUpdateErrorsTotal := RouteTableUpdateErrorsTotal m + 1\<rparr>) s))"
| "start_step now u g (Routing setupStart rtStart (Ended None), s) =
     (let (rtEnd, s1) = call now s;
          s2 = count (\<lambda>m. m\<lparr>RouteTableUpdateDuration := RouteTableUpdateDuration m @ [rtEnd - rtStart]\<rparr>) s1
      in (publish_phase g setupStart, count (\<lambda>m. m\<lparr>RouteTableUpdateTotal := RouteTableUpdateTotal m + 1\<rparr>) s2))"
| "start_step now u g (Routing setupStart rtStart p, s) =
     (case gs_routeTableManager g of
        None \<Rightarrow> (Routing setupStart rtStart (Ended None), s)
      | Some rtm \<Rightarrow> (let (p', w') = pass_step rtm (p, world s) in (Routing setupStart rtStart p', s\<lparr>world := w'\<rparr>)))"
| "start_step now u g (Publishing setupStart (Upserted (Some err)), s) = (Stopped (Some (UpsertFailed err)), leave s)"
| "start_step now u g (Publishing setupStart (Upserted None), s) =
     (let (setupEnd, s1) = call now s
      in (Blocked, count (\<lambda>m. m\<lparr>LeaderSetupDuration := LeaderSetupDuration m @ [setupEnd - setupStart]\<rparr>) s1))"
| "start_step now u g (Publishing setupStart p, s) =
     (let (p', w') = upsert_step u (gs_k8sClient g) (gs_vxlanIface g) (gs_nodeIP g) (gs_vpcCIDRs g) (p, world s)
      in (Publishing setupStart p', s\<lparr>world := w'\<rparr>))"
| "start_step now u g (Idle, s) = (Idle, s)"
| "start_step now u g (Blocked, s) = (Blocked, s)"
| "start_step now u g (Stopped r, s) = (Stopped r, s)"

text \<open>The phase in which a finished run of \<open>Start\<close> leaves a gateway.\<close>

fun phase_of :: "outcome \<Rightarrow> phase" where
  "phase_of Waiting = Blocked"
| "phase_of (Returned r) = Stopped r"

definition start_bound :: "'w GatewaySetup \<Rightarrow> nat" where
  "start_bound g =
     (case gs_routeTableManager g of None \<Rightarrow> 4
      | Some m \<Rightarrow> 2 * (length (routeTableIDs m) * length (gs_podCIDRs g)) + 6)"

fun pass_fuel :: "pass \<Rightarrow> nat" where
  "pass_fuel (Todo ps) = 2 * length ps + 1"
| "pass_fuel (Writing _ _ _ ps) = 2 * length ps + 2"
| "pass_fuel (Ended _) = 0"

lemma pass_fuel_0 [simp]: "pass_fuel p = 0 \<longleftrightarrow> (\<exists>r. p = Ended r)"
  by (cases p) auto

lemma pass_step_fuel: "pass_step m (p, w) = (p', w') \<Longrightarrow> pass_fuel p' \<le> pass_fuel p - 1"
  by (cases "(m, (p, w))" rule: pass_step.cases)
    (auto split: prod.splits sum.splits option.splits if_splits)

fun phase_fuel :: "'w GatewaySetup \<Rightarrow> phase \<Rightarrow> nat" where
  "phase_fuel g Begun = start_bound g"
| "phase_fuel g (Routing _ _ p) = pass_fuel p + 4"
| "phase_fuel g (Publishing _ p) = upsert_fuel p + 1"
| "phase_fuel g _ = 0"

text \<open>No matter what the calls answer, every step brings \<open>Start\<close> closer to its end.\<close>

lemma start_step_fuel:
  assumes "start_step now u g (ph, s) = (ph', s')"
  shows "phase_fuel g ph' \<le> phase_fuel g ph - 1"
  using assms
  by (cases "(now, u, g, ph, s)" rule: start_step.cases)
    (auto simp: Let_def start_bound_def publish_phase_def pass_init_def
      dest!: pass_step_fuel upsert_step_fuel split: prod.splits option.splits if_splits simp del: pass_step.simps upsert_step.simps)

subsection \<open>Its steps are Start\<close>

text \<open>A run of \<open>f\<close> of at most \<open>n\<close> steps.\<close>

definition within :: "nat \<Rightarrow> ('s \<Rightarrow> 's) \<Rightarrow> 's \<Rightarrow> 's \<Rightarrow> bool" where
  "within n f s t \<longleftrightarrow> (\<exists>k \<le> n. (f ^^ k) s = t)"

lemma within_refl: "within n f s s"
  by (auto simp: within_def intro: exI [of _ 0])

lemma within_step: "within n f (f s) t \<Longrightarrow> within (Suc n) f s t"
  unfolding within_def by (metis Suc_le_mono comp_apply funpow_Suc_right)

lemma within_trans: "within n f s t \<Longrightarrow> within k f t r \<Longrightarrow> within (n + k) f s r"
  unfolding within_def by (metis add.commute add_mono comp_apply funpow_add)

lemma within_mono: "within n f s t \<Longrightarrow> n \<le> k \<Longrightarrow> within k f s t"
  unfolding within_def using order_trans by blast

lemma within_final:
  assumes "within n f s t" and "f t = t"
  shows "(f ^^ n) s = t"
proof -
  from assms(1) obtain k where "k \<le> n" "(f ^^ k) s = t" by (auto simp: within_def)
  with funpow_add [of "n - k" k f] funpow_fixed [of f t "n - k"] assms(2) show ?thesis by simp
qed

lemma routing_steps:
  assumes m: "gs_routeTableManager g = Some m" and "(pass_step m ^^ k) (p, world s) = (Ended r, w')"
  shows "within k (start_step now u g) (Routing a b p, s) (Routing a b (Ended r), s\<lparr>world := w'\<rparr>)"
  using assms(2)
proof (induction k arbitrary: p s)
  case 0
  then show ?case by (auto intro: within_refl)
next
  case (Suc k)
  obtain p1 w1 where st: "pass_step m (p, world s) = (p1, w1)" by fastforce
  show ?case
  proof (cases "\<exists>r. p = Ended r")
    case True
    with Suc.prems funpow_fixed [of "pass_step m" "(p, world s)" "Suc k"] show ?thesis by (auto intro: within_refl)
  next
    case False
    with m st have "start_step now u g (Routing a b p, s) = (Routing a b p1, s\<lparr>world := w1\<rparr>)" by (cases p) auto
    moreover have "(pass_step m ^^ k) (p1, world (s\<lparr>world := w1\<rparr>)) = (Ended r, w')"
      using Suc.prems st by (simp add: funpow_swap1)
    ultimately show ?thesis using Suc.IH [of p1 "s\<lparr>world := w1\<rparr>"] by (intro within_step) simp
  qed
qed

lemma publishing_steps:
  assumes "(upsert_step u (gs_k8sClient g) (gs_vxlanIface g) (gs_nodeIP g) (gs_vpcCIDRs g) ^^ k) (p, world s) = (Upserted r, w')"
  shows "within k (start_step now u g) (Publishing a p, s) (Publishing a (Upserted r), s\<lparr>world := w'\<rparr>)"
  using assms
proof (induction k arbitrary: p s)
  case 0
  then show ?case by (auto intro: within_refl)
next
  case (Suc k)
  let ?f = "upsert_step u (gs_k8sClient g) (gs_vxlanIface g) (gs_nodeIP g) (gs_vpcCIDRs g)"
  obtain p1 w1 where st: "?f (p, world s) = (p1, w1)" by fastforce
  show ?case
  proof (cases "\<exists>r. p = Upserted r")
    case True
    with Suc.prems funpow_fixed [of ?f "(p, world s)" "Suc k"] show ?thesis by (auto intro: within_refl)
  next
    case False
    with st have "start_step now u g (Publishing a p, s) = (Publishing a p1, s\<lparr>world := w1\<rparr>)"
      by (cases p) (auto simp del: upsert_step.simps)
    moreover have "(?f ^^ k) (p1, world (s\<lparr>world := w1\<rparr>)) = (Upserted r, w')"
      using Suc.prems st by (simp add: funpow_swap1)
    ultimately show ?thesis using Suc.IH [of p1 "s\<lparr>world := w1\<rparr>"] by (intro within_step) simp
  qed
qed

text \<open>From the upsert on.\<close>

lemma publish_phase_steps:
  assumes "start_config u g s = (r, s1)"
  shows "within 3 (start_step now u g) (publish_phase g t0, s)
    (case r of Some e \<Rightarrow> (Stopped (Some (UpsertFailed e)), leave s1)
     | None \<Rightarrow> (let (t1, s2) = call now s1
         in (Blocked, count (\<lambda>m. m\<lparr>LeaderSetupDuration := LeaderSetupDuration m @ [t1 - t0]\<rparr>) s2)))"
proof -
  have "within 2 (start_step now u g) (publish_phase g t0, s) (Publishing t0 (Upserted r), s1)"
  proof (cases "gs_vpcCIDRs g = []")
    case True
    with assms show ?thesis by (simp add: publish_phase_def start_config_def within_refl)
  next
    case False
    with assms publishing_steps [OF upsert_steps, of now u g t0 s] show ?thesis
      by (auto simp: publish_phase_def start_config_def call_def split: prod.splits)
  qed
  moreover have "within 1 (start_step now u g) (Publishing t0 (Upserted r), s1)
    (case r of Some e \<Rightarrow> (Stopped (Some (UpsertFailed e)), leave s1)
     | None \<Rightarrow> (let (t1, s2) = call now s1
         in (Blocked, count (\<lambda>m. m\<lparr>LeaderSetupDuration := LeaderSetupDuration m @ [t1 - t0]\<rparr>) s2)))"
    unfolding within_def by (rule exI [of _ 1]) (simp split: option.splits prod.splits)
  ultimately show ?thesis using within_trans by fastforce
qed

lemma start_steps_within:
  assumes "Start now u g s = (out, s')"
  shows "within (start_bound g) (start_step now u g) (Begun, s) (phase_of out, s')"
proof -
  obtain t0 w0 where t0: "now (world s) = (t0, w0)" by fastforce
  define s1 where "s1 = count (\<lambda>m. m\<lparr>LeaderIsActive := 1\<rparr>) (s\<lparr>world := w0\<rparr>)"
  obtain r s2 where r: "start_routes now g s1 = (r, s2)" by fastforce
  obtain r' s3 where r': "start_config u g s2 = (r', s3)" by fastforce
  have out: "(phase_of out, s') =
    (case r of Some e \<Rightarrow> (Stopped (Some (RouteUpdateFailed e)), leave s2)
     | None \<Rightarrow> (case r' of Some e \<Rightarrow> (Stopped (Some (UpsertFailed e)), leave s3)
         | None \<Rightarrow> (let (t1, s4) = call now s3
             in (Blocked, count (\<lambda>m. m\<lparr>LeaderSetupDuration := LeaderSetupDuration m @ [t1 - t0]\<rparr>) s4))))"
    using assms t0 r r' by (auto simp: Start_def s1_def call_def Let_def split: prod.splits option.splits)
  note publish = publish_phase_steps [OF r', of now t0]
  show ?thesis
  proof (cases "gs_routeTableManager g")
    case None
    with r have "r = None" "s2 = s1" by (simp_all add: start_routes_def)
    with publish out have "within 3 (start_step now u g) (publish_phase g t0, s1) (phase_of out, s')" by simp
    moreover have "start_step now u g (Begun, s) = (publish_phase g t0, s1)"
      using None t0 by (simp add: s1_def call_def)
    ultimately show ?thesis using None within_step [of 3 "start_step now u g" "(Begun, s)"] by (simp add: start_bound_def)
  next
    case (Some m)
    define n where "n = 2 * (length (routeTableIDs m) * length (gs_podCIDRs g)) + 1"
    obtain rt w1 where rt: "now w0 = (rt, w1)" by fastforce
    obtain e w2 where e: "UpdateRoutes m (gs_podCIDRs g) w1 = (e, w2)" by fastforce
    have "start_step now u g (Begun, s) = (Routing t0 rt (pass_init m (gs_podCIDRs g)), s1\<lparr>world := w1\<rparr>)"
      using Some t0 rt by (simp add: s1_def call_def)
    moreover from pass_steps_loop [OF e [unfolded UpdateRoutes_pairs]] obtain k where k: "k \<le> n"
      "(pass_step m ^^ k) (pass_init m (gs_podCIDRs g), world (s1\<lparr>world := w1\<rparr>)) = (Ended e, w2)"
      by (auto simp: pass_init_def n_def)
    with within_mono [OF routing_steps [OF Some k(2)] k(1)]
    have "within n (start_step now u g) (Routing t0 rt (pass_init m (gs_podCIDRs g)), s1\<lparr>world := w1\<rparr>)
        (Routing t0 rt (Ended e), s1\<lparr>world := w2\<rparr>)" by simp
    moreover have "start_step now u g (Routing t0 rt (Ended e), s1\<lparr>world := w2\<rparr>) =
        (case r of Some err \<Rightarrow> (Stopped (Some (RouteUpdateFailed err)), leave s2) | None \<Rightarrow> (publish_phase g t0, s2))"
      using Some r rt e by (auto simp: start_routes_def s1_def call_def Let_def split: prod.splits option.splits)
    moreover from publish out have "within 3 (start_step now u g)
        (case r of Some err \<Rightarrow> (Stopped (Some (RouteUpdateFailed err)), leave s2) | None \<Rightarrow> (publish_phase g t0, s2)) (phase_of out, s')"
      by (cases r) (auto intro: within_refl)
    ultimately have "within (Suc (n + Suc 3)) (start_step now u g) (Begun, s) (phase_of out, s')"
      by (metis within_step within_trans)
    moreover have "Suc (n + Suc 3) = start_bound g" using Some by (simp add: start_bound_def n_def)
    ultimately show ?thesis by simp
  qed
qed

lemma start_steps_run:
  "(start_step now u g ^^ start_bound g) (Begun, s) = (phase_of (fst (Start now u g s)), snd (Start now u g s))"
proof -
  obtain out s' where run: "Start now u g s = (out, s')" by fastforce
  have "start_step now u g (phase_of out, s') = (phase_of out, s')" by (cases out) simp_all
  with within_final [OF start_steps_within [OF run]] run show ?thesis by simp
qed

text \<open>C14: Cut into steps with at most one call to EC2 or to the API server each, a leader's Start is the same: left alone it ends
  within $2 \cdot |tables| \cdot |CIDRs| + 6$ steps (4 without route tables), at its waiting point or with its error, with the
  same metrics and the same effect on the outside.\<close>

theorem start_steps_Start:
  "(start_step now u g ^^ start_bound g) (Begun, s) = (phase_of (fst (Start now u g s)), snd (Start now u g s))"
  by (rule start_steps_run)

subsection \<open>What a step does to the leader gauge\<close>

fun active :: "phase \<Rightarrow> bool" where
  "active (Routing _ _ _) = True"
| "active (Publishing _ _) = True"
| "active Blocked = True"
| "active _ = False"

lemma active_publish [simp]: "active (publish_phase g t)"
  by (simp add: publish_phase_def)

lemma start_step_gauge:
  assumes "start_step now u g (ph, s) = (ph', s')"
    and "LeaderIsActive (sys_metrics s) = (if active ph then 1 else 0)"
  shows "LeaderIsActive (sys_metrics s') = (if active ph' then 1 else 0)"
  using assms
  by (cases "(now, u, g, ph, s)" rule: start_step.cases)
    (auto simp: Let_def leave_def call_def simp del: pass_step.simps upsert_step.simps split: prod.splits option.splits)

subsection \<open>What a step does to the routes\<close>

text \<open>The laws of a gateway's environment that its steps rely on; nothing here says that a call succeeds.\<close>

definition gateway_laws ::
  "('w \<Rightarrow> duration \<times> 'w) \<Rightarrow> ('w \<Rightarrow> string \<rightharpoonup> ec2_route list) \<Rightarrow> (string \<Rightarrow> string) \<Rightarrow> 'w GatewaySetup \<Rightarrow> bool" where
  "gateway_laws now tv canon g \<longleftrightarrow>
     clock_keeps now tv \<and> k8s_keeps (gs_k8sClient g) tv
     \<and> (\<forall>m. gs_routeTableManager g = Some m \<longrightarrow>
          ec2_laws (ec2Client m) tv canon \<and> fresh_reads (ec2Client m) tv \<and> (\<forall>c \<in> set (gs_podCIDRs g). canon c = c))"

text \<open>Whether the next step may write a route; if not, it leaves all tables alone and no later step will write one.\<close>

fun may_write :: "phase \<Rightarrow> bool" where
  "may_write Begun = True"
| "may_write (Routing _ _ p) \<longleftrightarrow> pass_fuel p > 0"
| "may_write _ = False"

lemma may_write_publish [simp]: "\<not> may_write (publish_phase g t)"
  by (simp add: publish_phase_def)

lemma start_step_no_write:
  assumes "gateway_laws now tv canon g" and "start_step now u g (ph, s) = (ph', s')" and "\<not> may_write ph"
  shows "tv (world s') = tv (world s) \<and> \<not> may_write ph'"
proof -
  have ck: "\<And>w. tv (snd (now w)) = tv w" and k: "k8s_keeps (gs_k8sClient g) tv"
    using assms(1) by (auto simp: gateway_laws_def clock_keeps_def)
  have ck': "tv w' = tv w" if "now w = (t, w')" for w t w' using ck [of w] that by simp
  show ?thesis
    using assms(2,3)
    by (cases "(now, u, g, ph, s)" rule: start_step.cases)
      (auto simp: Let_def leave_def call_def simp del: upsert_step.simps dest: ck' upsert_step_keeps [OF k] split: prod.splits)
qed

text \<open>The tables and CIDRs that a gateway has not dealt with yet in its phase, and the routes it has.\<close>

definition managed :: "'w GatewaySetup \<Rightarrow> (string \<times> string) set" where
  "managed g = (case gs_routeTableManager g of None \<Rightarrow> {} | Some m \<Rightarrow> set (routeTableIDs m) \<times> set (gs_podCIDRs g))"

definition eni_of :: "'w GatewaySetup \<Rightarrow> string" where
  "eni_of g = (case gs_routeTableManager g of None \<Rightarrow> [] | Some m \<Rightarrow> primaryENI m)"

fun pending :: "'w GatewaySetup \<Rightarrow> phase \<Rightarrow> (string \<times> string) set" where
  "pending g (Routing _ _ (Ended (Some _))) = managed g"
| "pending g (Routing _ _ p) = pass_pairs p"
| "pending g (Publishing _ _) = {}"
| "pending g Blocked = {}"
| "pending g _ = managed g"

definition owned :: "('w \<Rightarrow> string \<rightharpoonup> ec2_route list) \<Rightarrow> 'w GatewaySetup \<Rightarrow> phase \<Rightarrow> 'w \<Rightarrow> bool" where
  "owned tv g ph w \<longleftrightarrow> (\<forall>(t, c) \<in> managed g - pending g ph. points_to (tv w) t c (eni_of g))"

lemma owned_published: "pending g ph = {} \<Longrightarrow> owned tv g ph w \<longleftrightarrow> routes_published tv g w"
  by (auto simp: owned_def managed_def eni_of_def routes_published_def split: option.splits)

lemma owned_mono:
  assumes "owned tv g ph w" and "\<And>t c. (t, c) \<in> managed g \<Longrightarrow> points_to (tv w) t c (eni_of g) \<Longrightarrow> points_to (tv w') t c (eni_of g)"
  shows "owned tv g ph w'"
  using assms unfolding owned_def by blast

lemma pending_publish [simp]: "pending g (publish_phase g t) = {}"
  by (simp add: publish_phase_def)

lemma owned_pass:
  assumes "gs_routeTableManager g = Some m" and "gateway_laws now tv canon g"
  shows "owned tv g (Routing a b p) w \<longleftrightarrow> pass_good m (gs_podCIDRs g) tv canon (p, w)"
proof -
  have laws: "ec2_laws (ec2Client m) tv canon" "fresh_reads (ec2Client m) tv" "\<forall>c \<in> set (gs_podCIDRs g). canon c = c"
    using assms by (auto simp: gateway_laws_def)
  show ?thesis
  proof (cases "\<exists>e. p = Ended (Some e)")
    case True
    with laws show ?thesis by (auto simp: owned_def pass_good_def)
  next
    case False
    then have "pending g (Routing a b p) = pass_pairs p" by (cases "(g, Routing a b p)" rule: pending.cases) auto
    with False laws assms(1) show ?thesis by (auto simp: owned_def pass_good_def managed_def eni_of_def)
  qed
qed

lemma start_step_owned:
  assumes laws: "gateway_laws now tv canon g" and step: "start_step now u g (ph, s) = (ph', s')"
    and owned: "owned tv g ph (world s)"
  shows "owned tv g ph' (world s')"
proof (cases "may_write ph")
  case False
  with start_step_no_write [OF laws step] have tv: "tv (world s') = tv (world s)" by blast
  have "managed g - pending g ph' \<subseteq> managed g - pending g ph"
    using step False
    by (cases "(now, u, g, ph, s)" rule: start_step.cases)
      (auto simp: Let_def simp del: upsert_step.simps split: prod.splits)
  with owned tv show ?thesis by (auto simp: owned_def)
next
  case True
  show ?thesis
  proof (cases "gs_routeTableManager g")
    case None
    then have "managed g = {}" by (simp add: managed_def)
    then show ?thesis by (simp add: owned_def)
  next
    case (Some m)
    consider "ph = Begun" | a b p where "ph = Routing a b p" "\<nexists>r. p = Ended r"
      using True by (cases ph) force+
    then show ?thesis
    proof cases
      case 1
      then have "\<exists>a b. ph' = Routing a b (pass_init m (gs_podCIDRs g))"
        using step Some by (auto simp: Let_def split: prod.splits)
      with Some show ?thesis by (auto simp: owned_def managed_def pass_init_def)
    next
      case (2 a b p)
      obtain p' w' where st: "pass_step m (p, world s) = (p', w')" by fastforce
      with 2 step Some have "ph' = Routing a b p'" "world s' = w'" by (cases p; auto)+
      moreover have "pass_good m (gs_podCIDRs g) tv canon (p', w')"
        using open_pass.sys_good [of m "gs_podCIDRs g" tv canon "(p, world s)" "(p', w')"] owned owned_pass [OF Some laws] 2 st
        by simp
      ultimately show ?thesis using owned_pass [OF Some laws] by simp
    qed
  qed
qed

subsection \<open>A Start that is on its way\<close>

text \<open>What a pass needs to go on without an error: the kind of write it has decided on still fits.\<close>

fun pass_track :: "('w \<Rightarrow> string \<rightharpoonup> ec2_route list) \<Rightarrow> (string \<times> string) set \<Rightarrow> pass \<times> 'w \<Rightarrow> bool" where
  "pass_track tv ps0 (Todo ps, w) \<longleftrightarrow> set ps \<subseteq> ps0"
| "pass_track tv ps0 (Writing exists i c ps, w) \<longleftrightarrow>
     insert (i, c) (set ps) \<subseteq> ps0 \<and> (exists \<longleftrightarrow> route_of (tv w) i c \<noteq> None)"
| "pass_track tv ps0 (Ended r, w) \<longleftrightarrow> r = None"

lemma pass_step_dom:
  assumes "ec2_laws (ec2Client m) tv canon" and "pass_step m (p, w) = (p', w')"
  shows "dom (tv w') = dom (tv w)"
  using pass_step_effect [OF assms] by (auto simp: routes_set_def dom_def split: if_splits)

lemma pass_step_track:
  assumes g: "gs_routeTableManager g = Some m" and ready: "routes_ready tv canon g w"
    and track: "pass_track tv (managed g) (p, w)" and step: "pass_step m (p, w) = (p', w')"
  shows "pass_track tv (managed g) (p', w')"
proof -
  have laws: "ec2_laws (ec2Client m) tv canon" and fresh: "fresh_reads (ec2Client m) tv"
    and up: "describe_up (ec2Client m)" "writes_up (ec2Client m) tv canon"
    and dom: "set (routeTableIDs m) \<subseteq> dom (tv w)" and canon: "\<forall>c \<in> set (gs_podCIDRs g). canon c = c"
    using g ready by (auto simp: routes_ready_def)
  have d: "reads_frame (ec2Client m) tv" using laws by (simp add: ec2_laws_def)
  show ?thesis
  proof (cases p)
    case (Todo ps)
    show ?thesis
    proof (cases ps)
      case Nil
      with Todo step show ?thesis by auto
    next
      case (Cons x qs)
      obtain i c where x: "x = (i, c)" by (cases x)
      with track Todo Cons g have "(i, c) \<in> managed g" by simp
      with g dom obtain rs where rs: "tv w i = Some rs" by (auto simp: managed_def)
      from getRoute_up [OF d fresh up(1) rs, of c] obtain w1 where
        "getRoute m i c w = (Inr (find_route rs c), w1)" "tv w1 = tv w" .
      with step track rs show ?thesis
        by (auto simp: Todo Cons x route_of_def split: option.splits if_splits)
    qed
  next
    case (Writing ex i c ps)
    with track have ic: "(i, c) \<in> managed g" and ex: "ex \<longleftrightarrow> route_of (tv w) i c \<noteq> None" by auto
    with g dom obtain rs where rs: "tv w i = Some rs" by (auto simp: managed_def)
    from ic g canon have c: "canon c = c" by (auto simp: managed_def)
    have "fst (if ex then replaceRoute m i c w else createRoute m i c w) = None"
      using up(2) [unfolded writes_up_def, rule_format, of w "route_input m i c" rs] rs c ex
      by (auto simp: route_of_def replaceRoute_def createRoute_def split: prod.splits option.splits if_splits)
    with step track show ?thesis by (auto simp: Writing split: prod.splits option.splits)
  next
    case (Ended r)
    with track step show ?thesis by auto
  qed
qed

fun phase_track ::
  "unstruct \<Rightarrow> ('w \<Rightarrow> string \<rightharpoonup> ec2_route list) \<Rightarrow> ('w \<Rightarrow> obj option) \<Rightarrow> 'w GatewaySetup \<Rightarrow> phase \<times> 'w \<Rightarrow> bool" where
  "phase_track u tv store g (Begun, w) = True"
| "phase_track u tv store g (Routing _ _ p, w) \<longleftrightarrow> gs_routeTableManager g \<noteq> None \<and> pass_track tv (managed g) (p, w)"
| "phase_track u tv store g (Publishing _ p, w) = upsert_track u store g (p, w)"
| "phase_track u tv store g (Blocked, w) = config_published store g w"
| "phase_track u tv store g (_, w) = False"

lemma publish_phase_track: "phase_track u tv store g (publish_phase g t, w)"
  by (simp add: publish_phase_def config_published_def)

text \<open>Changes elsewhere that leave the managed routes and the object alone do not disturb it.\<close>

definition same_view ::
  "('w \<Rightarrow> string \<rightharpoonup> ec2_route list) \<Rightarrow> ('w \<Rightarrow> obj option) \<Rightarrow> 'w GatewaySetup \<Rightarrow> 'w \<Rightarrow> 'w \<Rightarrow> bool" where
  "same_view tv store g w w' \<longleftrightarrow>
     (\<forall>(i, c) \<in> managed g. route_of (tv w') i c = route_of (tv w) i c) \<and> dom (tv w) \<subseteq> dom (tv w') \<and> store w' = store w"

lemma same_view_track:
  assumes "same_view tv store g w w'" and "phase_track u tv store g (ph, w)"
  shows "phase_track u tv store g (ph, w')"
proof -
  have st: "store w' = store w" and r: "\<forall>(i, c) \<in> managed g. route_of (tv w') i c = route_of (tv w) i c"
    using assms(1) by (auto simp: same_view_def)
  have "pass_track tv (managed g) (p, w')" if "pass_track tv (managed g) (p, w)" for p
    using that r by (cases p) auto
  moreover have "upsert_track u store g (p, w')" if "upsert_track u store g (p, w)" for p
    using st that by (rule upsert_track_store)
  ultimately show ?thesis using assms(2) by (cases ph) (auto simp: config_published_def st)
qed

lemma same_view_ready: "same_view tv store g w w' \<Longrightarrow> routes_ready tv canon g w \<Longrightarrow> routes_ready tv canon g w'"
  by (simp add: same_view_def routes_ready_def split: option.splits) blast

lemma same_view_owned: "same_view tv store g w w' \<Longrightarrow> owned tv g ph w \<Longrightarrow> owned tv g ph w'"
  by (erule owned_mono) (auto simp: same_view_def points_to_def)

lemma start_step_track:
  assumes ready: "routes_ready tv canon g (world s)" and cready: "config_ready u tv store g w0"
    and clock: "clock_keeps now tv" "clock_keeps now store"
    and track: "phase_track u tv store g (ph, world s)" and step: "start_step now u g (ph, s) = (ph', s')"
  shows "phase_track u tv store g (ph', world s')" and "routes_ready tv canon g (world s')"
proof -
  have nt: "tv w' = tv w \<and> store w' = store w" if "now w = (t, w')" for w t w'
    using clock that by (metis clock_keeps_def snd_conv)
  have rr: "routes_ready tv canon g w' = routes_ready tv canon g w" if "dom (tv w') = dom (tv w)" for w w'
    using that by (simp add: routes_ready_def split: option.splits)
  have k: "k8s_keeps (gs_k8sClient g) tv" using cready by (simp add: config_ready_def)
  have "phase_track u tv store g (ph', world s') \<and> dom (tv (world s')) = dom (tv (world s))"
  proof (cases "\<exists>a b p. ph = Routing a b p \<and> pass_fuel p > 0")
    case True
    then obtain a b p m where ph: "ph = Routing a b p" "pass_fuel p > 0" "gs_routeTableManager g = Some m" using track by auto
    obtain p' w' where st: "pass_step m (p, world s) = (p', w')" by fastforce
    with ph step have ph': "ph' = Routing a b p'" "world s' = w'" by (cases p; auto)+
    have "ec2_laws (ec2Client m) tv canon" using ready ph(3) by (simp add: routes_ready_def)
    with pass_step_track [OF ph(3) ready _ st] pass_step_dom [OF _ st] track ph ph' show ?thesis by auto
  next
    case False
    show ?thesis
    proof (cases "\<exists>a p. ph = Publishing a p \<and> upsert_fuel p > 0")
      case True
      then obtain a p where ph: "ph = Publishing a p" "upsert_fuel p > 0" by blast
      obtain p' w' where st: "upsert_step u (gs_k8sClient g) (gs_vxlanIface g) (gs_nodeIP g) (gs_vpcCIDRs g) (p, world s) = (p', w')"
        by fastforce
      with ph step have ph': "ph' = Publishing a p'" "world s' = w'" by (cases p; auto simp del: upsert_step.simps)+
      with upsert_step_track [OF cready _ st] upsert_step_keeps [OF k st] track ph show ?thesis by simp
    next
      case rest: False
      have pi: "pass_track tv (managed g) (pass_init m (gs_podCIDRs g), w)" if "gs_routeTableManager g = Some m" for m w
        using that by (auto simp: pass_init_def managed_def)
      show ?thesis
        using step False rest track pi
        by (cases "(now, u, g, ph, s)" rule: start_step.cases)
          (auto simp: Let_def call_def publish_phase_track config_published_def dest!: nt split: prod.splits option.splits)
    qed
  qed
  with rr ready show "phase_track u tv store g (ph', world s')" and "routes_ready tv canon g (world s')" by blast+
qed

end
