(* ===== verification/Gateway_Cluster.thy ===== *)
theory Gateway_Cluster
  imports Leader_Steps
begin

text \<open>
  Several gateway processes that share the VPC and the Kubernetes API.  Each runs \<open>Start\<close> and the reconciler of the
  CiliumVTEPConfig in steps of one outside call (\<open>start_step\<close>, \<open>upsert_step\<close>), interleaved with the steps of all others and with changes by
  third parties.  The lease is held by at most one gateway, but losing it does not stop a gateway at once: until its
  context is done or its process ends it goes on, and so do its calls.  Metrics belong to a process and start
  afresh with it.  The node reconcilers, which work on a gateway's own kernel, are not part of this view.
\<close>

record 'w cluster =
  cl_lease :: "nat option"
  cl_phase :: "nat \<Rightarrow> phase"
  cl_upsert :: "nat \<Rightarrow> upserting"
  cl_metrics :: "nat \<Rightarrow> metrics"
  cl_world :: 'w

definition cl_sys :: "'w cluster \<Rightarrow> nat \<Rightarrow> 'w sys" where
  "cl_sys c i = \<lparr>sys_metrics = cl_metrics c i, world = cl_world c\<rparr>"

definition cl_put :: "nat \<Rightarrow> phase \<Rightarrow> 'w sys \<Rightarrow> 'w cluster \<Rightarrow> 'w cluster" where
  "cl_put i p s c =
     c\<lparr>cl_phase := (cl_phase c)(i := p), cl_metrics := (cl_metrics c)(i := sys_metrics s), cl_world := world s\<rparr>"

definition cl_init :: "'w \<Rightarrow> 'w cluster" where
  "cl_init w = \<lparr>cl_lease = None, cl_phase = (\<lambda>_. Idle), cl_upsert = (\<lambda>_. Upserted None),
     cl_metrics = (\<lambda>_. metrics_init), cl_world = w\<rparr>"

lemma cl_simps [simp]:
  "world (cl_sys c i) = cl_world c" "sys_metrics (cl_sys c i) = cl_metrics c i"
  "cl_lease (cl_put i p s c) = cl_lease c" "cl_phase (cl_put i p s c) = (cl_phase c)(i := p)"
  "cl_upsert (cl_put i p s c) = cl_upsert c" "cl_metrics (cl_put i p s c) = (cl_metrics c)(i := sys_metrics s)"
  "cl_world (cl_put i p s c) = world s"
  by (simp_all add: cl_sys_def cl_put_def)

text \<open>
  \<open>Acquire\<close>: a gateway wins the free lease.  \<open>Lose\<close>: the lease expires or is given up.  \<open>Run\<close>: a gateway's \<open>Start\<close> takes a step.
  \<open>Finish\<close>: the context of a waiting \<open>Start\<close> is done.  \<open>Restart\<close>: a process ends, at any point, and a new one takes its place.
  \<open>Request\<close>: the reconciler of a process that has won the lease takes up a request.  \<open>Reconcile\<close>: it takes a step.
  \<open>Outside\<close>: somebody else changes the world, as far as \<open>rely\<close> allows.
\<close>

datatype event =
    Acquire nat
  | Lose
  | Run nat
  | Finish nat
  | Restart nat
  | Request nat string
  | Reconcile nat
  | Outside

inductive cluster_step ::
  "('w \<Rightarrow> duration \<times> 'w) \<Rightarrow> unstruct \<Rightarrow> (nat \<Rightarrow> 'w GatewaySetup) \<Rightarrow> ('w \<Rightarrow> 'w \<Rightarrow> bool) \<Rightarrow>
     'w cluster \<Rightarrow> event \<Rightarrow> 'w cluster \<Rightarrow> bool"
  for now u gws rely where
  acquired: "cl_lease c = None \<Longrightarrow> cl_phase c i = Idle \<Longrightarrow>
    cluster_step now u gws rely c (Acquire i) (c\<lparr>cl_lease := Some i, cl_phase := (cl_phase c)(i := Begun)\<rparr>)"
| lost: "cluster_step now u gws rely c Lose (c\<lparr>cl_lease := None\<rparr>)"
| ran: "start_step now u (gws i) (cl_phase c i, cl_sys c i) = (p, s) \<Longrightarrow>
    cluster_step now u gws rely c (Run i) (cl_put i p s c)"
| finished: "cl_phase c i = Blocked \<Longrightarrow> Start_done (cl_sys c i) = (out, s) \<Longrightarrow>
    cluster_step now u gws rely c (Finish i) (cl_put i (phase_of out) s c)"
| restarted: "cluster_step now u gws rely c (Restart i)
    (c\<lparr>cl_phase := (cl_phase c)(i := Idle), cl_upsert := (cl_upsert c)(i := Upserted None),
       cl_metrics := (cl_metrics c)(i := metrics_init)\<rparr>)"
| requested: "cl_phase c i \<noteq> Idle \<Longrightarrow> cl_upsert c i = Upserted r \<Longrightarrow>
    cluster_step now u gws rely c (Request i req)
      (if req \<noteq> CiliumVTEPConfigName then c else c\<lparr>cl_upsert := (cl_upsert c)(i := Reading)\<rparr>)"
| reconciled: "upsert_step u (gs_k8sClient (gws i)) (gs_vxlanIface (gws i)) (gs_nodeIP (gws i)) (gs_vpcCIDRs (gws i))
      (cl_upsert c i, cl_world c) = (p, w') \<Longrightarrow>
    cluster_step now u gws rely c (Reconcile i) (c\<lparr>cl_upsert := (cl_upsert c)(i := p), cl_world := w'\<rparr>)"
| outside: "rely (cl_world c) w' \<Longrightarrow> cluster_step now u gws rely c Outside (c\<lparr>cl_world := w'\<rparr>)"

inductive_cases acquireE: "cluster_step now u gws rely c (Acquire i) c'"
inductive_cases runE: "cluster_step now u gws rely c (Run i) c'"
inductive_cases requestE: "cluster_step now u gws rely c (Request i req) c'"
inductive_cases reconcileE: "cluster_step now u gws rely c (Reconcile i) c'"

text \<open>A request taken up and two steps are what \<open>VTEPConfigReconcile\<close> does.\<close>

definition reconciler_of :: "'w GatewaySetup \<Rightarrow> VTEPConfigReconciler" where
  "reconciler_of g = \<lparr>VxlanIface = gs_vxlanIface g, NodeIP = gs_nodeIP g, VpcCIDRs = gs_vpcCIDRs g\<rparr>"

lemma reconcile_steps:
  assumes "VTEPConfigReconcile u (gs_k8sClient (gws i)) (reconciler_of (gws i)) req (cl_world c) = (r, w')"
    and "cl_phase c i \<noteq> Idle" and "cl_upsert c i = Upserted None"
  shows "trace (cluster_step now u gws rely) c [Request i req, Reconcile i, Reconcile i]
    (c\<lparr>cl_upsert := (cl_upsert c)(i := Upserted r), cl_world := w'\<rparr>)"
proof (cases "req = CiliumVTEPConfigName")
  case False
  with assms(1) have r: "r = None" "w' = cl_world c" by (simp_all add: VTEPConfigReconcile_def)
  have "(cl_upsert c)(i := Upserted None) = cl_upsert c" using assms(3) by auto
  then have same: "c\<lparr>cl_upsert := (cl_upsert c)(i := Upserted None), cl_world := cl_world c\<rparr> = c" by simp
  have "cluster_step now u gws rely c (Request i req) c" using requested [OF assms(2,3), of now u gws rely req] False by simp
  moreover have "cluster_step now u gws rely c (Reconcile i) c"
    using reconciled [of u gws i c "Upserted None" "cl_world c" now rely] assms(3) same by simp
  ultimately show ?thesis using same r by auto
next
  case True
  let ?f = "upsert_step u (gs_k8sClient (gws i)) (gs_vxlanIface (gws i)) (gs_nodeIP (gws i)) (gs_vpcCIDRs (gws i))"
  let ?c1 = "c\<lparr>cl_upsert := (cl_upsert c)(i := Reading)\<rparr>"
  obtain p1 w1 where 1: "?f (Reading, cl_world c) = (p1, w1)" by fastforce
  have 2: "?f (p1, w1) = (Upserted r, w')"
    using assms(1) True upsert_steps [of u "gs_k8sClient (gws i)" "gs_vxlanIface (gws i)" "gs_nodeIP (gws i)" "gs_vpcCIDRs (gws i)" "cl_world c"] 1
    by (auto simp: VTEPConfigReconcile_def reconciler_of_def numeral_2_eq_2 split: prod.splits option.splits simp del: upsert_step.simps)
  let ?c2 = "?c1\<lparr>cl_upsert := (cl_upsert ?c1)(i := p1), cl_world := w1\<rparr>"
  have "cluster_step now u gws rely c (Request i req) ?c1" using requested [OF assms(2,3), of now u gws rely req] True by simp
  moreover have "cluster_step now u gws rely ?c1 (Reconcile i) ?c2" by (rule reconciled) (simp add: 1 del: upsert_step.simps)
  moreover have "cluster_step now u gws rely ?c2 (Reconcile i) (?c2\<lparr>cl_upsert := (cl_upsert ?c2)(i := Upserted r), cl_world := w'\<rparr>)"
    by (rule reconciled) (simp add: 2 del: upsert_step.simps)
  ultimately show ?thesis by (auto simp del: upsert_step.simps)
qed

subsection \<open>The leader gauge\<close>

definition gauge_inv :: "'w cluster \<Rightarrow> bool" where
  "gauge_inv c \<longleftrightarrow> (\<forall>j. LeaderIsActive (cl_metrics c j) = (if active (cl_phase c j) then 1 else 0))"

interpretation gauge: labelled_system "cluster_step now u gws rely" "\<lambda>_. True" gauge_inv
  for now :: "'w \<Rightarrow> duration \<times> 'w" and u gws rely
proof
  fix c c' :: "'w cluster" and e
  assume inv: "gauge_inv c" and "cluster_step now u gws rely c e c'"
  from this(2) show "gauge_inv c'"
  proof cases
    case (ran i p s)
    with inv start_step_gauge [OF ran(3)] show ?thesis by (simp add: gauge_inv_def)
  next
    case (finished i out s)
    then have "LeaderIsActive (sys_metrics s) = 0" "out = Returned None" by (auto simp: Start_done_def leave_def)
    with inv finished show ?thesis by (simp add: gauge_inv_def)
  qed (use inv in \<open>auto simp: gauge_inv_def metrics_init_def split: if_splits\<close>)
qed

lemma gauge_init: "gauge_inv (cl_init w)"
  by (simp add: gauge_inv_def cl_init_def metrics_init_def)

subsection \<open>The routes of a leader\<close>

definition keeps_routes :: "('w \<Rightarrow> string \<rightharpoonup> ec2_route list) \<Rightarrow> 'w GatewaySetup \<Rightarrow> 'w \<Rightarrow> 'w \<Rightarrow> bool" where
  "keeps_routes tv g w w' \<longleftrightarrow>
     (\<forall>(t, c) \<in> managed g. points_to (tv w) t c (eni_of g) \<longrightarrow> points_to (tv w') t c (eni_of g))"

definition owner_inv ::
  "('w \<Rightarrow> duration \<times> 'w) \<Rightarrow> (nat \<Rightarrow> 'w GatewaySetup) \<Rightarrow> ('w \<Rightarrow> string \<rightharpoonup> ec2_route list) \<Rightarrow> (string \<Rightarrow> string) \<Rightarrow> nat \<Rightarrow>
     'w cluster \<Rightarrow> bool" where
  "owner_inv now gws tv canon i c \<longleftrightarrow>
     (\<forall>j. gateway_laws now tv canon (gws j)) \<and> (\<forall>j. j \<noteq> i \<longrightarrow> \<not> may_write (cl_phase c j))
     \<and> owned tv (gws i) (cl_phase c i) (cl_world c)"

lemma owned_all: "managed g \<subseteq> pending g ph \<Longrightarrow> owned tv g ph w"
  by (auto simp: owned_def)

interpretation owner: labelled_system "cluster_step now u gws (keeps_routes tv (gws i))" "\<lambda>e. \<forall>j. j \<noteq> i \<longrightarrow> e \<noteq> Acquire j"
    "owner_inv now gws tv canon i"
  for now :: "'w \<Rightarrow> duration \<times> 'w" and u gws tv i canon
proof
  fix c c' :: "'w cluster" and e
  assume inv: "owner_inv now gws tv canon i c" and e: "\<forall>j. j \<noteq> i \<longrightarrow> e \<noteq> Acquire j"
    and step: "cluster_step now u gws (keeps_routes tv (gws i)) c e c'"
  have laws: "\<And>j. gateway_laws now tv canon (gws j)" and others: "\<And>j. j \<noteq> i \<Longrightarrow> \<not> may_write (cl_phase c j)"
    and own: "owned tv (gws i) (cl_phase c i) (cl_world c)" using inv by (auto simp: owner_inv_def)
  have same: "owned tv (gws i) ph w'" if "owned tv (gws i) ph w" "tv w' = tv w" for ph w w'
    using that by (simp add: owned_def)
  from step show "owner_inv now gws tv canon i c'"
  proof cases
    case (acquired j)
    with e have "j = i" by blast
    with acquired laws others show ?thesis by (auto simp: owner_inv_def intro: owned_all)
  next
    case (ran j p s)
    show ?thesis
    proof (cases "j = i")
      case True
      with ran laws others own start_step_owned [OF laws ran(3)] show ?thesis by (simp add: owner_inv_def)
    next
      case False
      with start_step_no_write [OF laws ran(3) others] have "tv (world s) = tv (cl_world c)" "\<not> may_write p" by simp_all
      with False ran laws others own same show ?thesis by (auto simp: owner_inv_def)
    qed
  next
    case (finished j out s)
    then have "out = Returned None" "world s = cl_world c" by (auto simp: Start_done_def leave_def)
    with finished laws others own show ?thesis by (auto simp: owner_inv_def intro: owned_all)
  next
    case (reconciled j p w')
    have "k8s_keeps (gs_k8sClient (gws j)) tv" using laws [of j] by (simp add: gateway_laws_def)
    from upsert_step_keeps [OF this reconciled(3)] laws others own same reconciled show ?thesis by (auto simp: owner_inv_def)
  next
    case (outside w')
    with own have "owned tv (gws i) (cl_phase c i) w'" by (elim owned_mono) (auto simp: keeps_routes_def)
    with laws others outside show ?thesis by (auto simp: owner_inv_def)
  qed (use laws others own in \<open>auto simp: owner_inv_def intro: owned_all split: if_splits\<close>)
qed

text \<open>
  The condition that no other gateway is in the middle of its pass cannot be dropped: a gateway that has lost the lease
  and still has a write to make takes the route from the leader, whose gauge and phase do not change.
\<close>

lemma late_write_step:
  assumes laws: "ec2_laws (ec2Client m) tv canon" and m: "gs_routeTableManager (gws j) = Some m" and ij: "i \<noteq> j"
    and ph: "cl_phase c j = Routing a b (Writing ex t d ps)" and d: "canon d = d"
    and late: "pass_step m (Writing ex t d ps, cl_world c) = (Todo ps, w')"
  shows "\<exists>c'. cluster_step now u gws rely c (Run j) c' \<and> points_to (tv (cl_world c')) t d (primaryENI m)
    \<and> cl_lease c' = cl_lease c \<and> cl_phase c' i = cl_phase c i \<and> cl_metrics c' i = cl_metrics c i"
proof -
  let ?s = "(cl_sys c j)\<lparr>world := w'\<rparr>"
  have "start_step now u (gws j) (cl_phase c j, cl_sys c j) = (Routing a b (Todo ps), ?s)" using ph m late by simp
  then have "cluster_step now u gws rely c (Run j) (cl_put j (Routing a b (Todo ps)) ?s c)" by (rule cluster_step.ran)
  moreover obtain r w1 where r: "(if ex then replaceRoute m t d (cl_world c) else createRoute m t d (cl_world c)) = (r, w1)"
    by fastforce
  with late have "r = None" "w1 = w'" by (auto split: option.splits)
  with r write_effect [of m tv canon t d "cl_world c" r w'] laws d
  have "routes_set (tv (cl_world c)) (tv w') t d (primaryENI m)" by (auto simp: ec2_laws_def split: if_splits)
  then have "points_to (tv w') t d (primaryENI m)" by (rule routes_set_points)
  ultimately show ?thesis using ij by (intro exI [of _ "cl_put j (Routing a b (Todo ps)) ?s c"]) simp
qed

subsection \<open>A take-over that nobody disturbs\<close>

text \<open>A gateway at rest makes no calls: it has no \<open>Start\<close> to run on with and no request in hand.\<close>

fun resting :: "phase \<Rightarrow> bool" where
  "resting Idle = True"
| "resting Blocked = True"
| "resting (Stopped _) = True"
| "resting _ = False"

lemma resting_step: "resting ph \<Longrightarrow> start_step now u g (ph, s) = (ph, s)"
  by (cases ph) auto

definition others_rest :: "'w cluster \<Rightarrow> nat \<Rightarrow> bool" where
  "others_rest c i \<longleftrightarrow> (\<forall>j. j \<noteq> i \<longrightarrow> resting (cl_phase c j) \<and> upsert_fuel (cl_upsert c j) = 0)"

text \<open>Events that leave gateway \<open>i\<close> its \<open>Start\<close> and start no other work on the routes and on the object.\<close>

fun undisturbing :: "nat \<Rightarrow> event \<Rightarrow> bool" where
  "undisturbing i (Acquire j) \<longleftrightarrow> j = i"
| "undisturbing i (Finish j) \<longleftrightarrow> j \<noteq> i"
| "undisturbing i (Restart j) \<longleftrightarrow> j \<noteq> i"
| "undisturbing i (Request j req) \<longleftrightarrow> False"
| "undisturbing i e \<longleftrightarrow> True"

lemma others_rest_step:
  assumes rest: "others_rest c i" and e: "undisturbing i e" and step: "cluster_step now u gws rely c e c'"
  shows "others_rest c' i"
  using step
proof cases
  case (ran j p s)
  with rest resting_step [of "cl_phase c j" now u "gws j" "cl_sys c j"] show ?thesis by (auto simp: others_rest_def)
next
  case (finished j out s)
  then have "out = Returned None" by (simp add: Start_done_def)
  with rest finished show ?thesis by (auto simp: others_rest_def)
next
  case (reconciled j p w')
  with upsert_step_fuel [OF reconciled(3)] rest show ?thesis by (auto simp: others_rest_def)
qed (use rest e in \<open>auto simp: others_rest_def\<close>)

text \<open>Steps of the others leave the world alone, and \<open>i\<close>'s own state.\<close>

lemma other_step:
  assumes rest: "others_rest c i" and e: "undisturbing i e" and step: "cluster_step now u gws rely c e c'"
    and idle: "cl_phase c i \<noteq> Idle"
  obtains "e = Run i" | "e = Reconcile i"
    | "rely (cl_world c) (cl_world c') \<or> cl_world c' = cl_world c" and "cl_phase c' i = cl_phase c i" and "cl_upsert c' i = cl_upsert c i"
      and "e \<noteq> Run i" and "e \<noteq> Reconcile i"
  using step
proof cases
  case (ran j p s)
  show thesis
  proof (cases "j = i")
    case False
    with ran rest resting_step [of "cl_phase c j" now u "gws j" "cl_sys c j"] that(3) show thesis by (auto simp: others_rest_def)
  qed (use ran that in blast)
next
  case (finished j out s)
  then have "world s = cl_world c" by (auto simp: Start_done_def leave_def)
  with finished e that(3) show thesis by auto
next
  case (reconciled j p w')
  show thesis
  proof (cases "j = i")
    case False
    with rest obtain r where "cl_upsert c j = Upserted r" by (auto simp: others_rest_def)
    with False reconciled that(3) show thesis by auto
  qed (use reconciled that in blast)
qed (use e idle that(3) in auto)

definition takeover_inv ::
  "('w \<Rightarrow> duration \<times> 'w) \<Rightarrow> unstruct \<Rightarrow> (nat \<Rightarrow> 'w GatewaySetup) \<Rightarrow> ('w \<Rightarrow> string \<rightharpoonup> ec2_route list) \<Rightarrow> (string \<Rightarrow> string) \<Rightarrow>
     ('w \<Rightarrow> obj option) \<Rightarrow> nat \<Rightarrow> 'w cluster \<Rightarrow> bool" where
  "takeover_inv now u gws tv canon store i c \<longleftrightarrow>
     clock_keeps now tv \<and> clock_keeps now store \<and> others_rest c i \<and> upsert_fuel (cl_upsert c i) = 0
     \<and> routes_ready tv canon (gws i) (cl_world c) \<and> config_ready u tv store (gws i) (cl_world c)
     \<and> phase_track u tv store (gws i) (cl_phase c i, cl_world c) \<and> owned tv (gws i) (cl_phase c i) (cl_world c)"

lemma same_view_refl [simp]: "same_view tv store g w w"
  by (simp add: same_view_def)

lemma ready_laws:
  assumes "clock_keeps now tv" and "routes_ready tv canon g w" and "config_ready u tv store g w"
  shows "gateway_laws now tv canon g"
  using assms by (auto simp: gateway_laws_def routes_ready_def config_ready_def)

interpretation takeover: fueled_system "cluster_step now u gws (same_view tv store (gws i))" "undisturbing i"
    "takeover_inv now u gws tv canon store i" "Run i" "\<lambda>c. phase_fuel (gws i) (cl_phase c i)"
  for now :: "'w \<Rightarrow> duration \<times> 'w" and u gws tv canon store i
proof
  fix c c' :: "'w cluster" and e
  assume inv: "takeover_inv now u gws tv canon store i c" and e: "undisturbing i e"
    and step: "cluster_step now u gws (same_view tv store (gws i)) c e c'"
  let ?g = "gws i"
  have clock: "clock_keeps now tv" "clock_keeps now store" and rest: "others_rest c i"
    and up: "upsert_fuel (cl_upsert c i) = 0" and rr: "routes_ready tv canon ?g (cl_world c)"
    and cr: "config_ready u tv store ?g (cl_world c)"
    and track: "phase_track u tv store ?g (cl_phase c i, cl_world c)" and own: "owned tv ?g (cl_phase c i) (cl_world c)"
    using inv by (auto simp: takeover_inv_def)
  have cr': "config_ready u tv store ?g w" for w using cr by (simp add: config_ready_def)
  have idle: "cl_phase c i \<noteq> Idle" using track by auto
  from rest e step idle have "takeover_inv now u gws tv canon store i c'
      \<and> phase_fuel ?g (cl_phase c' i) \<le> phase_fuel ?g (cl_phase c i) - (if e = Run i then 1 else 0)"
  proof (cases rule: other_step)
    case 1
    with step obtain p s where s: "start_step now u ?g (cl_phase c i, cl_sys c i) = (p, s)" "c' = cl_put i p s c"
      by (auto elim: runE)
    with start_step_track [OF _ cr clock _ s(1)] start_step_owned [OF ready_laws [OF clock(1) rr cr] s(1)] start_step_fuel [OF s(1)]
      rr track own clock cr' up others_rest_step [OF rest e step] 1
    show ?thesis by (simp add: takeover_inv_def)
  next
    case 2
    with step up obtain r where "cl_upsert c i = Upserted r" "c' = c\<lparr>cl_upsert := (cl_upsert c)(i := Upserted r), cl_world := cl_world c\<rparr>"
      by (auto elim!: reconcileE)
    with inv others_rest_step [OF rest e step] 2 show ?thesis by (simp add: takeover_inv_def)
  next
    case 3
    then have "same_view tv store ?g (cl_world c) (cl_world c')" by auto
    with 3 same_view_track [OF _ track] same_view_owned [OF _ own] same_view_ready [OF _ rr] clock cr' up others_rest_step [OF rest e step]
    show ?thesis by (simp add: takeover_inv_def)
  qed
  then show "takeover_inv now u gws tv canon store i c'"
    and "phase_fuel ?g (cl_phase c' i) \<le> phase_fuel ?g (cl_phase c i) - (if e = Run i then 1 else 0)" by auto
qed

lemma takeover_done:
  assumes "takeover_inv now u gws tv canon store i c" and "phase_fuel (gws i) (cl_phase c i) = 0"
  shows "cl_phase c i = Blocked \<and> routes_published tv (gws i) (cl_world c) \<and> config_published store (gws i) (cl_world c)"
proof -
  have "phase_track u tv store (gws i) (cl_phase c i, cl_world c)" and own: "owned tv (gws i) (cl_phase c i) (cl_world c)"
    using assms(1) by (auto simp: takeover_inv_def)
  with assms(2) have "cl_phase c i = Blocked" "config_published store (gws i) (cl_world c)"
    by (cases "cl_phase c i"; auto simp: start_bound_def split: option.splits)+
  with own owned_published [of "gws i" Blocked tv "cl_world c"] show ?thesis by simp
qed

subsection \<open>A reconciliation that nobody disturbs\<close>

definition heal_inv ::
  "unstruct \<Rightarrow> (nat \<Rightarrow> 'w GatewaySetup) \<Rightarrow> ('w \<Rightarrow> string \<rightharpoonup> ec2_route list) \<Rightarrow> ('w \<Rightarrow> obj option) \<Rightarrow> nat \<Rightarrow> 'w \<Rightarrow> 'w cluster \<Rightarrow> bool" where
  "heal_inv u gws tv store i w0 c \<longleftrightarrow>
     others_rest c i \<and> cl_phase c i = Blocked \<and> config_ready u tv store (gws i) (cl_world c)
     \<and> upsert_track u store (gws i) (cl_upsert c i, cl_world c)
     \<and> (\<forall>(t, d) \<in> managed (gws i). route_of (tv (cl_world c)) t d = route_of (tv w0) t d)"

interpretation heal: fueled_system "cluster_step now u gws (same_view tv store (gws i))" "undisturbing i"
    "heal_inv u gws tv store i w0" "Reconcile i" "\<lambda>c. upsert_fuel (cl_upsert c i)"
  for now :: "'w \<Rightarrow> duration \<times> 'w" and u gws tv store i w0
proof
  fix c c' :: "'w cluster" and e
  assume inv: "heal_inv u gws tv store i w0 c" and e: "undisturbing i e"
    and step: "cluster_step now u gws (same_view tv store (gws i)) c e c'"
  let ?g = "gws i"
  have rest: "others_rest c i" and ph: "cl_phase c i = Blocked" and cr: "config_ready u tv store ?g (cl_world c)"
    and track: "upsert_track u store ?g (cl_upsert c i, cl_world c)"
    and routes: "\<forall>(t, d) \<in> managed ?g. route_of (tv (cl_world c)) t d = route_of (tv w0) t d"
    using inv by (auto simp: heal_inv_def)
  have cr': "config_ready u tv store ?g w" for w using cr by (simp add: config_ready_def)
  have k: "k8s_keeps (gs_k8sClient ?g) tv" using cr by (simp add: config_ready_def)
  from ph have idle: "cl_phase c i \<noteq> Idle" by simp
  from rest e step idle have "heal_inv u gws tv store i w0 c'
      \<and> upsert_fuel (cl_upsert c' i) \<le> upsert_fuel (cl_upsert c i) - (if e = Reconcile i then 1 else 0)"
  proof (cases rule: other_step)
    case 1
    with step ph have "c' = cl_put i Blocked (cl_sys c i) c" by (auto elim!: runE)
    with inv others_rest_step [OF rest e step] 1 show ?thesis by (simp add: heal_inv_def)
  next
    case 2
    with step obtain p w' where s: "upsert_step u (gs_k8sClient ?g) (gs_vxlanIface ?g) (gs_nodeIP ?g) (gs_vpcCIDRs ?g)
        (cl_upsert c i, cl_world c) = (p, w')" "c' = c\<lparr>cl_upsert := (cl_upsert c)(i := p), cl_world := w'\<rparr>"
      by (auto elim: reconcileE)
    with upsert_step_track [OF cr track s(1)] upsert_step_keeps [OF k s(1)] upsert_step_fuel [OF s(1)] inv cr'
      others_rest_step [OF rest e step] 2
    show ?thesis by (simp add: heal_inv_def)
  next
    case 3
    then have v: "same_view tv store ?g (cl_world c) (cl_world c')" by auto
    then have "store (cl_world c') = store (cl_world c)" by (simp add: same_view_def)
    from upsert_track_store [OF this track] have "upsert_track u store ?g (cl_upsert c i, cl_world c')" .
    moreover have "\<forall>(t, d) \<in> managed ?g. route_of (tv (cl_world c')) t d = route_of (tv w0) t d"
      using v routes unfolding same_view_def by fastforce
    ultimately show ?thesis using 3 cr' ph others_rest_step [OF rest e step] by (simp add: heal_inv_def)
  qed
  then show "heal_inv u gws tv store i w0 c'"
    and "upsert_fuel (cl_upsert c' i) \<le> upsert_fuel (cl_upsert c i) - (if e = Reconcile i then 1 else 0)" by auto
qed

subsection \<open>A conflict within one gateway\<close>

text \<open>
  The condition that no reconciliation is under way cannot be dropped either.  A gateway that wins the lease starts its
  reconciler along with \<open>Start\<close>; when the reconciler writes the object between the read and the update of \<open>Start\<close>, the update is
  refused and \<open>Start\<close> returns the conflict, which ends the manager, although the object is as \<open>Start\<close> wants it.
\<close>

lemma own_reconciler_conflict:
  assumes api: "api_laws u (gs_k8sClient (gws i)) store" and ph: "cl_phase c i = Publishing t (Updating ob)"
    and cur: "store (cl_world c) = Some cur" "GetResourceVersion u cur \<noteq> GetResourceVersion u ob"
    and run: "trace (cluster_step now u gws rely) c [Run i, Run i] c'"
  shows "(\<exists>e. cl_phase c' i = Stopped (Some (UpsertFailed (UpdatingError e)))) \<and> store (cl_world c') = Some cur"
proof -
  obtain r w1 where up: "Update (gs_k8sClient (gws i)) ob (cl_world c) = (r, w1)" by fastforce
  with api_updateD [OF api up] cur obtain e where "r = Some e" "store w1 = Some cur" by auto
  with up ph run show ?thesis by (auto simp: leave_def elim!: runE)
qed

end
