(* ===== verification/Go_Cidr.thy ===== *)
theory Go_Cidr
  imports Go_Net
begin

unbundle bit_operations_syntax

text \<open>
  Address blocks as values: what a block that \<open>ParseCIDR\<close> returns looks like (\<open>net_ok\<close>), which addresses it covers, and
  the length of its prefix.  Two well-formed blocks of one address family that cover a common address and
  have the same prefix length are equal, so a longest-prefix match is unique.
\<close>

definition is_mask :: "IPMask \<Rightarrow> bool" where
  "is_mask m \<longleftrightarrow> (\<exists>k \<le> 8 * length m. m = CIDRMask k (8 * length m))"

definition net_ok :: "IPNet \<Rightarrow> bool" where
  "net_ok n \<longleftrightarrow>
     (length (net_Mask n) = 4 \<or> length (net_Mask n) = 16) \<and> length (net_IP n) = length (net_Mask n)
     \<and> is_mask (net_Mask n) \<and> IP_Mask (net_IP n) (net_Mask n) = net_IP n"

definition covers :: "IPNet \<Rightarrow> IP \<Rightarrow> bool" where
  "covers n a \<longleftrightarrow> IP_Mask a (net_Mask n) = net_IP n"

definition byte_ones :: "u8 \<Rightarrow> nat" where
  "byte_ones b = length (filter (bit b) [0, 1, 2, 3, 4, 5, 6, 7])"

definition prefix_len :: "IPNet \<Rightarrow> nat" where
  "prefix_len n = sum_list (map byte_ones (net_Mask n))"

subsection \<open>Masks\<close>

lemma length_CIDRMask_loop [simp]: "length (CIDRMask_loop n l) = l"
  by (induction n l rule: CIDRMask_loop.induct) auto

lemma length_CIDRMask [simp]: "length (CIDRMask n b) = b div 8"
  by (simp add: CIDRMask_def)

lemma byte_ones_table: "list_all (\<lambda>n. byte_ones (NOT (drop_bit n 0xFF)) = n) [0, 1, 2, 3, 4, 5, 6, 7]"
  by code_simp

lemma byte_ones_top: "n < 8 \<Longrightarrow> byte_ones (NOT (drop_bit n 0xFF)) = n"
proof -
  assume "n < 8"
  then have "n \<in> set [0, 1, 2, 3, 4, 5, 6, 7]" by auto
  with byte_ones_table show ?thesis unfolding list_all_iff by blast
qed

lemma byte_ones_full: "byte_ones 0xFF = 8"
  by (simp add: byte_ones_def)

lemma ones_CIDRMask_loop: "n \<le> 8 * l \<Longrightarrow> sum_list (map byte_ones (CIDRMask_loop n l)) = n"
  by (induction n l rule: CIDRMask_loop.induct) (auto simp: byte_ones_top byte_ones_full)

lemma map2_and_idem: "map2 (AND) (map2 (AND) x m) m = map2 (AND) x (m :: u8 list)"
  by (induction x m rule: list_induct2') (auto simp: and.assoc)

subsection \<open>Blocks that \<open>ParseCIDR\<close> returns\<close>

lemma ParseAddr_bytes: "ParseAddr s = Some (Addr4 bs) \<Longrightarrow> length bs = 4" "ParseAddr s = Some (Addr6 bs z) \<Longrightarrow> length bs = 16"
  using ParseAddr_length [of s "Addr4 bs"] ParseAddr_length [of s "Addr6 bs z"] by (simp_all add: v4InV6Prefix_def)

lemma IP_Mask_same: "length a = length m \<Longrightarrow> length m = 4 \<or> length m = 16 \<Longrightarrow> IP_Mask a m = map2 (AND) a m"
  by (auto simp: IP_Mask_def Let_def)

lemma masked_ok:
  assumes "length a = length m" and "length m = 4 \<or> length m = 16" and "is_mask m"
  shows "net_ok \<lparr>net_IP = map2 (AND) a m, net_Mask = m\<rparr>"
  using assms by (auto simp: net_ok_def IP_Mask_same map2_and_idem)

lemma is_mask_CIDRMask: "k \<le> 8 * l \<Longrightarrow> is_mask (CIDRMask k (8 * l))"
  by (auto simp: is_mask_def)

lemma ParseCIDR_ok:
  assumes "ParseCIDR s = Some n"
  shows "net_ok n"
proof -
  from assms obtain str a k where a: "ParseAddr str = Some a" "k \<le> BitLen a"
    "n = \<lparr>net_IP = IP_Mask (As16 a) (CIDRMask k (BitLen a)), net_Mask = CIDRMask k (BitLen a)\<rparr>"
    by (auto simp: ParseCIDR_def Let_def not_less split: if_splits option.splits)
  show ?thesis
  proof (cases a)
    case (Addr4 bs)
    with a have l: "length bs = 4" by (simp add: ParseAddr_bytes)
    then have "IP_Mask (v4InV6Prefix @ bs) (CIDRMask k 32) = map2 (AND) bs (CIDRMask k 32)"
      by (simp add: IP_Mask_def v4InV6Prefix_def)
    with a Addr4 l masked_ok [of bs "CIDRMask k 32"] is_mask_CIDRMask [of k 4] show ?thesis by simp
  next
    case (Addr6 bs z)
    with a have l: "length bs = 16" by (simp add: ParseAddr_bytes)
    with a Addr6 masked_ok [of bs "CIDRMask k 128"] is_mask_CIDRMask [of k 16] show ?thesis by (simp add: IP_Mask_same)
  qed
qed

subsection \<open>The longest match is unique\<close>

lemma net_ok_prefix:
  assumes "net_ok n"
  shows "net_Mask n = CIDRMask (prefix_len n) (8 * length (net_Mask n))" and "prefix_len n \<le> 8 * length (net_Mask n)"
proof -
  from assms obtain k where k: "k \<le> 8 * length (net_Mask n)" "net_Mask n = CIDRMask k (8 * length (net_Mask n))"
    by (auto simp: net_ok_def is_mask_def)
  with ones_CIDRMask_loop [OF k(1)] have "prefix_len n = k" unfolding prefix_len_def CIDRMask_def by simp
  with k show "net_Mask n = CIDRMask (prefix_len n) (8 * length (net_Mask n))" "prefix_len n \<le> 8 * length (net_Mask n)" by simp_all
qed

lemma covers_unique:
  assumes "net_ok n" "net_ok n'" "covers n a" "covers n' a" "prefix_len n = prefix_len n'"
    and "length (net_Mask n) = length (net_Mask n')"
  shows "n = n'"
proof -
  have "net_Mask n = net_Mask n'" using net_ok_prefix(1) [OF assms(1)] net_ok_prefix(1) [OF assms(2)] assms(5,6) by simp
  with assms(3,4) show ?thesis by (simp add: covers_def)
qed

lemma net_ok_covers_self: "net_ok n \<Longrightarrow> covers n (net_IP n)"
  by (simp add: net_ok_def covers_def)

end
