(* ===== verification/Data_Path.thy ===== *)
theory Data_Path
  imports Controllers Leader_Setup Go_Cidr
begin

text \<open>
  The purpose of the gateway, seen from a packet: the VPC sends it to the leader's network interface, and the leader's
  kernel sends it through the tunnel to the node that owns the pod.  Both hops choose the longest matching
  prefix (\<open>kernel_selects\<close>, \<open>vpc_selects\<close>).  The first part shows that one pass over the CiliumNodes connects them all,
  with the loop contract \<open>range_loop\<close> on \<open>NodeReconcile\<close>; the second part adds the routes that \<open>Start\<close> publishes.
\<close>

subsection \<open>The nodes of a cluster\<close>

text \<open>The block and the address of a hybrid node that is not being deleted, when both are usable.\<close>

definition node_view :: "CiliumNode \<Rightarrow> (IPNet \<times> IP) option" where
  "node_view n =
     (if IsHybridNode n \<and> DeletionTimestamp n = None then
        (case (PodCIDRs n, ParseIP (GetNodeInternalIP n)) of
           (c # _, Some ip) \<Rightarrow> if To4 ip = None then None else map_option (\<lambda>net. (net, ip)) (ParseCIDR c)
         | _ \<Rightarrow> None)
      else None)"

text \<open>
  The API server holds the objects \<open>api\<close>, every hybrid node among them usable, and the pod CIDRs of two nodes have
  no address in common.
\<close>

definition api_serves ::
  "(string \<Rightarrow> 'w \<Rightarrow> (k8s_error + CiliumNode) \<times> 'w) \<Rightarrow> (string \<rightharpoonup> CiliumNode) \<Rightarrow> ('w \<Rightarrow> 'k) \<Rightarrow> bool" where
  "api_serves getNode api kv \<longleftrightarrow>
     (\<forall>req w. fst (getNode req w) = (case api req of None \<Rightarrow> Inl NotFound | Some n \<Rightarrow> Inr n)) \<and> reads_only getNode kv"

definition api_nodes_ok :: "(string \<rightharpoonup> CiliumNode) \<Rightarrow> bool" where
  "api_nodes_ok api \<longleftrightarrow>
     (\<forall>req n. api req = Some n \<longrightarrow> IsHybridNode n \<longrightarrow> node_view n \<noteq> None) \<and>
     (\<forall>r1 r2 n1 n2 net1 net2 ip1 ip2 a. api r1 = Some n1 \<longrightarrow> api r2 = Some n2 \<longrightarrow> r1 \<noteq> r2 \<longrightarrow>
        node_view n1 = Some (net1, ip1) \<longrightarrow> node_view n2 = Some (net2, ip2) \<longrightarrow> covers net1 a \<longrightarrow> \<not> covers net2 a)"

lemma api_nodes_usable: "api_nodes_ok api \<Longrightarrow> api req = Some n \<Longrightarrow> IsHybridNode n \<Longrightarrow> node_view n \<noteq> None"
  unfolding api_nodes_ok_def by blast

lemma api_nodes_disjoint:
  "api_nodes_ok api \<Longrightarrow> api r1 = Some n1 \<Longrightarrow> api r2 = Some n2 \<Longrightarrow> node_view n1 = Some (net1, ip1) \<Longrightarrow>
   node_view n2 = Some (net2, ip2) \<Longrightarrow> covers net1 a \<Longrightarrow> covers net2 a \<Longrightarrow> r1 = r2"
  unfolding api_nodes_ok_def by blast

text \<open>The kernel accepts the requests of an addition.\<close>

definition kernel_up :: "'w netlink \<Rightarrow> bool" where
  "kernel_up nl \<longleftrightarrow>
     (\<forall>r w. fst (RouteReplace nl r w) = None) \<and>
     (\<forall>n w. n_Family n \<in> {af_inet, af_bridge} \<longrightarrow> n_HardwareAddr n \<noteq> None \<longrightarrow> To4 (n_IP n) \<noteq> None \<longrightarrow>
        fst (NeighSet nl n w) = None)"

lemma node_view_parts:
  assumes "node_view n = Some (net, ip)"
  obtains c cs where "IsHybridNode n" and "DeletionTimestamp n = None" and "PodCIDRs n = c # cs" and "ParseCIDR c = Some net"
    and "ParseIP (GetNodeInternalIP n) = Some ip" and "To4 ip \<noteq> None" and "GetNodeInternalIP n \<noteq> []"
proof -
  have "ParseIP [] = None" by (simp add: ParseIP_def ParseAddr_def)
  with assms that show thesis
    by (cases "GetNodeInternalIP n") (auto simp: node_view_def split: if_splits list.splits option.splits)
qed

lemma node_view_net_ok: "node_view n = Some (net, ip) \<Longrightarrow> net_ok net"
  by (rule node_view_parts) (auto dest: ParseCIDR_ok)

subsection \<open>One pass over the nodes\<close>

definition sync_inv ::
  "'w netlink \<Rightarrow> (string \<Rightarrow> 'w \<Rightarrow> (k8s_error + CiliumNode) \<times> 'w) \<Rightarrow> ('w \<Rightarrow> kernel) \<Rightarrow> (string \<rightharpoonup> CiliumNode) \<Rightarrow> Link \<Rightarrow>
     'w vtep_state \<Rightarrow> bool" where
  "sync_inv nl getNode kv api link vs \<longleftrightarrow>
     kernel_laws nl kv \<and> kernel_up nl \<and> api_serves getNode api kv \<and> api_nodes_ok api
     \<and> GetLink (iface (fst vs)) = Some link \<and> tables_ok (Index link) (kv (world (snd vs)))"

definition node_connected ::
  "('w \<Rightarrow> kernel) \<Rightarrow> (string \<rightharpoonup> CiliumNode) \<Rightarrow> Link \<Rightarrow> string \<Rightarrow> 'w vtep_state \<Rightarrow> bool" where
  "node_connected kv api link req vs \<longleftrightarrow>
     (\<forall>n net ip. api req = Some n \<longrightarrow> node_view n = Some (net, ip) \<longrightarrow>
        tunnel_endpoint (Index link) (kv (world (snd vs))) net = Some ip)"

lemma AddRemoteNode_up:
  assumes laws: "kernel_laws nl kv" and up: "kernel_up nl"
    and p: "GetLink (iface v) = Some link" "ParseIP x = Some ip" "ParseCIDR c = Some net" "To4 ip \<noteq> None"
  shows "\<exists>v' s'. AddRemoteNode nl c x (v, s) = (None, (v', s')) \<and> iface v' = iface v
           \<and> kv (world s') = program_node (Index link) net ip (kv (world s))"
proof -
  let ?i = "Index link" and ?m = "generateMACFromIP ip"
  obtain w1 where r: "RouteReplace nl (pod_route ?i net ip) (world s) = (None, w1)"
    using up by (metis kernel_up_def prod.collapse)
  obtain w2 where a: "NeighSet nl (arp_entry ?i ip ?m) w1 = (None, w2)"
    using up p(4) by (cases "NeighSet nl (arp_entry ?i ip ?m) w1")
      (auto simp: kernel_up_def vtep_request_defs dest!: spec [of _ "arp_entry ?i ip ?m"] spec [of _ w1])
  obtain w3 where f: "NeighSet nl (fdb_entry ?i ip ?m) w2 = (None, w3)"
    using up p(4) by (cases "NeighSet nl (fdb_entry ?i ip ?m) w2")
      (auto simp: kernel_up_def vtep_request_defs dest!: spec [of _ "fdb_entry ?i ip ?m"] spec [of _ w2])
  have "kv w3 = program_node ?i net ip (kv (world s))"
    using kernel_add_requests [OF laws] r a f p(4) by (simp add: program_node_def)
  with p r a f show ?thesis by (auto simp: AddRemoteNode_def Let_def call_def)
qed

text \<open>With a working kernel and usable nodes a reconciliation succeeds, and it programs the node if there is one.\<close>

lemma NodeReconcile_up:
  assumes inv: "sync_inv nl getNode kv api link (v, s)"
  obtains (skip) v' s' where "NodeReconcile nl getNode req (v, s) = (None, (v', s'))" and "iface v' = iface v"
      and "kv (world s') = kv (world s)" and "\<And>n. api req = Some n \<Longrightarrow> node_view n = None"
    | (program) v' s' n net ip where "NodeReconcile nl getNode req (v, s) = (None, (v', s'))" and "iface v' = iface v"
      and "api req = Some n" and "node_view n = Some (net, ip)"
      and "kv (world s') = program_node (Index link) net ip (kv (world s))"
proof -
  note I = inv [unfolded sync_inv_def]
  have g: "fst (getNode req (world s)) = (case api req of None \<Rightarrow> Inl NotFound | Some n \<Rightarrow> Inr n)"
    "kv (snd (getNode req (world s))) = kv (world s)"
    using I by (auto simp: api_serves_def reads_only_def)
  define s1 where "s1 = snd (call (getNode req) s)"
  have s1: "kv (world s1) = kv (world s)" using g(2) by (simp add: s1_def)
  have c: "call (getNode req) s = (case api req of None \<Rightarrow> Inl NotFound | Some n \<Rightarrow> Inr n, s1)"
    by (simp add: s1_def prod_eq_iff g(1))
  show thesis
  proof (cases "api req")
    case None
    with c skip [of v s1] s1 show thesis by (simp add: NodeReconcile_def)
  next
    case (Some n)
    show thesis
    proof (cases "node_view n")
      case None
      with I Some have "\<not> IsHybridNode n" using api_nodes_usable by blast
      with c Some None skip [of v s1] s1 show thesis by (simp add: NodeReconcile_def)
    next
      case (Some x)
      obtain net ip where x: "node_view n = Some (net, ip)" using Some by (cases x) auto
      then obtain d ds where p: "IsHybridNode n" "DeletionTimestamp n = None" "PodCIDRs n = d # ds" "ParseCIDR d = Some net"
        "ParseIP (GetNodeInternalIP n) = Some ip" "To4 ip \<noteq> None" "GetNodeInternalIP n \<noteq> []" by (rule node_view_parts)
      from AddRemoteNode_up [of nl kv v link "GetNodeInternalIP n" ip d net s1] I p obtain v' s' where
        "AddRemoteNode nl d (GetNodeInternalIP n) (v, s1) = (None, (v', s'))" "iface v' = iface v"
        "kv (world s') = program_node (Index link) net ip (kv (world s1))" by auto
      with c \<open>api req = Some n\<close> p x s1 program [of v' s' n net ip] show thesis
        by (simp add: NodeReconcile_def GetPodCIDR_def)
    qed
  qed
qed

lemma sync_inv_step:
  assumes "sync_inv nl getNode kv api link vs"
  shows "sync_inv nl getNode kv api link (snd (NodeReconcile nl getNode req vs))"
proof -
  obtain v s where vs: "vs = (v, s)" by (cases vs)
  from assms [unfolded vs] show ?thesis
  proof (cases rule: NodeReconcile_up [where req = req])
    case (skip v' s')
    with assms show ?thesis by (simp add: vs sync_inv_def)
  next
    case (program v' s' n net ip)
    from program(4) have "To4 ip \<noteq> None" "length ip = 16" by (rule node_view_parts; auto dest: ParseIP_length)+
    with program assms show ?thesis by (simp add: vs sync_inv_def program_node_def program_ok)
  qed
qed

interpretation node_sync: range_loop "NodeReconcile nl getNode" "sync_inv nl getNode kv api link" "node_connected kv api link"
  for nl :: "'w netlink" and getNode kv api link
proof
  fix req y :: string and vs vs' :: "'w vtep_state"
  assume inv: "sync_inv nl getNode kv api link vs"
  then show "sync_inv nl getNode kv api link (snd (NodeReconcile nl getNode req vs))" by (rule sync_inv_step)
  obtain v s where vs: "vs = (v, s)" by (cases vs)
  show "node_connected kv api link req vs'" if run: "NodeReconcile nl getNode req vs = (None, vs')"
    using inv [unfolded vs]
  proof (cases rule: NodeReconcile_up [where req = req])
    case (skip v' s')
    then show ?thesis by (auto simp: node_connected_def)
  next
    case (program v' s' n net ip)
    with run vs show ?thesis by (auto simp: node_connected_def program_node_endpoint)
  qed
  show "node_connected kv api link y (snd (NodeReconcile nl getNode req vs))" if y: "node_connected kv api link y vs"
    using inv [unfolded vs]
  proof (cases rule: NodeReconcile_up [where req = req])
    case (skip v' s')
    with y vs show ?thesis by (simp add: node_connected_def)
  next
    case (program v' s' n net ip)
    have v4: "To4 ip \<noteq> None" "length ip = 16" using program(4) by (rule node_view_parts; auto dest: ParseIP_length)+
    have ok: "tables_ok (Index link) (kv (world s))" and nodes: "api_nodes_ok api" using inv vs by (simp_all add: sync_inv_def)
    have "tunnel_endpoint (Index link) (kv (world s')) net' = Some ip'"
      if n': "api y = Some n'" "node_view n' = Some (net', ip')" for n' net' ip'
    proof (cases "y = req")
      case True
      with program n' show ?thesis by (simp add: program_node_endpoint)
    next
      case False
      have "net' \<noteq> net"
        using api_nodes_disjoint [OF nodes n'(1) program(3) n'(2) program(4)] False
          net_ok_covers_self [OF node_view_net_ok [OF n'(2)]] by blast
      moreover have "tunnel_endpoint (Index link) (kv (world s)) net' = Some ip'"
        using y vs n' by (simp add: node_connected_def)
      ultimately show ?thesis using program_node_kept [OF ok v4] program(5) by simp
    qed
    with program vs show ?thesis by (simp add: node_connected_def)
  qed
qed

subsection \<open>Where the kernel sends an address\<close>

definition kernel_selects :: "kernel \<Rightarrow> IP \<Rightarrow> IPNet \<Rightarrow> bool" where
  "kernel_selects k a net \<longleftrightarrow>
     kroutes k net \<noteq> None \<and> covers net a
     \<and> (\<forall>n. kroutes k n \<noteq> None \<longrightarrow> covers n a \<longrightarrow> prefix_len n \<le> prefix_len net)"

definition kernel_delivers :: "int \<Rightarrow> kernel \<Rightarrow> IP \<Rightarrow> IP \<Rightarrow> bool" where
  "kernel_delivers idx k a ip \<longleftrightarrow>
     (\<exists>net. kernel_selects k a net) \<and> (\<forall>net. kernel_selects k a net \<longrightarrow> tunnel_endpoint idx k net = Some ip)"

text \<open>Only blocks of nodes are added to the kernel's routes.\<close>

definition routes_from :: "kernel \<Rightarrow> (string \<rightharpoonup> CiliumNode) \<Rightarrow> kernel \<Rightarrow> bool" where
  "routes_from k0 api k \<longleftrightarrow>
     (\<forall>n. kroutes k n \<noteq> None \<longrightarrow> kroutes k0 n \<noteq> None \<or> (\<exists>req node ip. api req = Some node \<and> node_view node = Some (n, ip)))"

lemma sync_pass:
  assumes inv: "sync_inv nl getNode kv api link vs"
  shows "fst (for_each (NodeReconcile nl getNode) reqs vs) = None"
    and "routes_from (kv (world (snd vs))) api (kv (world (snd (snd (for_each (NodeReconcile nl getNode) reqs vs)))))"
proof -
  let ?P = "\<lambda>t. sync_inv nl getNode kv api link t \<and> routes_from (kv (world (snd vs))) api (kv (world (snd t)))"
  have start: "?P vs" using inv by (simp add: routes_from_def)
  have step: "fst (NodeReconcile nl getNode req t) = None \<and> ?P (snd (NodeReconcile nl getNode req t))" if t: "?P t" for req t
  proof -
    obtain v s where vs: "t = (v, s)" by (cases t)
    have "sync_inv nl getNode kv api link (v, s)" using t vs by simp
    then show ?thesis
    proof (cases rule: NodeReconcile_up [where req = req])
      case (skip v' s')
      with t sync_inv_step [of nl getNode kv api link t req] vs show ?thesis by simp
    next
      case (program v' s' n net ip)
      then have "routes_from (kv (world (snd vs))) api (kv (world s'))"
        if "routes_from (kv (world (snd vs))) api (kv (world s))"
        using that by (auto simp: routes_from_def program_defs split: if_splits)
      with t program sync_inv_step [of nl getNode kv api link t req] vs show ?thesis by simp
    qed
  qed
  show "fst (for_each (NodeReconcile nl getNode) reqs vs) = None"
    using start step by (rule for_each_succeeds [where P = ?P])
  have "?P (snd (for_each (NodeReconcile nl getNode) reqs vs))"
    using start step by (intro for_each_preserves [where P = ?P]) auto
  then show "routes_from (kv (world (snd vs))) api (kv (world (snd (snd (for_each (NodeReconcile nl getNode) reqs vs)))))"
    by simp
qed

lemma connected_delivers:
  assumes ok: "api_nodes_ok api" and n: "api req = Some n" "node_view n = Some (net, ip)"
    and conn: "tunnel_endpoint idx k net = Some ip" and rfrom: "routes_from k0 api k" and a: "covers net a"
    and foreign: "\<forall>n'. kroutes k0 n' \<noteq> None \<longrightarrow> covers n' a \<longrightarrow> n' = net \<or> prefix_len n' < prefix_len net"
  shows "kernel_delivers idx k a ip"
proof -
  have route: "kroutes k net \<noteq> None" using conn by (auto simp: tunnel_endpoint_def split: option.splits)
  have best: "n' = net \<or> prefix_len n' < prefix_len net" if "kroutes k n' \<noteq> None" "covers n' a" for n'
  proof -
    from rfrom that(1) consider "kroutes k0 n' \<noteq> None" | r m ip' where "api r = Some m" "node_view m = Some (n', ip')"
      unfolding routes_from_def by blast
    then show ?thesis
    proof cases
      case 1
      with foreign that(2) show ?thesis by blast
    next
      case 2
      with api_nodes_disjoint [OF ok n(1) 2(1) n(2) 2(2) a that(2)] n show ?thesis by simp
    qed
  qed
  have "prefix_len n' \<le> prefix_len net" if "kroutes k n' \<noteq> None" "covers n' a" for n'
    using best [OF that] by auto
  then have "kernel_selects k a net" using route a unfolding kernel_selects_def by blast
  moreover have "n' = net" if "kernel_selects k a n'" for n'
  proof -
    from that have "kroutes k n' \<noteq> None" "covers n' a" "prefix_len net \<le> prefix_len n'"
      using route a unfolding kernel_selects_def by blast+
    with best [of n'] show ?thesis by linarith
  qed
  ultimately show ?thesis unfolding kernel_delivers_def using conn by blast
qed

lemma sync_delivers:
  assumes inv: "sync_inv nl getNode kv api link (v, s)" and req: "req \<in> set reqs"
    and n: "api req = Some n" "node_view n = Some (net, ip)" and a: "covers net a"
    and foreign: "\<forall>n'. kroutes (kv (world s)) n' \<noteq> None \<longrightarrow> covers n' a \<longrightarrow> n' = net \<or> prefix_len n' < prefix_len net"
  shows "\<exists>v' s'. for_each (NodeReconcile nl getNode) reqs (v, s) = (None, (v', s'))
           \<and> kernel_delivers (Index link) (kv (world s')) a ip"
proof -
  obtain v' s' where run: "for_each (NodeReconcile nl getNode) reqs (v, s) = (None, (v', s'))"
    using sync_pass(1) [OF inv, of reqs] by (metis prod.collapse)
  have "node_connected kv api link req (v', s')" using node_sync.loop_reached [OF inv run req] .
  with n have conn: "tunnel_endpoint (Index link) (kv (world s')) net = Some ip" by (simp add: node_connected_def)
  have rf: "routes_from (kv (world s)) api (kv (world s'))" using sync_pass(2) [OF inv, of reqs] run by simp
  have ok: "api_nodes_ok api" using inv by (simp add: sync_inv_def)
  have "kernel_delivers (Index link) (kv (world s')) a ip"
    using ok n conn rf a foreign by (rule connected_delivers)
  with run show ?thesis by blast
qed

text \<open>C7: One pass of reconciliations over the CiliumNodes connects the whole cluster: with a kernel that accepts requests
  and nodes whose pod CIDRs do not overlap, every reconciliation succeeds, and afterwards the longest matching
  route of every address of a node's pod CIDR leads through the tunnel to that node, provided that the routes that
  were there before are less specific.\<close>

theorem node_sync_delivers:
  assumes "sync_inv nl getNode kv api link (v, s)" and "req \<in> set reqs"
    and "api req = Some n" and "node_view n = Some (net, ip)" and "covers net a"
    and "\<forall>n'. kroutes (kv (world s)) n' \<noteq> None \<longrightarrow> covers n' a \<longrightarrow> n' = net \<or> prefix_len n' < prefix_len net"
  shows "\<exists>v' s'. for_each (NodeReconcile nl getNode) reqs (v, s) = (None, (v', s'))
           \<and> kernel_delivers (Index link) (kv (world s')) a ip"
  using assms by (rule sync_delivers)

subsection \<open>Where the VPC sends an address\<close>

definition vpc_selects :: "(string \<rightharpoonup> ec2_route list) \<Rightarrow> string \<Rightarrow> IP \<Rightarrow> string \<Rightarrow> bool" where
  "vpc_selects t i a c \<longleftrightarrow>
     route_of t i c \<noteq> None
     \<and> (\<exists>n. ParseCIDR c = Some n \<and> covers n a
          \<and> (\<forall>c' n'. route_of t i c' \<noteq> None \<longrightarrow> ParseCIDR c' = Some n' \<longrightarrow> covers n' a \<longrightarrow> prefix_len n' \<le> prefix_len n))"

definition vpc_delivers :: "(string \<rightharpoonup> ec2_route list) \<Rightarrow> string \<Rightarrow> IP \<Rightarrow> string \<Rightarrow> bool" where
  "vpc_delivers t i a eni \<longleftrightarrow> (\<exists>c. vpc_selects t i a c) \<and> (\<forall>c. vpc_selects t i a c \<longrightarrow> points_to t i c eni)"

text \<open>The configured CIDR is the most specific one for an address, among the routes of a table and the configured CIDRs.\<close>

definition vpc_best :: "(string \<rightharpoonup> ec2_route list) \<Rightarrow> string \<Rightarrow> string list \<Rightarrow> IP \<Rightarrow> string \<Rightarrow> bool" where
  "vpc_best t i cidrs a c \<longleftrightarrow>
     c \<in> set cidrs
     \<and> (\<exists>n. ParseCIDR c = Some n \<and> covers n a
          \<and> (\<forall>c' n'. route_of t i c' \<noteq> None \<or> c' \<in> set cidrs \<longrightarrow> ParseCIDR c' = Some n' \<longrightarrow> covers n' a \<longrightarrow>
               c' = c \<or> prefix_len n' < prefix_len n))"

lemma best_delivers:
  assumes best: "vpc_best t0 i cidrs a c" and points: "points_to t i c eni"
    and other: "\<And>c'. c' \<notin> set cidrs \<Longrightarrow> route_of t i c' = route_of t0 i c'"
  shows "vpc_delivers t i a eni"
proof -
  from best obtain n where n: "c \<in> set cidrs" "ParseCIDR c = Some n" "covers n a"
    and less: "\<And>c' n'. route_of t0 i c' \<noteq> None \<or> c' \<in> set cidrs \<Longrightarrow> ParseCIDR c' = Some n' \<Longrightarrow> covers n' a \<Longrightarrow>
      c' = c \<or> prefix_len n' < prefix_len n"
    unfolding vpc_best_def by blast
  have less': "c' = c \<or> prefix_len n' < prefix_len n"
    if "route_of t i c' \<noteq> None" "ParseCIDR c' = Some n'" "covers n' a" for c' n'
    using less [of c' n'] other [of c'] that by fastforce
  have route: "route_of t i c \<noteq> None" using points by (auto simp: points_to_def)
  have "prefix_len n' \<le> prefix_len n" if "route_of t i c' \<noteq> None" "ParseCIDR c' = Some n'" "covers n' a" for c' n'
    using less' [OF that] that n(2) by auto
  with route n have "vpc_selects t i a c" unfolding vpc_selects_def by blast
  moreover have "c' = c" if "vpc_selects t i a c'" for c'
  proof -
    from that obtain n' where n': "route_of t i c' \<noteq> None" "ParseCIDR c' = Some n'" "covers n' a" "prefix_len n \<le> prefix_len n'"
      using route n unfolding vpc_selects_def by blast
    with less' [OF n'(1-3)] show ?thesis by linarith
  qed
  ultimately show ?thesis unfolding vpc_delivers_def using points by blast
qed

subsection \<open>From the VPC to the pod\<close>

definition netlink_keeps :: "'w netlink \<Rightarrow> ('w \<Rightarrow> 'v) \<Rightarrow> bool" where
  "netlink_keeps nl f \<longleftrightarrow>
     (\<forall>r w. f (snd (RouteReplace nl r w)) = f w) \<and> (\<forall>r w. f (snd (RouteDel nl r w)) = f w)
     \<and> (\<forall>n w. f (snd (NeighSet nl n w)) = f w) \<and> (\<forall>n w. f (snd (NeighDel nl n w)) = f w)"

lemma vtep_ops_keep:
  assumes "netlink_keeps nl f"
  shows "f (world (snd (snd (AddRemoteNode nl c x vs)))) = f (world (snd vs))"
    and "f (world (snd (snd (RemoveRemoteNode nl c x vs)))) = f (world (snd vs))"
proof -
  have K: "\<And>r w e w'. RouteReplace nl r w = (e, w') \<Longrightarrow> f w' = f w" "\<And>n w e w'. NeighSet nl n w = (e, w') \<Longrightarrow> f w' = f w"
    "\<And>r w. f (snd (RouteDel nl r w)) = f w" "\<And>n w. f (snd (NeighDel nl n w)) = f w"
    using assms unfolding netlink_keeps_def by (metis snd_conv)+
  show "f (world (snd (snd (AddRemoteNode nl c x vs)))) = f (world (snd vs))"
    using K(1,2) by (auto simp: AddRemoteNode_def Let_def call_eq_iff split: prod.splits option.splits)
  show "f (world (snd (snd (RemoveRemoteNode nl c x vs)))) = f (world (snd vs))"
    by (simp add: RemoveRemoteNode_def Let_def K split: prod.splits option.splits)
qed

lemma NodeReconcile_keeps_view:
  assumes nl: "netlink_keeps nl f" and get: "reads_only getNode f"
  shows "f (world (snd (snd (NodeReconcile nl getNode req vs)))) = f (world (snd vs))"
proof -
  obtain v s where vs: "vs = (v, s)" by (cases vs)
  obtain r vs' where run: "NodeReconcile nl getNode req (v, s) = (r, vs')" by (cases "NodeReconcile nl getNode req (v, s)")
  have g: "call (getNode req) s = (x, s1) \<Longrightarrow> f (world s1) = f (world s)" for x s1
    using get by (auto simp: reads_only_def call_eq_iff) (metis snd_conv)
  from run show ?thesis
  proof (cases rule: NodeReconcile_cases)
    case (removal node s1 c cs r0)
    with g [OF removal(1)] vtep_ops_keep(2) [OF nl, of c "GetNodeInternalIP node" "(v, s1)"] show ?thesis by (simp add: vs run)
  next
    case (addition node s1 c cs r0)
    with g [OF addition(1)] vtep_ops_keep(1) [OF nl, of c "GetNodeInternalIP node" "(v, s1)"] show ?thesis by (simp add: vs run)
  qed (auto simp: vs run dest: g)
qed

text \<open>The services of a gateway do not disturb each other: route tables, API objects and the host's kernel are separate.\<close>

definition separate ::
  "('w \<Rightarrow> duration \<times> 'w) \<Rightarrow> 'w netlink \<Rightarrow> (string \<Rightarrow> 'w \<Rightarrow> (k8s_error + CiliumNode) \<times> 'w) \<Rightarrow> 'w GatewaySetup \<Rightarrow>
     ('w \<Rightarrow> string \<rightharpoonup> ec2_route list) \<Rightarrow> ('w \<Rightarrow> obj option) \<Rightarrow> ('w \<Rightarrow> kernel) \<Rightarrow> bool" where
  "separate now nl getNode g tv store kv \<longleftrightarrow>
     clock_keeps now tv \<and> clock_keeps now store \<and> clock_keeps now kv \<and> netlink_keeps nl tv \<and> reads_only getNode tv
     \<and> k8s_keeps (gs_k8sClient g) kv \<and> (\<forall>m. gs_routeTableManager g = Some m \<longrightarrow> ec2_keeps (ec2Client m) kv)"

text \<open>C2: A gateway that has reconciled the CiliumNodes and then becomes leader carries the traffic of the cluster: its set-up
  succeeds, every configured route table sends the addresses of the pods to this gateway's network
  interface, and its kernel sends each of them through the tunnel to the node that owns it.  The routes that
  existed before, in the VPC and in the kernel, must be less specific; kernel, EC2 and API server must be reachable, the reads of EC2 and
  of the API server up to date, and nobody else at work.\<close>

theorem packet_reaches_pod:
  assumes sync: "sync_inv nl getNode kv api link (v, s)" and sep: "separate now nl getNode g tv store kv"
    and node: "req \<in> set reqs" "api req = Some n" "node_view n = Some (net, ip)" "covers net a"
    and kernel: "\<forall>n'. kroutes (kv (world s)) n' \<noteq> None \<longrightarrow> covers n' a \<longrightarrow> n' = net \<or> prefix_len n' < prefix_len net"
    and ready: "routes_ready tv canon g (world s)" "config_ready u tv store g (world s)"
    and table: "gs_routeTableManager g = Some m" "i \<in> set (routeTableIDs m)" "vpc_best (tv (world s)) i (gs_podCIDRs g) a c"
  shows "\<exists>v' s' s''. for_each (NodeReconcile nl getNode) reqs (v, s) = (None, (v', s')) \<and> Start now u g s' = (Waiting, s'')
           \<and> vpc_delivers (tv (world s'')) i a (primaryENI m) \<and> kernel_delivers (Index link) (kv (world s'')) a ip"
proof -
  note S = sep [unfolded separate_def]
  from sync_delivers [OF sync node kernel] obtain v' s' where
    s': "for_each (NodeReconcile nl getNode) reqs (v, s) = (None, (v', s'))" "kernel_delivers (Index link) (kv (world s')) a ip"
    by blast
  have "tv (world (snd (snd (for_each (NodeReconcile nl getNode) reqs (v, s))))) = tv (world s)"
    using S by (intro for_each_preserves [where P = "\<lambda>vs. tv (world (snd vs)) = tv (world s)"])
      (simp_all add: NodeReconcile_keeps_view)
  with s' have tv': "tv (world s') = tv (world s)" by simp
  have "routes_ready tv canon g (world s')" "config_ready u tv store g (world s')"
    using ready tv' table(1) by (simp_all add: routes_ready_def config_ready_def)
  with S Start_publishes [of tv canon g s' u store now] obtain s'' where
    s'': "Start now u g s' = (Waiting, s'')" "routes_published tv g (world s'')" by blast
  have laws: "ec2_laws (ec2Client m) tv canon" "\<forall>d \<in> set (gs_podCIDRs g). canon d = d"
    using ready(1) table(1) by (simp_all add: routes_ready_def)
  have k8s: "k8s_keeps (gs_k8sClient g) tv" using ready(2) by (simp add: config_ready_def)
  have "kv (world (snd (Start now u g s'))) = kv (world s')"
    using S by (intro Start_keeps_view) (auto intro: UpdateRoutes_keeps)
  moreover have "route_of (tv (world (snd (Start now u g s')))) i d = route_of (tv (world s')) i d"
    if "d \<notin> set (gs_podCIDRs g)" for d
    using S k8s laws that table(1) UpdateRoutes_other [OF laws(1), of i d "gs_podCIDRs g"]
    by (intro Start_keeps_view [where f = "\<lambda>w. route_of (tv w) i d"]) (auto simp: clock_keeps_def k8s_keeps_def)
  moreover have "c \<in> set (gs_podCIDRs g)" using table(3) by (simp add: vpc_best_def)
  then have "points_to (tv (world s'')) i c (primaryENI m)" using s''(2) table(1,2) by (simp add: routes_published_def)
  ultimately have "vpc_delivers (tv (world s'')) i a (primaryENI m)"
    using best_delivers [OF table(3), of "tv (world s'')" "primaryENI m"] s''(1) tv' by simp
  with s' s'' \<open>kv (world (snd (Start now u g s'))) = kv (world s')\<close> show ?thesis by auto
qed

subsection \<open>Witnesses\<close>

definition pod_ip :: IP where
  "pod_ip = v4InV6Prefix @ [10, 86, 232, 5]"

definition api0 :: "string \<rightharpoonup> CiliumNode" where
  "api0 = [''n1'' \<mapsto> node0]"

lemma node0_view: "node_view node0 = Some (ex_net, ex_ip)"
  using ex_v4 by (simp add: node_view_def ex_parse_ip ex_parse_cidr)

lemma ex_net_covers: "covers ex_net pod_ip"
  by (simp add: covers_def ex_net_def pod_ip_def IP_Mask_def v4InV6Prefix_def)

lemma api0_ok: "api_nodes_ok api0"
  unfolding api_nodes_ok_def by (auto simp: api0_def node0_view split: if_splits)

lemma linux_up: "kernel_up linux"
  by (auto simp: kernel_up_def linux_def af_inet_def af_bridge_def split: option.splits)

lemma sync0: "sync_inv linux cluster0 h_kernel api0 ex_link (ex_vtep, ex_sys)"
  using linux_laws linux_up api0_ok ex_get_link ex_tables_ok
  by (simp add: sync_inv_def api_serves_def reads_only_def cluster0_def api0_def)

theorem node_sync_delivers_witness:
  "\<exists>v' s'. for_each (NodeReconcile linux cluster0) [''n0'', ''n1''] (ex_vtep, ex_sys) = (None, (v', s'))
     \<and> kernel_delivers (Index ex_link) (h_kernel (world s')) pod_ip ex_ip"
  by (rule node_sync_delivers [OF sync0 _ _ node0_view ex_net_covers, of "''n1''"])
     (simp_all add: api0_def ex_sys_def host0_def)

text \<open>A gateway's host beside the services of the VPC.\<close>

type_synonym site = "cloud \<times> host"

definition site_ec2 :: "site ec2" where
  "site_ec2 = \<lparr>DescribeInstances = (\<lambda>ids. on_fst (DescribeInstances cloud_ec2 ids)),
     DescribeRouteTables = (\<lambda>ids. on_fst (DescribeRouteTables cloud_ec2 ids)),
     CreateRoute = (\<lambda>i. on_fst (CreateRoute cloud_ec2 i)), ReplaceRoute = (\<lambda>i. on_fst (ReplaceRoute cloud_ec2 i))\<rparr>"

definition site_k8s :: "site k8s" where
  "site_k8s = \<lparr>Get = (\<lambda>g n. on_fst (Get cloud_k8s g n)), Create = (\<lambda>ob. on_fst (Create cloud_k8s ob)),
     Update = (\<lambda>ob. on_fst (Update cloud_k8s ob))\<rparr>"

definition site_netlink :: "site netlink" where
  "site_netlink =
     \<lparr>RouteReplace = (\<lambda>r. on_snd (RouteReplace linux r)), RouteDel = (\<lambda>r. on_snd (RouteDel linux r)),
      NeighSet = (\<lambda>n. on_snd (NeighSet linux n)), NeighDel = (\<lambda>n. on_snd (NeighDel linux n)),
      LinkByName = (\<lambda>n. on_snd (LinkByName linux n)), LinkAdd = (\<lambda>x. on_snd (LinkAdd linux x)),
      LinkDel = (\<lambda>l. on_snd (LinkDel linux l)), LinkSetHardwareAddr = (\<lambda>l m. on_snd (LinkSetHardwareAddr linux l m)),
      LinkSetUp = (\<lambda>l. on_snd (LinkSetUp linux l)), LinkList = on_snd (LinkList linux),
      AddrList = (\<lambda>l f. on_snd (AddrList linux l f)), NeighList = (\<lambda>i f. on_snd (NeighList linux i f)),
      RouteList = (\<lambda>l f. on_snd (RouteList linux l f))\<rparr>"

definition site_clock :: "site \<Rightarrow> duration \<times> site" where "site_clock w = (5, w)"

definition site_nodes :: "string \<Rightarrow> site \<Rightarrow> (k8s_error + CiliumNode) \<times> site" where
  "site_nodes req = on_snd (cluster0 req)"

abbreviation site_tables :: "site \<Rightarrow> string \<rightharpoonup> ec2_route list" where "site_tables w \<equiv> cloud_tables (fst w)"
abbreviation site_store :: "site \<Rightarrow> obj option" where "site_store w \<equiv> cloud_store (fst w)"
abbreviation site_kernel :: "site \<Rightarrow> kernel" where "site_kernel w \<equiv> h_kernel (snd w)"

definition site_manager :: "site RouteTableManager" where
  "site_manager = \<lparr>ec2Client = site_ec2, routeTableIDs = [''rtb-1'', ''rtb-2''], instanceID = ''i-1'', primaryENI = ''eni-1'',
     region = ''us-west-2''\<rparr>"

definition site_gateway :: "site GatewaySetup" where
  "site_gateway = NewSetup (Some site_manager) [''10.86.0.0/16''] site_k8s iface0 ip0 [''10.1.0.0/16'']"

definition site_sys :: "site sys" where
  "site_sys = \<lparr>sys_metrics = metrics_init, world = (world cloud_sys0, world ex_sys)\<rparr>"

lemma on_eq_iff:
  "on_fst op w = (r, w') \<longleftrightarrow> (\<exists>a. op (fst w) = (r, a) \<and> w' = (a, snd w))"
  "on_snd op' w = (r, w') \<longleftrightarrow> (\<exists>b. op' (snd w) = (r, b) \<and> w' = (fst w, b))"
  by (auto simp: on_fst_def on_snd_def split: prod.splits)

lemma site_kernel_laws: "kernel_laws site_netlink site_kernel" "kernel_up site_netlink" "netlink_keeps site_netlink site_tables"
proof -
  show "kernel_laws site_netlink site_kernel"
    using linux_laws
    by (simp add: kernel_laws_def atomic_requests_def route_laws_def neigh_laws_def site_netlink_def on_eq_iff)
  show "kernel_up site_netlink" using linux_up by (simp add: kernel_up_def site_netlink_def)
  show "netlink_keeps site_netlink site_tables" by (simp add: netlink_keeps_def site_netlink_def)
qed

lemma site_sync: "sync_inv site_netlink site_nodes site_kernel api0 ex_link (ex_vtep, site_sys)"
  using site_kernel_laws api0_ok ex_get_link ex_tables_ok
  by (simp add: sync_inv_def api_serves_def reads_only_def site_nodes_def cluster0_def api0_def site_sys_def)

lemma site_separate: "separate site_clock site_netlink site_nodes site_gateway site_tables site_store site_kernel"
  using site_kernel_laws(3)
  by (auto simp: separate_def clock_keeps_def site_clock_def reads_only_def site_nodes_def cluster0_def k8s_keeps_def
      site_gateway_def NewSetup_def site_k8s_def site_manager_def ec2_keeps_def site_ec2_def)

lemma site_ec2_laws: "ec2_laws site_ec2 site_tables id" "describe_up site_ec2" "writes_up site_ec2 site_tables id"
  "fresh_reads site_ec2 site_tables"
proof -
  show "ec2_laws site_ec2 site_tables id"
    using cloud_ec2_laws(1) by (fastforce simp: ec2_laws_def reads_frame_def write_laws_def site_ec2_def on_eq_iff)
  show "fresh_reads site_ec2 site_tables"
    using cloud_ec2_laws(5) by (simp add: fresh_reads_def site_ec2_def on_eq_iff)
  show "describe_up site_ec2" using cloud_ec2_laws(2) by (simp add: describe_up_def site_ec2_def on_eq_iff)
  show "writes_up site_ec2 site_tables id" using cloud_ec2_laws(3) by (simp add: writes_up_def site_ec2_def)
qed

lemma site_k8s_laws: "api_laws tree_ops site_k8s site_store" "get_fresh site_k8s site_store" "api_up tree_ops site_k8s site_store"
  "k8s_keeps site_k8s site_tables"
proof -
  show "api_laws tree_ops site_k8s site_store"
    using cloud_k8s_laws(1) by (simp add: api_laws_def site_k8s_def on_eq_iff)
  show "get_fresh site_k8s site_store" using cloud_k8s_laws(2) by (simp add: get_fresh_def site_k8s_def)
  show "api_up tree_ops site_k8s site_store" using cloud_k8s_laws(3) by (auto simp: api_up_def site_k8s_def)
  show "k8s_keeps site_k8s site_tables" using cloud_k8s_laws(4) by (simp add: k8s_keeps_def site_k8s_def)
qed

lemma site_ready:
  "routes_ready site_tables id site_gateway (world site_sys)" "config_ready tree_ops site_tables site_store site_gateway (world site_sys)"
  using site_ec2_laws site_k8s_laws tree_ops_laws
  by (auto simp: routes_ready_def config_ready_def site_gateway_def NewSetup_def site_manager_def site_sys_def cloud_sys0_def tables0_def)

lemma site_cidrs:
  "ParseCIDR ''10.86.0.0/16'' = Some \<lparr>net_IP = [10, 86, 0, 0], net_Mask = [255, 255, 0, 0]\<rparr>"
  "ParseCIDR ''10.0.0.0/16'' = Some \<lparr>net_IP = [10, 0, 0, 0], net_Mask = [255, 255, 0, 0]\<rparr>"
  "ParseCIDR ''10.9.0.0/16'' = Some \<lparr>net_IP = [10, 9, 0, 0], net_Mask = [255, 255, 0, 0]\<rparr>"
  by (simp_all add: ParseCIDR_def ParseAddr_def is_dig_def dig_val_def dtoi_def CIDRMask_def IP_Mask_def v4InV6Prefix_def)

lemma site_covers: "covers \<lparr>net_IP = ip4, net_Mask = [255, 255, 0, 0]\<rparr> pod_ip \<longleftrightarrow> ip4 = [10, 86, 0, 0]"
  by (auto simp: covers_def pod_ip_def IP_Mask_def v4InV6Prefix_def)

lemma site_best: "vpc_best tables0 ''rtb-1'' [''10.86.0.0/16''] pod_ip ''10.86.0.0/16''"
proof -
  have "c = ''10.0.0.0/16'' \<or> c = ''10.9.0.0/16''" if "route_of tables0 ''rtb-1'' c \<noteq> None" for c
    using that by (auto simp: route_of_def tables0_def find_route_def mem_route_def split: if_splits)
  then have "c = ''10.86.0.0/16''"
    if "route_of tables0 ''rtb-1'' c \<noteq> None \<or> c = ''10.86.0.0/16''" "ParseCIDR c = Some n" "covers n pod_ip" for c n
  proof -
    from that(1) \<open>\<And>c. route_of tables0 ''rtb-1'' c \<noteq> None \<Longrightarrow> c = ''10.0.0.0/16'' \<or> c = ''10.9.0.0/16''\<close>
    consider "c = ''10.0.0.0/16''" | "c = ''10.9.0.0/16''" | "c = ''10.86.0.0/16''" by blast
    then show ?thesis using that(2,3) by cases (auto simp: site_cidrs site_covers)
  qed
  then show ?thesis by (auto simp: vpc_best_def site_cidrs site_covers)
qed

theorem packet_reaches_pod_witness:
  "\<exists>v' s' s''. for_each (NodeReconcile site_netlink site_nodes) [''n1''] (ex_vtep, site_sys) = (None, (v', s'))
     \<and> Start site_clock tree_ops site_gateway s' = (Waiting, s'')
     \<and> vpc_delivers (site_tables (world s'')) ''rtb-1'' pod_ip ''eni-1'' \<and> kernel_delivers (Index ex_link) (site_kernel (world s'')) pod_ip ex_ip"
proof -
  have "gs_routeTableManager site_gateway = Some site_manager" "gs_podCIDRs site_gateway = [''10.86.0.0/16'']"
    "primaryENI site_manager = ''eni-1''" "''rtb-1'' \<in> set (routeTableIDs site_manager)" "site_tables (world site_sys) = tables0"
    by (simp_all add: site_gateway_def NewSetup_def site_manager_def site_sys_def cloud_sys0_def)
  with packet_reaches_pod [OF site_sync site_separate _ _ node0_view ex_net_covers _ site_ready, of "''n1''" "[''n1'']" site_manager "''rtb-1''"
      "''10.86.0.0/16''"] site_best
  show ?thesis by (simp add: api0_def site_sys_def ex_sys_def host0_def)
qed

end
