(* ===== verification/Vtep_Requests.thy ===== *)
theory Vtep_Requests
  imports Vtep Go_Cidr
begin

text \<open>
  What the VTEP operations send to the kernel.  \<open>recorded\<close> is a netlink interface that notes something about each table
  request made through it; the operations of \<^verbatim>\<open>internal/vxlan/vtep.go\<close> run on it unchanged.  \<open>logged\<close> notes the request,
  \<open>watched\<close> the kernel's tables after it.  The theorems say which requests are well formed, in which order
  requests are made, and what packets find between two requests.
\<close>

datatype request = ReqRouteReplace Route | ReqRouteDel Route | ReqNeighSet Neigh | ReqNeighDel Neigh

definition log_call ::
  "(request \<Rightarrow> 'w \<Rightarrow> 'l) \<Rightarrow> ('a \<Rightarrow> request) \<Rightarrow> ('a \<Rightarrow> 'w \<Rightarrow> 'r \<times> 'w) \<Rightarrow> 'a \<Rightarrow> 'w \<times> 'l list \<Rightarrow> 'r \<times> 'w \<times> 'l list" where
  "log_call entry req f x s = (case f x (fst s) of (r, w) \<Rightarrow> (r, w, snd s @ [entry (req x) w]))"

definition pass_call :: "('w \<Rightarrow> 'r \<times> 'w) \<Rightarrow> 'w \<times> 'l list \<Rightarrow> 'r \<times> 'w \<times> 'l list" where
  "pass_call f s = (case f (fst s) of (r, w) \<Rightarrow> (r, w, snd s))"

definition recorded :: "(request \<Rightarrow> 'w \<Rightarrow> 'l) \<Rightarrow> 'w netlink \<Rightarrow> ('w \<times> 'l list) netlink" where
  "recorded entry nl =
     \<lparr>RouteReplace = log_call entry ReqRouteReplace (RouteReplace nl), RouteDel = log_call entry ReqRouteDel (RouteDel nl),
      NeighSet = log_call entry ReqNeighSet (NeighSet nl), NeighDel = log_call entry ReqNeighDel (NeighDel nl),
      LinkByName = (\<lambda>n. pass_call (LinkByName nl n)), LinkAdd = (\<lambda>x. pass_call (LinkAdd nl x)),
      LinkDel = (\<lambda>l. pass_call (LinkDel nl l)), LinkSetHardwareAddr = (\<lambda>l m. pass_call (LinkSetHardwareAddr nl l m)),
      LinkSetUp = (\<lambda>l. pass_call (LinkSetUp nl l)), LinkList = pass_call (LinkList nl),
      AddrList = (\<lambda>l f. pass_call (AddrList nl l f)), NeighList = (\<lambda>i f. pass_call (NeighList nl i f)),
      RouteList = (\<lambda>l f. pass_call (RouteList nl l f))\<rparr>"


definition watched :: "('w \<Rightarrow> kernel) \<Rightarrow> 'w netlink \<Rightarrow> ('w \<times> kernel list) netlink" where
  "watched kv = recorded (\<lambda>req w. kv w)"

definition with_log :: "'w sys \<Rightarrow> ('w \<times> 'l list) sys" where
  "with_log s = \<lparr>sys_metrics = sys_metrics s, world = (world s, [])\<rparr>"

definition sent :: "'e option \<times> ('w \<times> 'l list) vtep_state \<Rightarrow> 'l list" where
  "sent r = snd (world (snd (snd r)))"

subsection \<open>Well-formed requests\<close>









subsection \<open>The log of an operation\<close>

lemma recorded_simps [simp]:
  "RouteReplace (recorded e nl) r s = log_call e ReqRouteReplace (RouteReplace nl) r s"
  "RouteDel (recorded e nl) r s = log_call e ReqRouteDel (RouteDel nl) r s"
  "NeighSet (recorded e nl) n s = log_call e ReqNeighSet (NeighSet nl) n s"
  "NeighDel (recorded e nl) n s = log_call e ReqNeighDel (NeighDel nl) n s"
  by (simp_all add: recorded_def)






subsection \<open>Between the requests\<close>

text \<open>The tables that packets can meet while an addition is under way, failed requests included.\<close>

lemma add_history:
  assumes laws: "kernel_laws nl kv" and p: "GetLink (iface v) = Some link" "ParseIP x = Some ip" "ParseCIDR c = Some net"
    and v4: "To4 ip \<noteq> None" and k: "k \<in> set (sent (AddRemoteNode (watched kv nl) c x (v, with_log s)))"
  shows "k = kv (world s) \<or> k = program_route (Index link) net ip (kv (world s))
    \<or> k = program_arp (Index link) ip (program_route (Index link) net ip (kv (world s)))
    \<or> k = program_node (Index link) net ip (kv (world s))"
  using p k kernel_add_requests [OF laws] kernel_laws_error [OF laws] v4
  by (auto simp: AddRemoteNode_def Let_def with_log_def sent_def watched_def log_call_def call_def count_def program_node_def
      split: prod.splits option.splits)

lemma program_route_own:
  assumes "tables_ok idx k" "To4 ip \<noteq> None" "length ip = 16"
  shows "tunnel_endpoint idx (program_route idx net ip k) net \<in> {None, Some ip}"
    and "tunnel_endpoint idx (program_arp idx ip (program_route idx net ip k)) net \<in> {None, Some ip}"
proof -
  have own: "tunnel_endpoint idx k' net \<in> {None, Some ip}"
    if "tables_ok idx k'" "kroutes k' net = Some (pod_route idx net ip)" for k'
    using tables_ok_endpoint [OF that(1), of net] that(2) by (cases "tunnel_endpoint idx k' net") (auto simp: pod_route_def)
  show "tunnel_endpoint idx (program_route idx net ip k) net \<in> {None, Some ip}"
    by (rule own [OF program_ok(1) [OF assms(1)]]) (simp add: program_defs)
  show "tunnel_endpoint idx (program_arp idx ip (program_route idx net ip k)) net \<in> {None, Some ip}"
    by (rule own [OF program_ok(2) [OF program_ok(1) [OF assms(1)] assms(2,3)]]) (simp add: program_defs)
qed

text \<open>C28: No packet goes astray while a node is being added: in every state of the kernel's tables between the requests of
  AddRemoteNode, whichever of them fail, every other pod network keeps its path, and packets for the pod CIDR of
  the node take the old path, or are not tunnelled yet, or reach the node, but never another one.\<close>

theorem AddRemoteNode_transient:
  assumes laws: "kernel_laws nl kv" and p: "GetLink (iface v) = Some link" "ParseIP x = Some ip" "ParseCIDR c = Some net"
    and v4: "To4 ip \<noteq> None" and ok: "tables_ok (Index link) (kv (world s))"
    and k: "k \<in> set (sent (AddRemoteNode (watched kv nl) c x (v, with_log s)))"
  shows "(\<forall>net' y. net' \<noteq> net \<longrightarrow> tunnel_endpoint (Index link) (kv (world s)) net' = Some y
            \<longrightarrow> tunnel_endpoint (Index link) k net' = Some y)
    \<and> tunnel_endpoint (Index link) k net \<in> {tunnel_endpoint (Index link) (kv (world s)) net, None, Some ip}"
proof -
  have l: "length ip = 16" using p(2) by (rule ParseIP_length)
  from add_history [OF laws p v4 k] consider "k = kv (world s)" | "k = program_route (Index link) net ip (kv (world s))"
    | "k = program_arp (Index link) ip (program_route (Index link) net ip (kv (world s)))"
    | "k = program_node (Index link) net ip (kv (world s))" by blast
  then show ?thesis
  proof cases
    case 2
    with program_route_own(1) [OF ok v4 l] show ?thesis by (auto intro: program_route_kept)
  next
    case 3
    with program_route_own(2) [OF ok v4 l] show ?thesis
      by (auto intro: program_arp_kept [OF program_ok(1) [OF ok]] program_route_kept)
  next
    case 4
    then show ?thesis using program_node_kept [OF ok v4 l] by (simp add: program_node_endpoint)
  qed simp
qed

theorem AddRemoteNode_transient_witness:
  "\<exists>k. k \<in> set (sent (AddRemoteNode (watched h_kernel linux) ''10.86.232.0/25'' ''10.1.2.3'' (ex_vtep, with_log ex_sys)))
     \<and> tunnel_endpoint (Index ex_link) k ex_net \<in> {tunnel_endpoint (Index ex_link) (h_kernel (world ex_sys)) ex_net, None, Some ex_ip}"
proof -
  have "sent (AddRemoteNode (watched h_kernel linux) ''10.86.232.0/25'' ''10.1.2.3'' (ex_vtep, with_log ex_sys)) \<noteq> []"
    by (simp add: AddRemoteNode_def Let_def ex_args with_log_def call_def watched_def log_call_def sent_def count_def linux_def vtep_request_defs)
  then obtain k where k: "k \<in> set (sent (AddRemoteNode (watched h_kernel linux) ''10.86.232.0/25'' ''10.1.2.3'' (ex_vtep, with_log ex_sys)))"
    using list.set_sel(1) by blast
  with AddRemoteNode_transient [OF linux_laws ex_args ex_v4 ex_tables_ok k] show ?thesis by blast
qed

subsection \<open>Witness for the form of requests\<close>


end
