(* ===== verification/Spec2Isabelle.thy ===== *)
theory Spec2Isabelle
  imports Gateway_Main Gateway_Cluster Data_Path Vtep_Requests
begin

text \<open>
  The EKS hybrid nodes gateway connects pods on hybrid nodes with a VPC.  Several gateway processes run;
  one holds a lease and leads.  This development models the Go code under \<^verbatim>\<open>src/cmd/gateway\<close> and
  \<^verbatim>\<open>src/internal\<close> and proves what its parts promise and what they achieve together.

  \<^bold>\<open>Parts of the program and their theories.\<close>

    \<^item> \<^verbatim>\<open>Gateway_Prelude\<close>: range loops that return at the first error (\<open>for_each\<close>), with the loop contract
      \<open>range_loop\<close>, runs of a transition system with an invariant (\<open>invariant_system\<close>), of a system among steps of
      its environment (\<open>open_system\<close>), and runs of labelled steps, with an invariant (\<open>labelled_system\<close>) and with a measure that steps of one
      label bring down (\<open>fueled_system\<close>).
    \<^item> \<^verbatim>\<open>Go_Strings\<close>, \<^verbatim>\<open>Go_Net\<close>, \<^verbatim>\<open>Go_Cidr\<close>, \<^verbatim>\<open>Go_Time\<close>, \<^verbatim>\<open>Go_Flag\<close>, \<^verbatim>\<open>Go_Sha256\<close>: what the code uses of Go's standard library:
      splitting and trimming of strings (and the interface \<open>csv_list\<close> of a comma-separated list), IP addresses and
      prefixes with their parsers and printers and the addresses a prefix covers, float64 conversions and
      \<^verbatim>\<open>time.ParseDuration\<close>, package \<^verbatim>\<open>flag\<close> (with the interface \<open>flag_codec\<close> of flags that carry their variables without
      loss), SHA-256.
    \<^item> \<^verbatim>\<open>Netlink\<close>: the kernel interface as a record of calls, its laws, and an instance.
    \<^item> \<^verbatim>\<open>Vxlan_Interface\<close> (\<^verbatim>\<open>internal/vxlan/interface.go\<close>): \<open>Setup\<close>, \<open>Teardown\<close>, the forwarding check and the derived MAC
      address.
    \<^item> \<^verbatim>\<open>Vtep\<close> (\<^verbatim>\<open>internal/vxlan/vtep.go\<close>): \<open>AddRemoteNode\<close> and \<open>RemoveRemoteNode\<close> on a VTEP object and the process state.  The
      abstract view is \<open>tunnel_endpoint\<close>, where the kernel sends packets for a pod network.  The interface
      \<open>node_table\<close> is what the reconciler relies on.  \<^verbatim>\<open>Vtep_Requests\<close> records the kernel requests of
      both operations and the tables between them.
    \<^item> \<^verbatim>\<open>Gateway_Metrics\<close> (\<^verbatim>\<open>internal/metrics/metrics.go\<close>) and \<^verbatim>\<open>Network_Collector\<close> (\<^verbatim>\<open>internal/metrics/collector.go\<close>): metric
      values, their declarations, and the collector that reads interface counters on each scrape.
    \<^item> \<^verbatim>\<open>Route_Tables\<close> (\<^verbatim>\<open>internal/aws/routetable.go\<close>): the route table manager; its loop over tables and CIDRs is an
      instance of \<open>range_loop\<close>.  \<^verbatim>\<open>Leader_Race\<close> cuts this loop into steps of one EC2 call (\<open>pass_step\<close>), interleaves the
      passes of several gateways (\<open>race_step\<close>) and counts calls.
    \<^item> \<^verbatim>\<open>Imds\<close> (\<^verbatim>\<open>internal/aws/metadata.go\<close>): the instance metadata client.
    \<^item> \<^verbatim>\<open>Cilium_Config\<close> (\<^verbatim>\<open>internal/cilium/vtep.go\<close>): the CiliumVTEPConfig object and its upsert.
    \<^item> \<^verbatim>\<open>Controllers\<close> (\<^verbatim>\<open>internal/controller\<close>): the reconcilers of nodes and of the CiliumVTEPConfig.
    \<^item> \<^verbatim>\<open>Health_Server\<close> (\<^verbatim>\<open>internal/health/server.go\<close>): the probes.
    \<^item> \<^verbatim>\<open>Leader_Setup\<close> (\<^verbatim>\<open>internal/gateway/setup.go\<close>): what a gateway does when it becomes leader.  Its two tasks meet the
      contract \<open>publisher\<close>, and \<open>leader_tasks\<close> combines them.  \<^verbatim>\<open>Leader_Steps\<close> cuts \<open>Start\<close> and the upsert into steps of at most one
      outside call (\<open>start_step\<close>, \<open>upsert_step\<close>) and shows that together they are \<open>Start\<close>.
    \<^item> \<^verbatim>\<open>Gateway_Cluster\<close>: any number of gateways, each with its \<open>Start\<close> and its reconciler of the CiliumVTEPConfig in these steps, the lease,
      restarts and outside changes, as one labelled transition system (\<open>cluster_step\<close>).
    \<^item> \<^verbatim>\<open>Gateway_Flags\<close> (\<^verbatim>\<open>cmd/gateway/main.go\<close>): the thirteen flags, their defaults from the environment, and the command
      line.
    \<^item> \<^verbatim>\<open>Gateway_Main\<close> (\<^verbatim>\<open>cmd/gateway/main.go\<close>): the whole program (\<open>process\<close>): \<open>init\<close>, the command line, and \<open>main\<close> from its checks over
      what it registers with the controller manager to the run of the manager, the clean-up and the panics on the way.
    \<^item> \<^verbatim>\<open>Data_Path\<close>: the path of a packet over VPC route, leader and tunnel, from \<open>Start\<close> and \<open>NodeReconcile\<close> together.
    \<^item> this theory: the properties of the cluster.

  \<^bold>\<open>State and effects.\<close>  A Go struct is a record, an error result an option or the left part of a sum, with one
  constructor per error the code builds.  Everything outside the process (kernel, EC2, Kubernetes API, metadata
  service, clock, controller manager) is a world of arbitrary type \<^verbatim>\<open>'w\<close>, and a call to it is a function from a world to a
  result and a new world, passed as an argument.  The state of a process is \<open>sys\<close>: its metrics and the
  world.  An operation that mutates a Go object returns the new object.  Loops range over finite lists, or have a
  termination proof (\<^verbatim>\<open>flag.Parse\<close>, \<^verbatim>\<open>time.ParseDuration\<close>, trimming, IPv6 parsing).  Step counts appear in \<open>start_bound\<close>: two steps for each table
  and CIDR and six more are enough for \<open>Start\<close> to end, whatever the calls answer, and two for a reconciliation.

  \<^bold>\<open>Hypotheses.\<close>  What third-party code is documented to do is stated as predicates over views of the world:
  \<open>kernel_laws\<close>, \<open>fdb_del_law\<close> and \<open>link_laws\<close> for the kernel, \<open>ec2_laws\<close> for EC2 (with the canonical form of a destination as the
  parameter \<open>canon\<close>), \<open>unstruct_laws\<close> and \<open>api_laws\<close> for Kubernetes objects and their server, \<open>imds_laws\<close> for the metadata
  service, \<open>fq_name_law\<close> and \<open>const_metric_law\<close> for client\_golang, \<open>startup_laws\<close> for what a controller manager keeps of what it accepts, \<open>clock_laws\<close> for a
  monotonic clock.  A write that fails may have been applied, since its answer may be lost, except where the service documents a
  refusal (\<open>create_rejects\<close>, \<open>create_conflicts\<close>).  Reads need not show the latest write: EC2 is eventually consistent and the Kubernetes client reads
  from a cache.  That reads are up to date (\<open>fresh_reads\<close>, \<open>get_fresh\<close>) and that services are reachable (\<open>describe_up\<close>,
  \<open>writes_up\<close>, \<open>api_up\<close>) are hypotheses of their own, of the theorems that need them, and their texts say so.  Each of them has an
  instance (\<open>linux\<close>, \<open>mem_ec2\<close>, \<open>mem_k8s\<close>, \<open>lossy_k8s\<close>, \<open>imds0\<close>, \<open>cloud_ec2\<close>, \<open>const_metric0\<close>, \<open>manager1\<close>), used by the witnesses.

  \<^bold>\<open>What is shown.\<close>  Kernel state: a successful addition programs a path and disturbs no other, a failing one is safe,
  repeated events are harmless, the node gauge is exact, and which kernel requests are well formed.  Route tables: updates converge,
  touch nothing else, stop at a named pair on errors and write only when needed.  CiliumVTEPConfig: comparison is exact, upserts
  converge and never overwrite an unread version.  Leader: gauge, counters and durations are exact, routes move before the object does, a
  takeover succeeds from any state, and \<open>Start\<close> is the sum of its steps.  Cluster: in all interleavings of these steps, with failing calls, lost leases,
  restarts and outside changes, the gauge shows whose \<open>Start\<close> runs, a leader that waits owns its routes if no other gateway was writing routes
  when it won the lease, a takeover that nobody disturbs ends in a bounded number of steps with routes and object its own, and so does
  a reconciliation of the object.  Concurrency of route updates: UpdateRoutes equals its small steps, any interleaving of passes leaves
  each route where it was or on a gateway that manages it, and an undisturbed pass succeeds.  Start-up: what is registered with
  the manager, and what the exit status tells.  Command line: it loses nothing and gives every variable its documented value.  Data path: after one pass
  over the nodes and a successful \<open>Start\<close> the longest prefix matches of VPC and kernel carry each pod address to its node, and
  no intermediate state of the tables sends a packet to a wrong node.  Metrics: a scrape sends what was announced.
  Some theorems record behaviour that the code does not intend: stale forwarding entries, leaked nodes, CIDRs in
  non-canonical form, a lost takeover after a stale read (of the object or of the route tables), an interface left behind, a route stolen by a
  late write, a \<open>Start\<close> that fails because the gateway's own reconciler was faster, a scrape that panics over an interface name.

  \<^bold>\<open>Not modelled.\<close>  Logging and the construction of the logger; signal handling, which only cancels the context that
  ends the manager's run; the controller manager's own scheduling (its start is a parameter; in the cluster, elections, lost leases
  and requests are steps that may come at any time); the usage text that \<^verbatim>\<open>flag\<close> prints; interleaving of two VTEP
  operations, which the code does not guard against and which the node controller, handling one request at a time, does not
  produce; contexts and time-outs, which appear as failing calls, applied or not.  The end-to-end tests, charts and build files are left out.

  \<^bold>\<open>Plan.\<close>  Round trips for IPv6 addresses; the node reconcilers of all gateways as steps of the cluster.
\<close>

section \<open>Properties of the cluster\<close>

text \<open>C1: In every state that the gateways can reach, through elections, lost leases, restarts, reconciliations, failing calls and arbitrary
  outside changes, a gateway's leader gauge is 1 exactly while its Start runs: from its first step to its end,
  also while the routes are still being moved and while it goes on after the lease is lost.  And the routes are the leader's: from the
  moment at which gateway i wins the lease, if no other gateway is then in the middle of its route update, all
  configured routes point to i's interface whenever i's Start has reached its waiting point, however the steps of all
  gateways interleave and whichever calls fail, until another gateway wins the lease.  This assumes that outside
  changes do not take routes away from i, that EC2 reads are up to date, and that the pod CIDRs are in canonical form.\<close>

theorem cluster_leader_routes:
  assumes laws: "\<forall>j. gateway_laws now tv canon (gws j)"
    and reach: "trace (cluster_step now u gws (\<lambda>_ _. True)) (cl_init w0) es0 c0"
    and won: "cluster_step now u gws (\<lambda>_ _. True) c0 (Acquire i) c1" and quiet: "\<forall>j. j \<noteq> i \<longrightarrow> \<not> may_write (cl_phase c0 j)"
    and run: "trace (cluster_step now u gws (keeps_routes tv (gws i))) c1 es c" and lead: "\<forall>j. j \<noteq> i \<longrightarrow> Acquire j \<notin> set es"
  shows "(\<forall>j. LeaderIsActive (cl_metrics c0 j) = (if active (cl_phase c0 j) then 1 else 0))
    \<and> (\<forall>j. LeaderIsActive (cl_metrics c j) = (if active (cl_phase c j) then 1 else 0))
    \<and> (cl_phase c i = Blocked \<longrightarrow> routes_published tv (gws i) (cl_world c))"
proof -
  have g0: "gauge_inv c0" by (rule gauge.trace_good [OF reach _ gauge_init]) (simp add: list_all_iff)
  have "gauge_inv c1" using gauge.step_good [OF g0 _ won] by simp
  then have g: "gauge_inv c" using gauge.trace_good [OF run] by (simp add: list_all_iff)
  have "owner_inv now gws tv canon i c1"
    using won quiet laws by (auto simp: owner_inv_def elim!: acquireE intro: owned_all)
  then have "owner_inv now gws tv canon i c"
    by (rule owner.trace_good [OF run, rotated]) (use lead in \<open>auto simp: list_all_iff\<close>)
  then have "owned tv (gws i) (cl_phase c i) (cl_world c)" by (simp add: owner_inv_def)
  with owned_published [of "gws i" Blocked tv "cl_world c"] g0 g show ?thesis by (auto simp: gauge_inv_def)
qed

text \<open>C3: Fail-over works, whatever the previous leaders and others have left behind, under these conditions: the lease is free, gateway i is
  idle, no other gateway is in the middle of its Start or of a reconciliation; EC2 and the API server are reachable and
  their reads are up to date; the configured tables exist, the pod CIDRs are in canonical form, and the clock disturbs
  nothing.  Then i can win the lease, and in every run from there that contains at least \<open>start_bound\<close> steps of i (two for each table
  and CIDR and six more), i waits as leader with all its routes pointing to it and the CiliumVTEPConfig
  advertising it.  The run may contain any steps of the others, as long as none of them wins the lease, no
  reconciliation is requested, and outside changes leave i's routes, the tables' existence and the object alone.\<close>

theorem cluster_failover:
  assumes clock: "clock_keeps now tv" "clock_keeps now store"
    and ready: "routes_ready tv canon (gws i) (cl_world c0)" "config_ready u tv store (gws i) (cl_world c0)"
    and free: "cl_lease c0 = None" "cl_phase c0 i = Idle" "cl_upsert c0 i = Upserted r" "others_rest c0 i"
  shows "\<exists>c1. cluster_step now u gws (same_view tv store (gws i)) c0 (Acquire i) c1 \<and> cl_lease c1 = Some i
    \<and> (\<forall>es c. trace (cluster_step now u gws (same_view tv store (gws i))) c1 es c \<longrightarrow> list_all (undisturbing i) es \<longrightarrow>
         start_bound (gws i) \<le> count_list es (Run i) \<longrightarrow>
         cl_phase c i = Blocked \<and> routes_published tv (gws i) (cl_world c) \<and> config_published store (gws i) (cl_world c))"
proof -
  let ?c1 = "c0\<lparr>cl_lease := Some i, cl_phase := (cl_phase c0)(i := Begun)\<rparr>"
  have inv: "takeover_inv now u gws tv canon store i ?c1"
    using assms by (auto simp: takeover_inv_def others_rest_def intro: owned_all)
  have "cl_phase c i = Blocked \<and> routes_published tv (gws i) (cl_world c) \<and> config_published store (gws i) (cl_world c)"
    if t: "trace (cluster_step now u gws (same_view tv store (gws i))) ?c1 es c" "list_all (undisturbing i) es"
      "start_bound (gws i) \<le> count_list es (Run i)" for es c
  proof (rule takeover_done)
    show "takeover_inv now u gws tv canon store i c" using t(1,2) inv by (rule takeover.trace_good)
    show "phase_fuel (gws i) (cl_phase c i) = 0" using takeover.trace_fuel [OF t(1,2) inv] t(3) by simp
  qed
  moreover have "cluster_step now u gws (same_view tv store (gws i)) c0 (Acquire i) ?c1" using free(1,2) by (rule cluster_step.acquired)
  ultimately show ?thesis by (intro exI [of _ ?c1]) auto
qed

text \<open>C18: The reconciler of a waiting leader repairs the CiliumVTEPConfig.  In whatever state the object is, a request for it can be
  taken up, and in every run from there with at least two steps of i's reconciler the object advertises i, and i's
  routes are what they were.  Conditions: the API server is reachable and its reads are up to date, no other gateway is in
  the middle of its Start or of a reconciliation, and during the run nobody else wins the lease, no further request is
  taken up, i's leadership does not end, and outside changes leave the object and i's routes alone.\<close>

theorem cluster_heals:
  assumes ready: "config_ready u tv store (gws i) (cl_world c0)"
    and lead: "cl_phase c0 i = Blocked" "cl_upsert c0 i = Upserted r" "others_rest c0 i"
  shows "(\<exists>c1. cluster_step now u gws (same_view tv store (gws i)) c0 (Request i CiliumVTEPConfigName) c1)
    \<and> (\<forall>c1 es c. cluster_step now u gws (same_view tv store (gws i)) c0 (Request i CiliumVTEPConfigName) c1 \<longrightarrow>
         trace (cluster_step now u gws (same_view tv store (gws i))) c1 es c \<longrightarrow> list_all (undisturbing i) es \<longrightarrow>
         2 \<le> count_list es (Reconcile i) \<longrightarrow>
         config_published store (gws i) (cl_world c) \<and> cl_phase c i = Blocked
         \<and> (\<forall>(t, d) \<in> managed (gws i). route_of (tv (cl_world c)) t d = route_of (tv (cl_world c0)) t d))"
proof -
  let ?c1 = "c0\<lparr>cl_upsert := (cl_upsert c0)(i := Reading)\<rparr>"
  have inv: "heal_inv u gws tv store i (cl_world c0) ?c1"
    using assms by (auto simp: heal_inv_def others_rest_def)
  have "config_published store (gws i) (cl_world c) \<and> cl_phase c i = Blocked
      \<and> (\<forall>(t, d) \<in> managed (gws i). route_of (tv (cl_world c)) t d = route_of (tv (cl_world c0)) t d)"
    if t: "trace (cluster_step now u gws (same_view tv store (gws i))) ?c1 es c" "list_all (undisturbing i) es"
      "2 \<le> count_list es (Reconcile i)" for es c
  proof -
    have "heal_inv u gws tv store i (cl_world c0) c" using t(1,2) inv by (rule heal.trace_good)
    moreover have "upsert_fuel (cl_upsert c i) = 0" using heal.trace_fuel [OF t(1,2) inv] t(3) by simp
    ultimately show ?thesis by (auto simp: heal_inv_def)
  qed
  note fin = this
  have "cluster_step now u gws (same_view tv store (gws i)) c0 (Request i CiliumVTEPConfigName) ?c1"
    using cluster_step.requested [OF _ lead(2), of now u gws "same_view tv store (gws i)" CiliumVTEPConfigName] lead(1) by simp
  moreover have "c1 = ?c1" if "cluster_step now u gws (same_view tv store (gws i)) c0 (Request i CiliumVTEPConfigName) c1" for c1
    using that by (auto elim: requestE)
  ultimately show ?thesis using fin by (intro conjI allI impI) (blast, simp_all)
qed

subsection \<open>Witnesses\<close>

definition gateways0 :: "nat \<Rightarrow> cloud GatewaySetup" where
  "gateways0 i = gateway0 (''eni-'' @ dec i)"

abbreviation "cloud0 \<equiv> world cloud_sys0"

lemma gateways0_ready:
  "routes_ready cloud_tables id (gateways0 i) cloud0" "config_ready tree_ops cloud_tables cloud_store (gateways0 i) w"
  using gateway0_ready by (auto simp: gateways0_def cloud_sys0_def tables0_def)

lemma runs_enabled: "\<exists>c'. trace (cluster_step now u gws rely) c (replicate n (Run i)) c'"
proof (induction n arbitrary: c)
  case 0
  then show ?case by simp
next
  case (Suc n)
  obtain p s where "start_step now u (gws i) (cl_phase c i, cl_sys c i) = (p, s)" by fastforce
  then have "cluster_step now u gws rely c (Run i) (cl_put i p s c)" by (rule cluster_step.ran)
  with Suc [of "cl_put i p s c"] show ?case by auto
qed

lemma reconciles_enabled: "\<exists>c'. trace (cluster_step now u gws rely) c (replicate n (Reconcile i)) c'"
proof (induction n arbitrary: c)
  case 0
  then show ?case by simp
next
  case (Suc n)
  obtain p w' where "upsert_step u (gs_k8sClient (gws i)) (gs_vxlanIface (gws i)) (gs_nodeIP (gws i)) (gs_vpcCIDRs (gws i))
      (cl_upsert c i, cl_world c) = (p, w')" by fastforce
  then have "cluster_step now u gws rely c (Reconcile i) (c\<lparr>cl_upsert := (cl_upsert c)(i := p), cl_world := w'\<rparr>)"
    by (rule cluster_step.reconciled)
  with Suc [of "c\<lparr>cl_upsert := (cl_upsert c)(i := p), cl_world := w'\<rparr>"] show ?case by auto
qed

text \<open>A gateway alone with the services, and the object of another gateway.\<close>

lemma trace_runs:
  assumes "trace (cluster_step now u gws rely) c (replicate n (Run i)) c'"
  shows "cl_phase c' i = fst ((start_step now u (gws i) ^^ n) (cl_phase c i, cl_sys c i))
    \<and> cl_sys c' i = snd ((start_step now u (gws i) ^^ n) (cl_phase c i, cl_sys c i))
    \<and> (\<forall>j. j \<noteq> i \<longrightarrow> cl_phase c' j = cl_phase c j)"
  using assms
proof (induction n arbitrary: c)
  case 0
  then show ?case by simp
next
  case (Suc n)
  then obtain p s where s: "start_step now u (gws i) (cl_phase c i, cl_sys c i) = (p, s)"
    "trace (cluster_step now u gws rely) (cl_put i p s c) (replicate n (Run i)) c'" by (auto elim: runE)
  have "cl_sys (cl_put i p s c) i = s" by (simp add: cl_sys_def)
  with Suc.IH [OF s(2)] s(1) show ?case by (simp add: funpow_swap1)
qed

lemma run_of_Start:
  assumes "trace (cluster_step clock0 tree_ops gateways0 rely) ((cl_init cloud0)\<lparr>cl_lease := Some i,
      cl_phase := (cl_phase (cl_init cloud0))(i := Begun)\<rparr>) (replicate 10 (Run i)) c"
  shows "cl_phase c i = Blocked \<and> (\<forall>j. j \<noteq> i \<longrightarrow> cl_phase c j = Idle)"
proof -
  have b: "start_bound (gateways0 i) = 10" by (simp add: start_bound_def gateways0_def gateway0_def NewSetup_def)
  have sys: "cl_sys ((cl_init cloud0)\<lparr>cl_lease := Some i, cl_phase := (cl_phase (cl_init cloud0))(i := Begun)\<rparr>) i = cloud_sys0"
    by (simp add: cl_sys_def cl_init_def cloud_sys0_def)
  have "fst (Start clock0 tree_ops (gateways0 i) cloud_sys0) = Waiting"
    using Start_publishes [OF gateways0_ready(1) gateways0_ready(2) clock0_keeps clock0_keeps, of i] by auto
  with start_steps_run [where now = clock0 and u = tree_ops and g = "gateways0 i" and s = cloud_sys0] trace_runs [OF assms] b sys
  show ?thesis by (simp add: cl_init_def)
qed

lemma not_advertised0: "\<not> config_published cloud_store (gateways0 i) cloud0"
proof -
  have "needsUpdate tree_ops other_config (IP_String ip0) (GetMac iface0) [''10.1.0.0/16'']" by code_simp
  then have "\<not> advertises other_config (IP_String ip0) (GetMac iface0) [''10.1.0.0/16'']"
    using needsUpdate_advertises [OF tree_ops_laws IP_String_not_Nil, of "GetMac iface0" "[''10.1.0.0/16'']"] by simp
  then show ?thesis by (simp add: config_published_def gateways0_def gateway0_def NewSetup_def cloud_sys0_def)
qed

lemma count_list_replicate: "count_list (replicate n x) x = n"
  by (induction n) auto

theorem cluster_leader_routes_witness:
  "\<exists>c1 c. cluster_step clock0 tree_ops gateways0 (\<lambda>_ _. True) (cl_init cloud0) (Acquire 7) c1
     \<and> trace (cluster_step clock0 tree_ops gateways0 (keeps_routes cloud_tables (gateways0 7))) c1 (replicate 10 (Run 7)) c
     \<and> cl_phase c 7 = Blocked \<and> routes_published cloud_tables (gateways0 7) (cl_world c)
     \<and> LeaderIsActive (cl_metrics c 7) = 1 \<and> LeaderIsActive (cl_metrics c 8) = 0"
proof -
  let ?c1 = "(cl_init cloud0)\<lparr>cl_lease := Some 7, cl_phase := (cl_phase (cl_init cloud0))(7 := Begun)\<rparr>"
  have laws: "\<forall>j. gateway_laws clock0 cloud_tables id (gateways0 j)"
    using ready_laws [OF clock0_keeps gateways0_ready(1) gateways0_ready(2)] by blast
  have won: "cluster_step clock0 tree_ops gateways0 (\<lambda>_ _. True) (cl_init cloud0) (Acquire 7) ?c1"
    by (rule cluster_step.acquired) (simp_all add: cl_init_def)
  obtain c where run: "trace (cluster_step clock0 tree_ops gateways0 (keeps_routes cloud_tables (gateways0 7))) ?c1 (replicate 10 (Run 7)) c"
    using runs_enabled by blast
  have ph: "cl_phase c 7 = Blocked" "cl_phase c 8 = Idle" using run_of_Start [OF run] by simp_all
  have "trace (cluster_step clock0 tree_ops gateways0 (\<lambda>_ _. True)) (cl_init cloud0) [] (cl_init cloud0)" by simp
  from cluster_leader_routes [OF laws this won _ run] ph
  have "routes_published cloud_tables (gateways0 7) (cl_world c)" "LeaderIsActive (cl_metrics c 7) = 1" "LeaderIsActive (cl_metrics c 8) = 0"
    by (simp_all add: cl_init_def)
  with won run ph(1) show ?thesis by blast
qed

theorem cluster_heals_witness:
  "\<exists>c0 c1 c. cl_phase c0 5 = Blocked
     \<and> cluster_step clock0 tree_ops gateways0 (same_view cloud_tables cloud_store (gateways0 5)) c0 (Request 5 CiliumVTEPConfigName) c1
     \<and> trace (cluster_step clock0 tree_ops gateways0 (same_view cloud_tables cloud_store (gateways0 5))) c1 (replicate 2 (Reconcile 5)) c
     \<and> \<not> config_published cloud_store (gateways0 5) (cl_world c0) \<and> config_published cloud_store (gateways0 5) (cl_world c)"
proof -
  let ?c0 = "(cl_init cloud0)\<lparr>cl_lease := Some 5, cl_phase := (cl_phase (cl_init cloud0))(5 := Blocked)\<rparr>"
  have "others_rest ?c0 5" by (simp add: others_rest_def cl_init_def)
  with cluster_heals [of tree_ops cloud_tables cloud_store gateways0 5 ?c0 None clock0] gateways0_ready(2)
  obtain c1 where c1: "cluster_step clock0 tree_ops gateways0 (same_view cloud_tables cloud_store (gateways0 5)) ?c0 (Request 5 CiliumVTEPConfigName) c1"
    "\<forall>es c. trace (cluster_step clock0 tree_ops gateways0 (same_view cloud_tables cloud_store (gateways0 5))) c1 es c \<longrightarrow>
         list_all (undisturbing 5) es \<longrightarrow> 2 \<le> count_list es (Reconcile 5) \<longrightarrow> config_published cloud_store (gateways0 5) (cl_world c)"
    by (auto simp: cl_init_def)
  obtain c where "trace (cluster_step clock0 tree_ops gateways0 (same_view cloud_tables cloud_store (gateways0 5))) c1 (replicate 2 (Reconcile 5)) c"
    using reconciles_enabled by blast
  moreover have "list_all (undisturbing 5) (replicate 2 (Reconcile 5))" by (simp add: list_all_iff)
  moreover have "2 \<le> count_list (replicate 2 (Reconcile 5)) (Reconcile 5)" by (simp only: count_list_replicate)
  ultimately have "trace (cluster_step clock0 tree_ops gateways0 (same_view cloud_tables cloud_store (gateways0 5))) c1 (replicate 2 (Reconcile 5)) c"
    "config_published cloud_store (gateways0 5) (cl_world c)" using c1(2) by blast+
  moreover have "\<not> config_published cloud_store (gateways0 5) (cl_world ?c0)" using not_advertised0 [of 5] by (simp add: cl_init_def)
  ultimately show ?thesis using c1(1) by (intro exI [of _ ?c0] exI [of _ c1] exI [of _ c]) simp
qed

theorem cluster_failover_witness:
  "\<exists>c1 c. cluster_step clock0 tree_ops gateways0 (same_view cloud_tables cloud_store (gateways0 3)) (cl_init cloud0) (Acquire 3) c1
     \<and> trace (cluster_step clock0 tree_ops gateways0 (same_view cloud_tables cloud_store (gateways0 3))) c1 (replicate 10 (Run 3)) c
     \<and> cl_phase c 3 = Blocked \<and> routes_published cloud_tables (gateways0 3) (cl_world c)
     \<and> config_published cloud_store (gateways0 3) (cl_world c)"
proof -
  have b: "start_bound (gateways0 3) = 10" by (simp add: start_bound_def gateways0_def gateway0_def NewSetup_def)
  have "others_rest (cl_init cloud0) 3" by (simp add: others_rest_def cl_init_def)
  with cluster_failover [of clock0 cloud_tables cloud_store id gateways0 3 "cl_init cloud0" tree_ops None] gateways0_ready
  obtain c1 where c1: "cluster_step clock0 tree_ops gateways0 (same_view cloud_tables cloud_store (gateways0 3)) (cl_init cloud0) (Acquire 3) c1"
    "\<forall>es c. trace (cluster_step clock0 tree_ops gateways0 (same_view cloud_tables cloud_store (gateways0 3))) c1 es c \<longrightarrow>
         list_all (undisturbing 3) es \<longrightarrow> start_bound (gateways0 3) \<le> count_list es (Run 3) \<longrightarrow>
         cl_phase c 3 = Blocked \<and> routes_published cloud_tables (gateways0 3) (cl_world c) \<and> config_published cloud_store (gateways0 3) (cl_world c)"
    by (auto simp: cl_init_def)
  obtain c where "trace (cluster_step clock0 tree_ops gateways0 (same_view cloud_tables cloud_store (gateways0 3))) c1 (replicate 10 (Run 3)) c"
    using runs_enabled by blast
  moreover have "list_all (undisturbing 3) (replicate 10 (Run 3))" by (simp add: list_all_iff)
  moreover have "start_bound (gateways0 3) \<le> count_list (replicate 10 (Run 3)) (Run 3)" by (simp only: b count_list_replicate)
  ultimately show ?thesis using c1 by blast
qed

end
